(* ===== verification/Prelude.thy ===== *)
theory Prelude
  imports Main "HOL-Library.Sublist" "HOL-Library.Char_ord" "HOL-Library.List_Lexorder"
    "HOL-Library.Product_Lexorder"
begin

text \<open>
  Types, hint collections and generic lemmas that every component shares.

  A Go string is a sequence of bytes, so it is a \<^typ>\<open>char list\<close> here (a \<^typ>\<open>char\<close> has
  eight bits). A Go call that returns \<open>(value, error)\<close> is a value of the sum type
  \<open>'a result\<close>: \<open>Inl\<close> carries the text of the error, \<open>Inr\<close> the value. Go's \<open>int64\<close> is
  an \<^typ>\<open>int\<close> with the wrap-around written out by \<open>int64\<close>.
\<close>

section \<open>Types\<close>

type_synonym bytes = "char list"

type_synonym 'a result = "string + 'a"

section \<open>Hint collections\<close>

named_theorems text_simps \<open>equations of the string routines\<close>
named_theorems frame_simps \<open>what an operation leaves alone\<close>
named_theorems inv_intros \<open>operations preserve the invariants\<close>

section \<open>Signed 64-bit arithmetic\<close>

definition int64 :: "int \<Rightarrow> int" where
  "int64 x = (x + 2 ^ 63) mod 2 ^ 64 - 2 ^ 63"

definition max_int64 :: int where
  "max_int64 = 2 ^ 63 - 1"

definition in_int64 :: "int \<Rightarrow> bool" where
  "in_int64 x \<longleftrightarrow> - (2 ^ 63) \<le> x \<and> x \<le> max_int64"

lemma int64_id: "in_int64 x \<Longrightarrow> int64 x = x"
  by (simp add: int64_def in_int64_def max_int64_def)

lemma int64_range: "in_int64 (int64 x)"
proof -
  have "0 \<le> (x + 9223372036854775808) mod 18446744073709551616"
    and "(x + 9223372036854775808) mod 18446744073709551616 < 18446744073709551616"
    by simp_all
  then show ?thesis
    by (simp add: int64_def in_int64_def max_int64_def)
qed

lemma int64_add_left: "int64 (int64 x + y) = int64 (x + y)"
proof -
  have "int64 x + 2 ^ 63 = (x + 2 ^ 63) mod 2 ^ 64" by (simp add: int64_def)
  then have "(int64 x + 2 ^ 63 + y) mod 2 ^ 64 = (x + 2 ^ 63 + y) mod 2 ^ 64"
    by (simp only: mod_add_left_eq)
  then show ?thesis
    unfolding int64_def [of "int64 x + y"] int64_def [of "x + y"] by (simp only: ac_simps)
qed

lemma int64_max_Suc: "int64 (max_int64 + 1) = - (2 ^ 63)"
  by (simp add: int64_def max_int64_def)

section \<open>Lists\<close>

lemma find_Some_in: "List.find P xs = Some x \<Longrightarrow> x \<in> set xs \<and> P x"
  by (induction xs) (auto split: if_splits)

lemma find_None_all: "List.find P xs = None \<longleftrightarrow> (\<forall>x \<in> set xs. \<not> P x)"
  by (induction xs) auto

lemma find_NoneD: "List.find P xs = None \<Longrightarrow> x \<in> set xs \<Longrightarrow> \<not> P x"
  by (simp add: find_None_all)

lemma find_not_None: "x \<in> set xs \<Longrightarrow> P x \<Longrightarrow> \<exists>y. List.find P xs = Some y"
  by (induction xs) auto

text \<open>A key that is unique in a list picks one element.\<close>

lemma distinct_map_inj:
  "distinct (map f xs) \<Longrightarrow> x \<in> set xs \<Longrightarrow> y \<in> set xs \<Longrightarrow> f x = f y \<Longrightarrow> x = y"
  by (simp add: distinct_map inj_on_def)

lemma distinct_map_filter_key: "distinct (map f xs) \<Longrightarrow> distinct (map f (filter P xs))"
  by (induction xs) auto

lemma result_option_cases [case_names err none some]:
  obtains e where "a = Inl e" | "a = Inr None" | r where "a = Inr (Some r)"
  by (metis option.exhaust sum.exhaust)

lemma concat_map_in: "s \<in> set (concat (map f xs)) \<Longrightarrow> \<exists>x \<in> set xs. s \<in> set (f x)"
  by auto

end
