(* ===== verification/GoText.thy ===== *)
theory GoText
  imports Prelude
begin

text \<open>
  The routines of Go's \<open>strings\<close>, \<open>strconv\<close> and \<open>path/filepath\<close> packages that the server
  calls, on byte strings.
\<close>

section \<open>Splitting and joining\<close>

text \<open>\<open>strings.Split\<close> with a one-byte separator.\<close>

fun split_on :: "char \<Rightarrow> string \<Rightarrow> string list" where
  "split_on c [] = [[]]"
| "split_on c (x # xs) =
     (if x = c then [] # split_on c xs
      else (case split_on c xs of [] \<Rightarrow> [[x]] | y # ys \<Rightarrow> (x # y) # ys))"

text \<open>\<open>strings.Join\<close>.\<close>

fun join_with :: "string \<Rightarrow> string list \<Rightarrow> string" where
  "join_with sep [] = []"
| "join_with sep [x] = x"
| "join_with sep (x # y # ys) = x @ sep @ join_with sep (y # ys)"

lemma split_on_nonempty [simp]: "split_on c s \<noteq> []"
  by (cases s) (auto split: list.splits)

lemma join_split_on: "join_with [c] (split_on c s) = s"
proof (induction s)
  case Nil
  then show ?case by simp
next
  case (Cons x xs)
  obtain y ys where "split_on c xs = y # ys"
    by (cases "split_on c xs") auto
  with Cons show ?case by (cases ys) auto
qed

lemma split_on_no_sep: "seg \<in> set (split_on c s) \<Longrightarrow> c \<notin> set seg"
  by (induction s arbitrary: seg) (auto split: list.splits if_splits)

lemma split_on_absent: "c \<notin> set s \<Longrightarrow> split_on c s = [s]"
  by (induction s) auto

lemma split_on_append: "c \<notin> set s \<Longrightarrow> split_on c (s @ c # t) = s # split_on c t"
  by (induction s) auto

lemma split_on_join:
  "xs \<noteq> [] \<Longrightarrow> \<forall>x \<in> set xs. c \<notin> set x \<Longrightarrow> split_on c (join_with [c] xs) = xs"
  by (induction "[c]" xs rule: join_with.induct) (auto simp: split_on_absent split_on_append)

text \<open>\<open>strings.LastIndex\<close> of a one-byte separator.\<close>

fun last_index :: "char \<Rightarrow> string \<Rightarrow> nat option" where
  "last_index c [] = None"
| "last_index c (x # xs) =
     (case last_index c xs of Some i \<Rightarrow> Some (Suc i)
      | None \<Rightarrow> if x = c then Some 0 else None)"

lemma last_index_None: "last_index c s = None \<longleftrightarrow> c \<notin> set s"
  by (induction s) (auto split: option.splits)

lemma last_index_append: "c \<notin> set t \<Longrightarrow> last_index c (s @ c # t) = Some (length s)"
proof (induction s)
  case Nil
  then have "last_index c t = None" by (simp add: last_index_None)
  then show ?case by simp
next
  case (Cons x xs)
  then show ?case by simp
qed

lemma last_index_Some:
  "last_index c s = Some i \<Longrightarrow> i < length s \<and> s ! i = c \<and> c \<notin> set (drop (Suc i) s)"
proof (induction s arbitrary: i)
  case (Cons x xs)
  then show ?case
    by (cases "last_index c xs") (auto simp: last_index_None split: if_splits)
qed simp

text \<open>\<open>strings.Cut\<close>: the text before and after the first separator.\<close>

fun cut :: "char \<Rightarrow> string \<Rightarrow> (string \<times> string) option" where
  "cut c [] = None"
| "cut c (x # xs) =
     (if x = c then Some ([], xs)
      else map_option (\<lambda>(a, b). (x # a, b)) (cut c xs))"

lemma cut_append: "c \<notin> set s \<Longrightarrow> cut c (s @ c # t) = Some (s, t)"
  by (induction s) auto

lemma cut_Some: "cut c s = Some (a, b) \<Longrightarrow> s = a @ c # b \<and> c \<notin> set a"
  by (induction s arbitrary: a b) (auto split: if_splits)

section \<open>White space\<close>

text \<open>
  The UTF-8 encodings of the runes \<open>unicode.IsSpace\<close> accepts: the ASCII ones, U+0085, U+00A0,
  U+1680, U+2000 to U+200A, U+2028, U+2029, U+202F, U+205F and U+3000.
\<close>

definition space_runes :: "string list" where
  "space_runes =
    [[CHR 0x20], [CHR 0x09], [CHR 0x0A], [CHR 0x0B], [CHR 0x0C], [CHR 0x0D],
     [CHR 0xC2, CHR 0x85], [CHR 0xC2, CHR 0xA0], [CHR 0xE1, CHR 0x9A, CHR 0x80],
     [CHR 0xE2, CHR 0x80, CHR 0x80], [CHR 0xE2, CHR 0x80, CHR 0x81],
     [CHR 0xE2, CHR 0x80, CHR 0x82], [CHR 0xE2, CHR 0x80, CHR 0x83],
     [CHR 0xE2, CHR 0x80, CHR 0x84], [CHR 0xE2, CHR 0x80, CHR 0x85],
     [CHR 0xE2, CHR 0x80, CHR 0x86], [CHR 0xE2, CHR 0x80, CHR 0x87],
     [CHR 0xE2, CHR 0x80, CHR 0x88], [CHR 0xE2, CHR 0x80, CHR 0x89],
     [CHR 0xE2, CHR 0x80, CHR 0x8A], [CHR 0xE2, CHR 0x80, CHR 0xA8],
     [CHR 0xE2, CHR 0x80, CHR 0xA9], [CHR 0xE2, CHR 0x80, CHR 0xAF],
     [CHR 0xE2, CHR 0x81, CHR 0x9F], [CHR 0xE3, CHR 0x80, CHR 0x80]]"

text \<open>Strip code words from the front as long as one of them is there.\<close>

function trim_head :: "string list \<Rightarrow> string \<Rightarrow> string" where
  "trim_head codes s =
     (case List.find (\<lambda>p. p \<noteq> [] \<and> prefix p s) codes of
        None \<Rightarrow> s
      | Some p \<Rightarrow> trim_head codes (drop (length p) s))"
  by pat_completeness auto
termination
proof (relation "measure (length \<circ> snd)", goal_cases)
  case (2 codes s p)
  then have "p \<noteq> [] \<and> prefix p s" by (blast dest: find_Some_in)
  then have "0 < length p" and "length p \<le> length s" by (auto dest: prefix_length_le)
  then have "0 < length s" by linarith
  with \<open>0 < length p\<close> show ?case by simp
qed simp

declare trim_head.simps [simp del]

definition trim_space :: "string \<Rightarrow> string" where
  "trim_space s = rev (trim_head (map rev space_runes) (rev (trim_head space_runes s)))"

lemma trim_head_id: "\<forall>p \<in> set codes. p \<noteq> [] \<longrightarrow> \<not> prefix p s \<Longrightarrow> trim_head codes s = s"
  by (subst trim_head.simps) (auto split: option.splits dest: find_Some_in)

lemma trim_head_suffix: "suffix (trim_head codes s) s"
proof (induction codes s rule: trim_head.induct)
  case (1 codes s)
  show ?case
  proof (cases "List.find (\<lambda>p. p \<noteq> [] \<and> prefix p s) codes")
    case None
    then show ?thesis by (subst trim_head.simps) simp
  next
    case (Some p)
    with "1.IH" have "suffix (trim_head codes (drop (length p) s)) (drop (length p) s)"
      by blast
    then have "suffix (trim_head codes (drop (length p) s)) s"
      using suffix_drop suffix_order.trans by blast
    with Some show ?thesis by (subst trim_head.simps) simp
  qed
qed

lemma trim_head_stops:
  "p \<in> set codes \<Longrightarrow> p \<noteq> [] \<Longrightarrow> \<not> prefix p (trim_head codes s)"
proof (induction codes s rule: trim_head.induct)
  case (1 codes s)
  show ?case
  proof (cases "List.find (\<lambda>p. p \<noteq> [] \<and> prefix p s) codes")
    case None
    with "1.prems" have "\<not> prefix p s" by (auto simp: find_None_all)
    with None show ?thesis by (subst trim_head.simps) simp
  next
    case (Some q)
    with "1" show ?thesis by (subst trim_head.simps) simp
  qed
qed

text \<open>The first and last bytes of the white-space runes.\<close>

definition space_byte :: "char \<Rightarrow> bool" where
  "space_byte c \<longleftrightarrow> c \<in> set (concat space_runes)"

lemma trim_space_id:
  assumes "\<forall>c \<in> set s. \<not> space_byte c"
  shows "trim_space s = s"
proof -
  have sub: "set p \<subseteq> Collect space_byte" if "p \<in> set space_runes" for p
    using that by (auto simp: space_byte_def)
  have no: "\<not> prefix p t" if "p \<noteq> []" "set p \<subseteq> Collect space_byte" "set t = set s" for p t
  proof
    assume "prefix p t"
    then have "hd p \<in> set t" using that(1) by (auto simp: prefix_def)
    moreover have "space_byte (hd p)" using that(1,2) by (auto simp: subset_eq)
    ultimately show False using assms that(3) by auto
  qed
  have "trim_head space_runes s = s"
    using no sub by (intro trim_head_id) blast
  moreover have "trim_head (map rev space_runes) (rev s) = rev s"
  proof (intro trim_head_id ballI impI)
    fix p assume p: "p \<in> set (map rev space_runes)" "p \<noteq> []"
    then obtain q where "q \<in> set space_runes" "p = rev q" by auto
    with sub have "set p \<subseteq> Collect space_byte" by simp
    with p no show "\<not> prefix p (rev s)" by simp
  qed
  ultimately show ?thesis by (simp add: trim_space_def)
qed

text \<open>A byte that is in no white-space rune survives trimming.\<close>

lemma trim_head_keeps:
  "c \<in> set s \<Longrightarrow> \<forall>p \<in> set codes. c \<notin> set p \<Longrightarrow> c \<in> set (trim_head codes s)"
proof (induction codes s rule: trim_head.induct)
  case (1 codes s)
  show ?case
  proof (cases "List.find (\<lambda>p. p \<noteq> [] \<and> prefix p s) codes")
    case None
    with "1.prems" show ?thesis by (subst trim_head.simps) simp
  next
    case (Some p)
    then have "p \<in> set codes" and "prefix p s" by (auto dest: find_Some_in)
    then have "c \<in> set (drop (length p) s)" using "1.prems" by (auto simp: prefix_def)
    with Some "1" show ?thesis by (subst trim_head.simps) simp
  qed
qed

lemma trim_space_keeps: "c \<in> set s \<Longrightarrow> \<not> space_byte c \<Longrightarrow> c \<in> set (trim_space s)"
  unfolding trim_space_def space_byte_def by (auto intro!: trim_head_keeps)

lemma trim_space_stops:
  assumes "p \<in> set space_runes"
  shows "\<not> suffix p (trim_space s)"
proof -
  have "p \<noteq> []" using assms by (auto simp: space_runes_def)
  then have "\<not> prefix (rev p) (trim_head (map rev space_runes) (rev (trim_head space_runes s)))"
    using assms by (intro trim_head_stops) auto
  then show ?thesis by (simp add: trim_space_def suffix_to_prefix)
qed

section \<open>Fields\<close>

text \<open>\<open>strings.Fields\<close>: the maximal runs between white space.\<close>

fun span_word :: "string \<Rightarrow> string \<times> string" where
  "span_word [] = ([], [])"
| "span_word (c # cs) =
     (if \<exists>p \<in> set space_runes. prefix p (c # cs) then ([], c # cs)
      else (case span_word cs of (w, r) \<Rightarrow> (c # w, r)))"

lemma span_word_length: "length (snd (span_word s)) \<le> length s"
  by (induction s) (auto split: prod.splits)

lemma span_word_shrinks:
  "trim_head space_runes s \<noteq> [] \<Longrightarrow> length (snd (span_word (trim_head space_runes s))) < length s"
proof -
  assume ne: "trim_head space_runes s \<noteq> []"
  then obtain c cs where t: "trim_head space_runes s = c # cs" by (cases "trim_head space_runes s") auto
  have "\<forall>p \<in> set space_runes. p \<noteq> []" by (simp add: space_runes_def)
  then have "\<not> (\<exists>p \<in> set space_runes. prefix p (c # cs))"
    using trim_head_stops t by metis
  then have "length (snd (span_word (c # cs))) \<le> length cs"
    using span_word_length [of cs] by (cases "span_word cs") simp
  moreover have "length (c # cs) \<le> length s"
    using trim_head_suffix [of space_runes s] t suffix_length_le by metis
  ultimately show ?thesis by (simp add: t)
qed

function go_Fields :: "string \<Rightarrow> string list" where
  "go_Fields s =
     (let t = trim_head space_runes s in
      if t = [] then [] else fst (span_word t) # go_Fields (snd (span_word t)))"
  by pat_completeness auto
termination
proof (relation "measure length", goal_cases)
  case (2 s t)
  then show ?case using span_word_shrinks by (simp only: in_measure)
qed simp

declare go_Fields.simps [simp del]

end
