(* ===== verification/Strconv.thy ===== *)
theory Strconv
  imports GoText
begin

text \<open>
  The conversions of Go's \<open>strconv\<close> and \<open>strings\<close> the server uses, and \<open>server/parse_size.go\<close>,
  the readers of its settings, built on them.

  Floating-point parsing is the parameter \<open>scaled\<close>: \<open>scaled s m\<close> is
  \<open>int64(value * float64(m))\<close> for \<open>value, err := strconv.ParseFloat(s, 64)\<close>, or nothing when
  \<open>err\<close> is set. Likewise \<open>go_duration\<close> is \<open>time.ParseDuration\<close>, in nanoseconds. Case mapping of
  strings that are not ASCII is a parameter too; on ASCII it is spelt out.
\<close>

section \<open>Case mapping\<close>

definition lower_char :: "char \<Rightarrow> char" where
  "lower_char c =
     (if CHR ''A'' \<le> c \<and> c \<le> CHR ''Z'' then char_of ((of_char c :: nat) + 32) else c)"

definition upper_char :: "char \<Rightarrow> char" where
  "upper_char c =
     (if CHR ''a'' \<le> c \<and> c \<le> CHR ''z'' then char_of ((of_char c :: nat) - 32) else c)"

definition is_ascii :: "string \<Rightarrow> bool" where
  "is_ascii s \<longleftrightarrow> (\<forall>c \<in> set s. c < CHR 0x80)"

definition to_lower :: "(string \<Rightarrow> string) \<Rightarrow> string \<Rightarrow> string" where
  "to_lower unicode s = (if is_ascii s then map lower_char s else unicode s)"

definition to_upper :: "(string \<Rightarrow> string) \<Rightarrow> string \<Rightarrow> string" where
  "to_upper unicode s = (if is_ascii s then map upper_char s else unicode s)"

section \<open>Decimal integers\<close>

definition digit :: "char \<Rightarrow> nat option" where
  "digit c = (if CHR ''0'' \<le> c \<and> c \<le> CHR ''9'' then Some (of_char c - 48) else None)"

fun digits_value :: "nat \<Rightarrow> string \<Rightarrow> nat option" where
  "digits_value acc [] = Some acc"
| "digits_value acc (c # cs) =
     (case digit c of None \<Rightarrow> None | Some d \<Rightarrow> digits_value (10 * acc + d) cs)"

text \<open>\<open>strconv.Atoi\<close> and \<open>strconv.ParseInt(s, 10, 64)\<close>: nothing is their error.\<close>

definition atoi :: "string \<Rightarrow> int option" where
  "atoi s =
     (let (neg, ds) =
        (case s of [] \<Rightarrow> (False, []) | c # cs \<Rightarrow>
           if c = CHR ''-'' then (True, cs) else if c = CHR ''+'' then (False, cs) else (False, s)) in
      if ds = [] then None
      else (case digits_value 0 ds of
              None \<Rightarrow> None
            | Some n \<Rightarrow>
                let v = (if neg then - int n else int n) in
                if in_int64 v then Some v else None))"

text \<open>\<open>strconv.FormatInt\<close>.\<close>

fun show_nat :: "nat \<Rightarrow> string" where
  "show_nat n = (if n < 10 then [char_of (48 + n)] else show_nat (n div 10) @ [char_of (48 + n mod 10)])"

declare show_nat.simps [simp del]

definition show_int :: "int \<Rightarrow> string" where
  "show_int i = (if i < 0 then CHR ''-'' # show_nat (nat (- i)) else show_nat (nat i))"

section \<open>Settings\<close>

definition go_ParseBool :: "string \<Rightarrow> bool option" where
  "go_ParseBool s =
     (if s \<in> {''1'', ''t'', ''T'', ''TRUE'', ''true'', ''True''} then Some True
      else if s \<in> {''0'', ''f'', ''F'', ''FALSE'', ''false'', ''False''} then Some False
      else None)"

definition parseBool :: "string \<Rightarrow> bool \<Rightarrow> bool" where
  "parseBool s defaultValue =
     (if s = [] then defaultValue
      else (case go_ParseBool (trim_space s) of Some v \<Rightarrow> v | None \<Rightarrow> defaultValue))"

definition parseInt :: "string \<Rightarrow> int \<Rightarrow> int" where
  "parseInt s defaultValue =
     (if s = [] then defaultValue
      else (case atoi (trim_space s) of Some v \<Rightarrow> v | None \<Rightarrow> defaultValue))"

definition size_units :: "(string \<times> int) list" where
  "size_units =
    [(''K'', 1024), (''KB'', 1024), (''M'', 1024 * 1024), (''MB'', 1024 * 1024),
     (''G'', 1024 * 1024 * 1024), (''GB'', 1024 * 1024 * 1024)]"

text \<open>The loop over the map of units, in the order the list gives.\<close>

fun parseSize_loop ::
  "(string \<Rightarrow> int \<Rightarrow> int option) \<Rightarrow> (string \<times> int) list \<Rightarrow> string \<Rightarrow> int \<Rightarrow> int option" where
  "parseSize_loop scaled [] s defaultSize = None"
| "parseSize_loop scaled ((unit, multiplier) # units) s defaultSize =
     (if suffix unit s then
        (case scaled (take (length s - length unit) s) multiplier of
           Some v \<Rightarrow> Some v
         | None \<Rightarrow> Some defaultSize)
      else parseSize_loop scaled units s defaultSize)"

definition parseSize ::
  "(string \<Rightarrow> string) \<Rightarrow> (string \<Rightarrow> int \<Rightarrow> int option) \<Rightarrow> (string \<times> int) list \<Rightarrow>
   string \<Rightarrow> int \<Rightarrow> int" where
  "parseSize unicode scaled units s defaultSize =
     (if s = [] then defaultSize
      else
        let s = trim_space (to_upper unicode s) in
        case parseSize_loop scaled units s defaultSize of
          Some v \<Rightarrow> v
        | None \<Rightarrow> (case atoi s of Some v \<Rightarrow> v | None \<Rightarrow> defaultSize))"

definition nanos_per_day :: int where
  "nanos_per_day = 24 * 60 * 60 * 10 ^ 9"

text \<open>
  \<open>parseDuration\<close>. \<open>scaled\<close> rounds toward zero, so a negative day count is recognised by
  \<open>negative\<close>, the comparison \<open>value < 0\<close> of the parsed float.
\<close>

definition parseDuration ::
  "(string \<Rightarrow> int \<Rightarrow> int option) \<Rightarrow> (string \<Rightarrow> bool) \<Rightarrow> (string \<Rightarrow> int option) \<Rightarrow>
   string \<Rightarrow> int result" where
  "parseDuration scaled negative go_duration s0 =
     (let s = trim_space s0 in
      if s = [] then Inl ''empty duration''
      else if suffix ''d'' s then
        let days = take (length s - 1) s in
        (case scaled days nanos_per_day of
           None \<Rightarrow> Inl (''invalid duration '' @ s)
         | Some v \<Rightarrow> if negative days then Inl (''negative duration '' @ s) else Inr v)
      else
        (case go_duration s of
           None \<Rightarrow> Inl (''invalid duration '' @ s)
         | Some v \<Rightarrow> if v < 0 then Inl (''negative duration '' @ s) else Inr v))"

definition durationEnv ::
  "(string \<Rightarrow> int \<Rightarrow> int option) \<Rightarrow> (string \<Rightarrow> bool) \<Rightarrow> (string \<Rightarrow> int option) \<Rightarrow>
   (string \<Rightarrow> string) \<Rightarrow> string \<Rightarrow> int \<Rightarrow> int result" where
  "durationEnv scaled negative go_duration getenv name fallback =
     (let raw = trim_space (getenv name) in
      if raw = [] then Inr fallback
      else (case parseDuration scaled negative go_duration raw of
              Inl e \<Rightarrow> Inl (''invalid '' @ name @ '': '' @ e)
            | Inr v \<Rightarrow> Inr v))"

section \<open>Printing and reading integers\<close>

lemma digit_char: "d < 10 \<Longrightarrow> digit (char_of (48 + d)) = Some d"
proof -
  assume "d < (10::nat)"
  then have "d \<in> set [0..<10]" by simp
  moreover have "\<forall>d \<in> set [0..<10]. digit (char_of (48 + d)) = Some d" by code_simp
  ultimately show ?thesis by blast
qed

lemma digits_value_append:
  "digits_value acc (s @ t) = (case digits_value acc s of None \<Rightarrow> None | Some n \<Rightarrow> digits_value n t)"
  by (induction s arbitrary: acc) (auto split: option.splits)

lemma digits_value_show: "digits_value 0 (show_nat n) = Some n"
proof (induction n rule: less_induct)
  case (less n)
  show ?case
  proof (cases "n < 10")
    case True
    then show ?thesis by (simp add: show_nat.simps [of n] digit_char)
  next
    case False
    with less [of "n div 10"] show ?thesis
      by (simp add: show_nat.simps [of n] digits_value_append digit_char)
  qed
qed

lemma show_nat_head: "\<exists>d ds. show_nat n = d # ds \<and> digit d \<noteq> None"
proof (induction n rule: less_induct)
  case (less n)
  show ?case
  proof (cases "n < 10")
    case True
    then show ?thesis by (simp add: show_nat.simps [of n] digit_char)
  next
    case False
    with less [of "n div 10"] show ?thesis by (auto simp: show_nat.simps [of n])
  qed
qed

lemma sign_not_digit: "digit CHR ''-'' = None" "digit CHR ''+'' = None"
  by code_simp+

lemma atoi_show_int:
  assumes "in_int64 i"
  shows "atoi (show_int i) = Some i"
proof -
  obtain d ds where d: "show_nat (nat i) = d # ds" "digit d \<noteq> None"
    using show_nat_head by blast
  with sign_not_digit have "d \<noteq> CHR ''-''" "d \<noteq> CHR ''+''" by auto
  moreover have "show_nat n \<noteq> []" for n using show_nat_head by (metis list.distinct(1))
  moreover have "digits_value 0 (d # ds) = Some (nat i)" using d digits_value_show by metis
  ultimately show ?thesis
    using assms d by (auto simp: atoi_def show_int_def digits_value_show)
qed

text \<open>No value ends in two of the units, so the order in which the map is iterated is immaterial.\<close>

lemma suffix_last: "suffix u s \<Longrightarrow> u \<noteq> [] \<Longrightarrow> last s = last u"
  by (auto simp: suffix_def)

lemma size_units_exclusive:
  assumes "(u, m) \<in> set size_units" and "(v, n) \<in> set size_units" and "suffix u s" and "suffix v s"
  shows "u = v"
proof -
  have same: "suffix u v \<or> suffix v u"
    using assms(3,4) suffix_same_cases by blast
  have "\<forall>(u, m) \<in> set size_units. \<forall>(v, n) \<in> set size_units. suffix u v \<longrightarrow> u = v" by code_simp
  with same assms(1,2) show ?thesis by fastforce
qed

lemma parseSize_loop_find:
  "parseSize_loop scaled us s df =
     (case List.find (\<lambda>(u, m). suffix u s) us of
        None \<Rightarrow> None
      | Some (u, m) \<Rightarrow>
          Some (case scaled (take (length s - length u) s) m of Some v \<Rightarrow> v | None \<Rightarrow> df))"
  by (induction us) (auto split: option.splits)

lemma parseSize_any_order:
  assumes "set us = set size_units"
  shows "parseSize_loop scaled us s df = parseSize_loop scaled size_units s df"
proof -
  have "List.find (\<lambda>(u, m). suffix u s) us = List.find (\<lambda>(u, m). suffix u s) size_units"
  proof (cases "List.find (\<lambda>(u, m). suffix u s) size_units")
    case None
    with assms have "List.find (\<lambda>(u, m). suffix u s) us = None"
      by (simp only: find_None_all)
    with None show ?thesis by simp
  next
    case (Some p)
    then have p: "p \<in> set size_units" "suffix (fst p) s" by (auto dest: find_Some_in)
    with assms obtain q where q: "List.find (\<lambda>(u, m). suffix u s) us = Some q"
      using find_not_None [of p us "\<lambda>(u, m). suffix u s"] by (auto simp: case_prod_beta)
    then have q': "q \<in> set size_units" "suffix (fst q) s" using assms by (auto dest: find_Some_in)
    have "fst p = fst q"
      using p q' size_units_exclusive by (metis prod.collapse)
    moreover have "distinct (map fst size_units)" by code_simp
    ultimately have "p = q" using p q' distinct_map_inj by metis
    with Some q show ?thesis by simp
  qed
  then show ?thesis by (simp add: parseSize_loop_find)
qed

end
