(* ===== verification/Database.thy ===== *)
theory Database
  imports Strconv
begin

text \<open>
  The record database: the two tables of \<open>initSchema\<close> and \<open>tagsDDL\<close> and the meaning of the SQL
  statements the server issues.

  A table is the list of its rows in the order the engine scans them; every property holds for
  all such lists. The connection carries, beside the tables, what the code reads from outside:
  \<open>faults\<close> is the script of failures (the n-th statement, transaction boundary or random read
  fails with the n-th message if there is one), \<open>entropy\<close> the bytes of \<open>crypto/rand\<close> and \<open>clock\<close>
  the time stamps \<open>time.Now().UTC().Format(time.RFC3339)\<close> will give. A statement that fails
  changes nothing; a transaction that does not commit is rolled back.
\<close>

section \<open>Tables\<close>

record FileRecord =
  Slug :: string
  DisplayName :: string
  StorageKey :: string
  Size :: int
  Modified :: string
  MimeType :: string
  Deleted :: bool
  Pending :: bool

record TagRow =
  tag_name :: string
  tag_suffix :: string
  tag_slug :: string
  tag_created :: string

record tables =
  files :: "FileRecord list"
  tags :: "TagRow list"

record dbconn =
  db :: tables
  faults :: "string option list"
  entropy :: "nat \<Rightarrow> char"
  clock :: "nat \<Rightarrow> string"

definition live :: "FileRecord \<Rightarrow> bool" where
  "live r \<longleftrightarrow> \<not> Deleted r \<and> \<not> Pending r"

definition tag_key :: "TagRow \<Rightarrow> string \<times> string" where
  "tag_key t = (tag_name t, tag_suffix t)"

definition slugs :: "tables \<Rightarrow> string list" where
  "slugs d = map Slug (files d)"

section \<open>Running statements\<close>

definition take_fault :: "dbconn \<Rightarrow> string option \<times> dbconn" where
  "take_fault c = (case faults c of [] \<Rightarrow> (None, c) | f # fs \<Rightarrow> (f, c\<lparr>faults := fs\<rparr>))"

definition sql :: "(tables \<Rightarrow> 'a result \<times> tables) \<Rightarrow> dbconn \<Rightarrow> 'a result \<times> dbconn" where
  "sql stmt c =
     (case take_fault c of
        (Some e, c1) \<Rightarrow> (Inl e, c1)
      | (None, c1) \<Rightarrow> (case stmt (db c1) of (r, d) \<Rightarrow> (r, c1\<lparr>db := d\<rparr>)))"

definition query :: "(tables \<Rightarrow> 'a) \<Rightarrow> dbconn \<Rightarrow> 'a result \<times> dbconn" where
  "query q = sql (\<lambda>d. (Inr (q d), d))"

definition execute :: "(tables \<Rightarrow> tables) \<Rightarrow> dbconn \<Rightarrow> unit result \<times> dbconn" where
  "execute u = sql (\<lambda>d. (Inr (), u d))"

text \<open>How the body of a transaction ends: with an error, a rollback or a commit.\<close>

datatype 'a tx_end = TxError string | TxRollback 'a | TxCommit 'a

definition in_tx :: "(dbconn \<Rightarrow> 'a tx_end \<times> dbconn) \<Rightarrow> dbconn \<Rightarrow> 'a result \<times> dbconn" where
  "in_tx body c =
     (case query (\<lambda>_. ()) c of
        (Inl e, c1) \<Rightarrow> (Inl e, c1)
      | (Inr _, c1) \<Rightarrow>
          (case body c1 of
             (TxError e, c2) \<Rightarrow> (Inl e, c2\<lparr>db := db c1\<rparr>)
           | (TxRollback x, c2) \<Rightarrow> (Inr x, c2\<lparr>db := db c1\<rparr>)
           | (TxCommit x, c2) \<Rightarrow>
               (case query (\<lambda>_. ()) c2 of
                  (Inl e, c3) \<Rightarrow> (Inl e, c3\<lparr>db := db c1\<rparr>)
                | (Inr _, c3) \<Rightarrow> (Inr x, c3))))"

definition time_now :: "dbconn \<Rightarrow> string \<times> dbconn" where
  "time_now c = (clock c 0, c\<lparr>clock := \<lambda>i. clock c (Suc i)\<rparr>)"

definition rand_read :: "nat \<Rightarrow> dbconn \<Rightarrow> bytes result \<times> dbconn" where
  "rand_read n c =
     (case take_fault c of
        (Some e, c1) \<Rightarrow> (Inl e, c1)
      | (None, c1) \<Rightarrow> (Inr (map (entropy c1) [0..<n]), c1\<lparr>entropy := \<lambda>i. entropy c1 (i + n)\<rparr>))"

section \<open>Row updates\<close>

definition update_file :: "string \<Rightarrow> (FileRecord \<Rightarrow> FileRecord) \<Rightarrow> tables \<Rightarrow> tables" where
  "update_file slug f d = d\<lparr>files := map (\<lambda>r. if Slug r = slug then f r else r) (files d)\<rparr>"

text \<open>\<open>INSERT INTO files\<close>: the primary key refuses a slug that is taken.\<close>

definition insert_file :: "FileRecord \<Rightarrow> tables \<Rightarrow> unit result \<times> tables" where
  "insert_file rec d =
     (if Slug rec \<in> set (slugs d)
      then (Inl ''constraint failed: UNIQUE constraint failed: files.slug (1555)'', d)
      else (Inr (), d\<lparr>files := files d @ [rec]\<rparr>))"

text \<open>\<open>INSERT INTO tags ... ON CONFLICT DO UPDATE\<close>, with the foreign key enforced.\<close>

definition put_tag :: "string \<times> string \<Rightarrow> string \<Rightarrow> string \<Rightarrow> tables \<Rightarrow> tables" where
  "put_tag key slug now d =
     d\<lparr>tags :=
        (if key \<in> tag_key ` set (tags d)
         then map (\<lambda>t. if tag_key t = key then t\<lparr>tag_slug := slug, tag_created := now\<rparr> else t) (tags d)
         else tags d @ [\<lparr>tag_name = fst key, tag_suffix = snd key, tag_slug = slug, tag_created = now\<rparr>])\<rparr>"

definition upsert_tag :: "string \<times> string \<Rightarrow> string \<Rightarrow> string \<Rightarrow> tables \<Rightarrow> unit result \<times> tables" where
  "upsert_tag key slug now d =
     (if slug \<in> set (slugs d) then (Inr (), put_tag key slug now d)
      else (Inl ''constraint failed: FOREIGN KEY constraint failed (787)'', d))"

definition delete_tags :: "(TagRow \<Rightarrow> bool) \<Rightarrow> tables \<Rightarrow> tables" where
  "delete_tags p d = d\<lparr>tags := filter (\<lambda>t. \<not> p t) (tags d)\<rparr>"

section \<open>Pattern matching\<close>

text \<open>
  \<open>LIKE ... ESCAPE '\'\<close>: ASCII letters match without regard to case, \<open>%\<close> matches any
  sequence, \<open>_\<close> one UTF-8 character, and a byte after the escape matches itself.
\<close>

definition skip_rune :: "char \<Rightarrow> string \<Rightarrow> string" where
  "skip_rune c t =
     (if CHR 0xC0 \<le> c then dropWhile (\<lambda>x. CHR 0x80 \<le> x \<and> x < CHR 0xC0) t else t)"

lemma skip_rune_length: "length (skip_rune c t) \<le> length t"
  by (simp add: skip_rune_def length_dropWhile_le)

function like :: "string \<Rightarrow> string \<Rightarrow> bool" where
  "like [] t = (t = [])"
| "like (x # p) [] = (x = CHR ''%'' \<and> like p [])"
| "like (x # p) (c # t) =
     (if x = CHR ''%'' then like p (c # t) \<or> like (x # p) t
      else if x = CHR 0x5C then
        (case p of [] \<Rightarrow> False | y # p' \<Rightarrow> lower_char c = lower_char y \<and> like p' t)
      else if x = CHR ''_'' then like p (skip_rune c t)
      else lower_char c = lower_char x \<and> like p t)"
  by pat_completeness auto
termination
  by (relation "measure (\<lambda>(p, t). length p + length t)")
    (auto intro: le_imp_less_Suc le_trans [OF skip_rune_length] simp: less_Suc_eq_le
      add_le_mono skip_rune_length)

section \<open>Ordering\<close>

definition sort_desc :: "('a \<Rightarrow> 'b :: linorder) \<Rightarrow> 'a list \<Rightarrow> 'a list" where
  "sort_desc f xs = rev (sort_key f (rev xs))"

definition window :: "nat \<Rightarrow> nat \<Rightarrow> 'a list \<Rightarrow> 'a list" where
  "window offset limit xs = take limit (drop offset xs)"

lemma set_sort_desc: "set (sort_desc f xs) = set xs"
  by (simp add: sort_desc_def)

lemma sort_desc_sorted: "sorted_wrt (\<lambda>x y. f x \<ge> f y) (sort_desc f xs)"
proof -
  have "sorted (map f (sort_key f (rev xs)))" by simp
  then have "sorted_wrt (\<lambda>x y. f x \<le> f y) (sort_key f (rev xs))" by (simp add: sorted_map)
  then show ?thesis by (simp add: sort_desc_def sorted_wrt_rev)
qed

end
