(* ===== verification/TagName.thy ===== *)
theory TagName
  imports GoText
begin

text \<open>
  The tag syntax of \<open>server/tag.go\<close>: the \<open>Tag\<close> struct, \<open>parseTag\<close>, \<open>parseTagList\<close> and the
  three validity checks. The errors are a datatype with one constructor per \<open>errors.New\<close> or
  \<open>fmt.Errorf\<close> of the source, holding the text the message quotes.
\<close>

section \<open>Constants and data\<close>

definition tagSeparator :: char where "tagSeparator = CHR '':''"
definition defaultTagSuffix :: string where "defaultTagSuffix = ''latest''"
definition maxTagLength :: nat where "maxTagLength = 255"
definition maxTagFieldSize :: nat where "maxTagFieldSize = 4096"

record Tag =
  Name :: string
  Suffix :: string

datatype tag_error =
    TagEmpty
  | TagBadName string
  | TagBadSuffix string
  | TagTooLong string

definition Tag_String :: "Tag \<Rightarrow> string" where
  "Tag_String t = Name t @ tagSeparator # Suffix t"

section \<open>Validity\<close>

text \<open>The byte classes of \<open>isTagChars\<close>: letters, digits, \<open>_\<close>, \<open>-\<close>, \<open>.\<close>, and \<open>/\<close> when allowed.\<close>

definition isTagChar :: "bool \<Rightarrow> char \<Rightarrow> bool" where
  "isTagChar allowSlash c \<longleftrightarrow>
     (CHR ''a'' \<le> c \<and> c \<le> CHR ''z'') \<or> (CHR ''A'' \<le> c \<and> c \<le> CHR ''Z'')
     \<or> (CHR ''0'' \<le> c \<and> c \<le> CHR ''9'')
     \<or> c = CHR ''_'' \<or> c = CHR ''-'' \<or> c = CHR ''.''
     \<or> (c = CHR ''/'' \<and> allowSlash)"

fun isTagChars :: "string \<Rightarrow> bool \<Rightarrow> bool" where
  "isTagChars [] allowSlash = True"
| "isTagChars (c # cs) allowSlash = (if isTagChar allowSlash c then isTagChars cs allowSlash else False)"

definition isValidTagName :: "string \<Rightarrow> bool" where
  "isValidTagName name =
     (if name = [] \<or> prefix ''/'' name \<or> suffix ''/'' name then False
      else if \<exists>segment \<in> set (split_on CHR ''/'' name).
                segment = [] \<or> segment = ''.'' \<or> segment = ''..'' then False
      else isTagChars name True)"

definition isValidTagSuffix :: "string \<Rightarrow> bool" where
  "isValidTagSuffix sfx \<longleftrightarrow> sfx \<noteq> [] \<and> isTagChars sfx False"

section \<open>Parsing\<close>

definition parseTag :: "string \<Rightarrow> tag_error + Tag" where
  "parseTag raw =
     (let value = trim_space raw in
      if value = [] then Inl TagEmpty
      else
        let (name, sfx) =
              (case last_index tagSeparator value of
                 Some idx \<Rightarrow> (take idx value, drop (idx + 1) value)
               | None \<Rightarrow> (value, defaultTagSuffix))
        in if \<not> isValidTagName name then Inl (TagBadName name)
           else if \<not> isValidTagSuffix sfx then Inl (TagBadSuffix sfx)
           else if length name + length sfx + 1 > maxTagLength then Inl (TagTooLong value)
           else Inr \<lparr>Name = name, Suffix = sfx\<rparr>)"

text \<open>
  The loop of \<open>parseTagList\<close>: \<open>seen\<close> holds the canonical strings already taken and \<open>tags\<close> the
  result so far.
\<close>

fun parseTagList_loop :: "string list \<Rightarrow> string list \<Rightarrow> Tag list \<Rightarrow> tag_error + Tag list" where
  "parseTagList_loop [] seen tags = Inr tags"
| "parseTagList_loop (item # items) seen tags =
     (case parseTag item of
        Inl e \<Rightarrow> Inl e
      | Inr tag \<Rightarrow>
          let key = Tag_String tag in
          if key \<in> set seen then parseTagList_loop items seen tags
          else parseTagList_loop items (key # seen) (tags @ [tag]))"

definition parseTagList :: "string list \<Rightarrow> tag_error + Tag list" where
  "parseTagList raw = parseTagList_loop raw [] []"

section \<open>What a parsed tag is\<close>

definition valid_tag :: "Tag \<Rightarrow> bool" where
  "valid_tag t \<longleftrightarrow> isValidTagName (Name t) \<and> isValidTagSuffix (Suffix t)
     \<and> length (Tag_String t) \<le> maxTagLength"

lemma isTagChars_all: "isTagChars s b \<longleftrightarrow> (\<forall>c \<in> set s. isTagChar b c)"
  by (induction s) auto

lemma isTagChar_not_colon: "\<not> isTagChar b tagSeparator"
  by (simp add: isTagChar_def tagSeparator_def less_eq_char_def)

lemma isTagChar_not_space: "isTagChar b c \<Longrightarrow> \<not> space_byte c"
  by (auto simp: space_byte_def space_runes_def isTagChar_def less_eq_char_def)

lemma tagSeparator_not_space: "\<not> space_byte tagSeparator"
  by (simp add: space_byte_def space_runes_def tagSeparator_def)

lemma valid_name_chars: "isValidTagName n \<Longrightarrow> isTagChars n True"
  by (simp add: isValidTagName_def split: if_splits)

lemma valid_suffix_chars: "isValidTagSuffix s \<Longrightarrow> isTagChars s False"
  by (simp add: isValidTagSuffix_def)

lemma valid_suffix_no_sep: "isValidTagSuffix s \<Longrightarrow> tagSeparator \<notin> set s"
  using valid_suffix_chars isTagChar_not_colon by (auto simp: isTagChars_all)

lemma valid_tag_no_space:
  assumes "valid_tag t"
  shows "\<forall>c \<in> set (Tag_String t). \<not> space_byte c"
  using assms valid_name_chars [of "Name t"] valid_suffix_chars [of "Suffix t"]
    tagSeparator_not_space
  by (auto simp: valid_tag_def Tag_String_def isTagChars_all dest: isTagChar_not_space)

lemma trim_tag_string: "valid_tag t \<Longrightarrow> trim_space (Tag_String t) = Tag_String t"
  by (rule trim_space_id) (rule valid_tag_no_space)

lemma last_index_tag_string:
  "valid_tag t \<Longrightarrow> last_index tagSeparator (Tag_String t) = Some (length (Name t))"
  by (simp add: Tag_String_def valid_tag_def last_index_append valid_suffix_no_sep)

text \<open>Parsing the canonical form of a well-formed tag gives the tag back.\<close>

theorem parseTag_roundtrip:
  assumes "valid_tag t"
  shows "parseTag (Tag_String t) = Inr t"
proof -
  have "Tag_String t \<noteq> []" by (simp add: Tag_String_def)
  moreover have "take (length (Name t)) (Tag_String t) = Name t"
    and "drop (length (Name t) + 1) (Tag_String t) = Suffix t"
    by (simp_all add: Tag_String_def)
  moreover have "\<not> length (Name t) + length (Suffix t) + 1 > maxTagLength"
    using assms by (simp add: valid_tag_def Tag_String_def)
  ultimately show ?thesis
    using assms
    by (simp add: parseTag_def trim_tag_string last_index_tag_string valid_tag_def)
qed

theorem parseTag_valid:
  assumes "parseTag raw = Inr t"
  shows "valid_tag t"
proof -
  obtain n s where
    ns: "(case last_index tagSeparator (trim_space raw) of
            Some idx \<Rightarrow> (take idx (trim_space raw), drop (idx + 1) (trim_space raw))
          | None \<Rightarrow> (trim_space raw, defaultTagSuffix)) = (n, s)"
    by (rule prod.exhaust)
  have "isValidTagName n \<and> isValidTagSuffix s \<and> length n + length s + 1 \<le> maxTagLength
      \<and> t = \<lparr>Name = n, Suffix = s\<rparr>"
    using assms unfolding parseTag_def Let_def ns prod.case
    by (simp only: not_le split: if_splits) simp_all
  then show ?thesis by (simp add: valid_tag_def Tag_String_def)
qed

lemma Tag_String_inj: "valid_tag t \<Longrightarrow> valid_tag u \<Longrightarrow> Tag_String t = Tag_String u \<Longrightarrow> t = u"
  using parseTag_roundtrip by (metis sum.inject(2))

section \<open>Lists of tags\<close>

text \<open>The reference for the loop: keep the first occurrence of every element.\<close>

fun first_occurrences :: "'a list \<Rightarrow> 'a list \<Rightarrow> 'a list" where
  "first_occurrences seen [] = []"
| "first_occurrences seen (x # xs) =
     (if x \<in> set seen then first_occurrences seen xs
      else x # first_occurrences (x # seen) xs)"

fun parse_all :: "string list \<Rightarrow> tag_error + Tag list" where
  "parse_all [] = Inr []"
| "parse_all (x # xs) =
     (case parseTag x of Inl e \<Rightarrow> Inl e
      | Inr t \<Rightarrow> (case parse_all xs of Inl e \<Rightarrow> Inl e | Inr ts \<Rightarrow> Inr (t # ts)))"

lemma first_occurrences_set: "set (first_occurrences seen xs) = set xs - set seen"
  by (induction seen xs rule: first_occurrences.induct) auto

lemma first_occurrences_distinct: "distinct (first_occurrences seen xs)"
  by (induction seen xs rule: first_occurrences.induct) (auto simp: first_occurrences_set)

lemma parse_all_valid: "parse_all raw = Inr ts \<Longrightarrow> t \<in> set ts \<Longrightarrow> valid_tag t"
  by (induction raw arbitrary: ts) (auto split: sum.splits dest: parseTag_valid)

lemma parseTagList_loop_eq:
  "set seen = Tag_String ` set seen_tags \<Longrightarrow> \<forall>t \<in> set seen_tags. valid_tag t \<Longrightarrow>
   parseTagList_loop raw seen tags =
     (case parse_all raw of Inl e \<Rightarrow> Inl e
      | Inr ts \<Rightarrow> Inr (tags @ first_occurrences seen_tags ts))"
proof (induction raw arbitrary: seen seen_tags tags)
  case Nil
  then show ?case by simp
next
  case (Cons item items)
  show ?case
  proof (cases "parseTag item")
    case (Inl e)
    then show ?thesis by simp
  next
    case (Inr tag)
    then have tag: "valid_tag tag" by (rule parseTag_valid)
    have seen_iff: "Tag_String tag \<in> set seen \<longleftrightarrow> tag \<in> set seen_tags"
      using Cons.prems tag by (auto dest: Tag_String_inj)
    show ?thesis
    proof (cases "tag \<in> set seen_tags")
      case True
      with Inr seen_iff show ?thesis
        by (simp add: Cons.IH [OF Cons.prems] split: sum.split)
    next
      case False
      have *: "set (Tag_String tag # seen) = Tag_String ` set (tag # seen_tags)"
        "\<forall>t \<in> set (tag # seen_tags). valid_tag t"
        using Cons.prems tag by auto
      show ?thesis
        using Inr False seen_iff
        by (simp add: Cons.IH [OF *] Let_def split: sum.split)
    qed
  qed
qed

theorem parseTagList_spec:
  "parseTagList raw =
     (case parse_all raw of Inl e \<Rightarrow> Inl e | Inr ts \<Rightarrow> Inr (first_occurrences [] ts))"
  using parseTagList_loop_eq [of "[]" "[]" raw "[]"] by (simp add: parseTagList_def split: sum.splits)

lemma parseTagList_distinct: "parseTagList raw = Inr ts \<Longrightarrow> distinct ts"
  by (auto simp: parseTagList_spec first_occurrences_distinct split: sum.splits)

lemma parseTagList_valid: "parseTagList raw = Inr ts \<Longrightarrow> t \<in> set ts \<Longrightarrow> valid_tag t"
  by (auto simp: parseTagList_spec first_occurrences_set split: sum.splits dest: parse_all_valid)

end
