(* ===== verification/TagRows.thy ===== *)
theory TagRows
  imports Database TagName "HOL-Library.AList"
begin

text \<open>
  The tag table operations of \<open>server/tag.go\<close>, in the order of the source. An operation that the
  code runs on a transaction and one it runs on the bare handle are the same function here; a
  transaction is the combinator \<open>in_tx\<close> around its statements.
\<close>

record TagInfo =
  ti_Name :: string
  ti_Suffix :: string
  ti_Tag :: string
  ti_Slug :: string
  ti_URL :: string
  ti_FileName :: string
  ti_Created :: string

definition key_of :: "Tag \<Rightarrow> string \<times> string" where
  "key_of t = (Name t, Suffix t)"

definition canonical :: "string \<times> string \<Rightarrow> string" where
  "canonical k = fst k @ tagSeparator # snd k"

section \<open>Single statements\<close>

definition liveSlugExists :: "string \<Rightarrow> dbconn \<Rightarrow> bool result \<times> dbconn" where
  "liveSlugExists slug = query (\<lambda>d. \<exists>r \<in> set (files d). Slug r = slug \<and> live r)"

definition upsertTag :: "Tag \<Rightarrow> string \<Rightarrow> string \<Rightarrow> dbconn \<Rightarrow> unit result \<times> dbconn" where
  "upsertTag tag slug now = sql (upsert_tag (key_of tag) slug now)"

text \<open>The empty string stands for an unused tag, as in the code.\<close>

definition owner_of :: "tables \<Rightarrow> string \<times> string \<Rightarrow> string" where
  "owner_of d key =
     (case List.find (\<lambda>t. tag_key t = key) (tags d) of Some t \<Rightarrow> tag_slug t | None \<Rightarrow> [])"

definition tagOwner :: "Tag \<Rightarrow> dbconn \<Rightarrow> string result \<times> dbconn" where
  "tagOwner tag = query (\<lambda>d. owner_of d (key_of tag))"

definition tag_names :: "tables \<Rightarrow> string \<Rightarrow> string list" where
  "tag_names d slug =
     map (\<lambda>t. canonical (tag_key t)) (sort_key tag_key (filter (\<lambda>t. tag_slug t = slug) (tags d)))"

definition tagsOfSlug :: "string \<Rightarrow> dbconn \<Rightarrow> string list result \<times> dbconn" where
  "tagsOfSlug slug = query (\<lambda>d. tag_names d slug)"

text \<open>
  \<open>tagsForSlugs\<close>: one query for a page of slugs, whose rows are appended to the slot of their
  slug. No query is made for an empty page.
\<close>

fun group_rows :: "TagRow list \<Rightarrow> (string \<Rightarrow> string list) \<Rightarrow> string \<Rightarrow> string list" where
  "group_rows [] m = m"
| "group_rows (t # ts) m =
     group_rows ts (m(tag_slug t := m (tag_slug t) @ [canonical (tag_key t)]))"

definition tagsForSlugs :: "string list \<Rightarrow> dbconn \<Rightarrow> (string \<Rightarrow> string list) result \<times> dbconn" where
  "tagsForSlugs page c =
     (if page = [] then (Inr (\<lambda>_. []), c)
      else query (\<lambda>d. group_rows
             (sort_key tag_key (filter (\<lambda>t. tag_slug t \<in> set page) (tags d))) (\<lambda>_. [])) c)"

fun tagsOwnedByAnotherFile :: "Tag list \<Rightarrow> string \<Rightarrow> dbconn \<Rightarrow> string list result \<times> dbconn" where
  "tagsOwnedByAnotherFile [] exclude c = (Inr [], c)"
| "tagsOwnedByAnotherFile (tag # rest) exclude c =
     (case tagOwner tag c of
        (Inl e, c1) \<Rightarrow> (Inl e, c1)
      | (Inr owner, c1) \<Rightarrow>
          (case tagsOwnedByAnotherFile rest exclude c1 of
             (Inl e, c2) \<Rightarrow> (Inl e, c2)
           | (Inr owners, c2) \<Rightarrow>
               (Inr (if owner \<noteq> [] \<and> owner \<noteq> exclude then owner # owners else owners), c2)))"

definition deleteTagsForSlug :: "string \<Rightarrow> dbconn \<Rightarrow> unit result \<times> dbconn" where
  "deleteTagsForSlug slug = execute (delete_tags (\<lambda>t. tag_slug t = slug))"

section \<open>Attaching and detaching\<close>

text \<open>
  The loop of \<open>addTagsToSlug\<close>; \<open>moved\<close> maps the canonical text of a tag to the slug it was
  taken from, as an association list.
\<close>

fun addTags_loop ::
  "Tag list \<Rightarrow> string \<Rightarrow> string \<Rightarrow> (string \<times> string) list \<Rightarrow> dbconn
     \<Rightarrow> (string \<times> string) list result \<times> dbconn" where
  "addTags_loop [] slug now moved c = (Inr moved, c)"
| "addTags_loop (tag # rest) slug now moved c =
     (case tagOwner tag c of
        (Inl e, c1) \<Rightarrow> (Inl e, c1)
      | (Inr previous, c1) \<Rightarrow>
          (case upsertTag tag slug now c1 of
             (Inl e, c2) \<Rightarrow> (Inl e, c2)
           | (Inr _, c2) \<Rightarrow>
               addTags_loop rest slug now
                 (if previous \<noteq> [] \<and> previous \<noteq> slug then AList.update (Tag_String tag) previous moved
                  else moved) c2))"

definition addTagsToSlug_body ::
  "string \<Rightarrow> Tag list \<Rightarrow> dbconn \<Rightarrow> (string list \<times> (string \<times> string) list) tx_end \<times> dbconn" where
  "addTagsToSlug_body slug ts c =
     (case time_now c of (now, c0) \<Rightarrow>
      (case addTags_loop ts slug now [] c0 of
         (Inl e, c1) \<Rightarrow> (TxError e, c1)
       | (Inr moved, c1) \<Rightarrow>
           (case tagsOfSlug slug c1 of
              (Inl e, c2) \<Rightarrow> (TxError e, c2)
            | (Inr names, c2) \<Rightarrow> (TxCommit (names, moved), c2))))"

definition addTagsToSlug ::
  "string \<Rightarrow> Tag list \<Rightarrow> dbconn \<Rightarrow> (string list \<times> (string \<times> string) list) result \<times> dbconn" where
  "addTagsToSlug slug ts = in_tx (addTagsToSlug_body slug ts)"

text \<open>The second call is \<open>RowsAffected\<close>, which has an error of its own.\<close>

definition removeTagFromSlug :: "string \<Rightarrow> Tag \<Rightarrow> dbconn \<Rightarrow> bool result \<times> dbconn" where
  "removeTagFromSlug slug tag c =
     (let hit = (\<lambda>t. tag_key t = key_of tag \<and> tag_slug t = slug) in
      case sql (\<lambda>d. (Inr (length (filter hit (tags d))), delete_tags hit d)) c of
        (Inl e, c1) \<Rightarrow> (Inl e, c1)
      | (Inr affected, c1) \<Rightarrow> query (\<lambda>_. 0 < affected) c1)"

section \<open>Finishing an upload\<close>

fun upsertAll :: "Tag list \<Rightarrow> string \<Rightarrow> string \<Rightarrow> dbconn \<Rightarrow> unit result \<times> dbconn" where
  "upsertAll [] slug now c = (Inr (), c)"
| "upsertAll (tag # rest) slug now c =
     (case upsertTag tag slug now c of
        (Inl e, c1) \<Rightarrow> (Inl e, c1)
      | (Inr _, c1) \<Rightarrow> upsertAll rest slug now c1)"

definition applyUploadTags_body ::
  "string \<Rightarrow> Tag list \<Rightarrow> string \<Rightarrow> dbconn \<Rightarrow> unit tx_end \<times> dbconn" where
  "applyUploadTags_body newSlug ts replacedSlug c =
     (case time_now c of (now, c0) \<Rightarrow>
      (case upsertAll ts newSlug now c0 of
         (Inl e, c1) \<Rightarrow> (TxError e, c1)
       | (Inr _, c1) \<Rightarrow>
           if replacedSlug \<noteq> [] then
             (case deleteTagsForSlug replacedSlug c1 of
                (Inl e, c2) \<Rightarrow> (TxError e, c2)
              | (Inr _, c2) \<Rightarrow>
                  (case execute (update_file replacedSlug (\<lambda>r. r\<lparr>Deleted := True\<rparr>)) c2 of
                     (Inl e, c3) \<Rightarrow> (TxError e, c3)
                   | (Inr _, c3) \<Rightarrow> (TxCommit (), c3)))
           else (TxCommit (), c1)))"

definition applyUploadTags ::
  "string \<Rightarrow> Tag list \<Rightarrow> string \<Rightarrow> dbconn \<Rightarrow> unit result \<times> dbconn" where
  "applyUploadTags newSlug ts replacedSlug c =
     (if ts = [] \<and> replacedSlug = [] then (Inr (), c)
      else in_tx (applyUploadTags_body newSlug ts replacedSlug) c)"

section \<open>Resolving and listing\<close>

text \<open>The sub-select gives NULL for an unknown tag, which equals no slug.\<close>

definition record_by_tag :: "string \<times> string \<Rightarrow> tables \<Rightarrow> FileRecord option" where
  "record_by_tag key d =
     (case List.find (\<lambda>t. tag_key t = key) (tags d) of
        None \<Rightarrow> None
      | Some t \<Rightarrow> List.find (\<lambda>r. Slug r = tag_slug t \<and> live r) (files d))"

definition liveRecordByTag :: "string \<Rightarrow> string \<Rightarrow> dbconn \<Rightarrow> FileRecord option result \<times> dbconn" where
  "liveRecordByTag name sfx = query (record_by_tag (name, sfx))"

definition replace_all :: "char \<Rightarrow> string \<Rightarrow> string \<Rightarrow> string" where
  "replace_all c w s = concat (map (\<lambda>x. if x = c then w else [x]) s)"

definition escapeLikePattern :: "string \<Rightarrow> string" where
  "escapeLikePattern s =
     replace_all CHR ''_'' [CHR 0x5C, CHR ''_'']
       (replace_all CHR ''%'' [CHR 0x5C, CHR ''%'']
         (replace_all CHR 0x5C [CHR 0x5C, CHR 0x5C] s))"

definition contains_pattern :: "string \<Rightarrow> string" where
  "contains_pattern search = CHR ''%'' # escapeLikePattern search @ ''%''"

definition tag_info :: "TagRow \<Rightarrow> FileRecord \<Rightarrow> TagInfo" where
  "tag_info t f =
     \<lparr>ti_Name = tag_name t, ti_Suffix = tag_suffix t, ti_Tag = canonical (tag_key t),
      ti_Slug = tag_slug t, ti_URL = ''/t/'' @ canonical (tag_key t),
      ti_FileName = DisplayName f, ti_Created = tag_created t\<rparr>"

definition all_tags :: "string \<Rightarrow> tables \<Rightarrow> TagInfo list" where
  "all_tags search d =
     map (\<lambda>(t, f). tag_info t f)
       (sort_key (\<lambda>(t, f). tag_key t)
         (filter (\<lambda>(t, f). live f \<and> (search = [] \<or>
              like (contains_pattern search) (tag_name t) \<or> like (contains_pattern search) (tag_suffix t)))
           (concat (map (\<lambda>t. map (Pair t) (filter (\<lambda>f. Slug f = tag_slug t) (files d))) (tags d)))))"

definition listAllTags :: "nat \<Rightarrow> nat \<Rightarrow> string \<Rightarrow> dbconn \<Rightarrow> TagInfo list result \<times> dbconn" where
  "listAllTags offset limit search = query (\<lambda>d. window offset limit (all_tags search d))"

end
