(* ===== verification/ShortLink.thy ===== *)
theory ShortLink
  imports TagRows
begin

text \<open>
  The record operations of \<open>server/shortlink.go\<close>: slugs and storage keys, reserving, finalizing,
  aborting and soft-deleting a file record, and the listing queries.
\<close>

section \<open>Slugs\<close>

definition shortSlugCharset :: string where
  "shortSlugCharset = ''ABCDEFGHIJKLMNOPQRSTUVWXYZabcdefghijklmnopqrstuvwxyz0123456789''"

definition shortSlugMinLen :: nat where "shortSlugMinLen = 5"
definition shortSlugMaxLen :: nat where "shortSlugMaxLen = 12"
definition shortSlugAttemptsPerLen :: nat where "shortSlugAttemptsPerLen = 10"

definition storageKeyForSlug :: "string \<Rightarrow> string" where
  "storageKeyForSlug slug = take 2 slug @ CHR ''/'' # drop 2 slug"

definition slug_char :: "char \<Rightarrow> char" where
  "slug_char b = shortSlugCharset ! (of_char b mod length shortSlugCharset)"

definition randomSlug :: "nat \<Rightarrow> dbconn \<Rightarrow> string result \<times> dbconn" where
  "randomSlug len c =
     (case rand_read len c of
        (Inl e, c1) \<Rightarrow> (Inl e, c1)
      | (Inr buf, c1) \<Rightarrow> (Inr (map slug_char buf), c1))"

definition isUniqueConstraintErr :: "string \<Rightarrow> bool" where
  "isUniqueConstraintErr e = sublist ''UNIQUE constraint failed'' e"

text \<open>
  The two nested loops of \<open>insertUniqueRecord\<close>: \<open>Inr None\<close> is a length whose attempts are used
  up.
\<close>

fun insert_attempts ::
  "nat \<Rightarrow> nat \<Rightarrow> FileRecord \<Rightarrow> dbconn \<Rightarrow> FileRecord option result \<times> dbconn" where
  "insert_attempts 0 len rec c = (Inr None, c)"
| "insert_attempts (Suc n) len rec c =
     (case randomSlug len c of
        (Inl e, c1) \<Rightarrow> (Inl e, c1)
      | (Inr slug, c1) \<Rightarrow>
          let rec1 = rec\<lparr>Slug := slug, StorageKey := storageKeyForSlug slug\<rparr> in
          (case sql (insert_file rec1) c1 of
             (Inr _, c2) \<Rightarrow> (Inr (Some rec1), c2)
           | (Inl e, c2) \<Rightarrow>
               if \<not> isUniqueConstraintErr e then (Inl e, c2)
               else insert_attempts n len rec1 c2))"

fun insert_lengths :: "nat list \<Rightarrow> FileRecord \<Rightarrow> dbconn \<Rightarrow> FileRecord result \<times> dbconn" where
  "insert_lengths [] rec c = (Inl ''failed to generate a unique short link slug'', c)"
| "insert_lengths (len # lens) rec c =
     (case insert_attempts shortSlugAttemptsPerLen len rec c of
        (Inl e, c1) \<Rightarrow> (Inl e, c1)
      | (Inr (Some rec1), c1) \<Rightarrow> (Inr rec1, c1)
      | (Inr None, c1) \<Rightarrow> insert_lengths lens rec c1)"

definition insertUniqueRecord :: "FileRecord \<Rightarrow> dbconn \<Rightarrow> FileRecord result \<times> dbconn" where
  "insertUniqueRecord rec = insert_lengths [shortSlugMinLen..<Suc shortSlugMaxLen] rec"

section \<open>Lookups\<close>

datatype lookup_error = RecordNotFound | LookupErr string

definition getFileRecord :: "string \<Rightarrow> dbconn \<Rightarrow> (lookup_error + FileRecord) \<times> dbconn" where
  "getFileRecord slug c =
     (case query (\<lambda>d. List.find (\<lambda>r. Slug r = slug) (files d)) c of
        (Inl e, c1) \<Rightarrow> (Inl (LookupErr e), c1)
      | (Inr None, c1) \<Rightarrow> (Inl RecordNotFound, c1)
      | (Inr (Some rec), c1) \<Rightarrow> (Inr rec, c1))"

definition live_by_name :: "string \<Rightarrow> tables \<Rightarrow> FileRecord option" where
  "live_by_name name d = List.find (\<lambda>r. DisplayName r = name \<and> live r) (files d)"

definition findLiveRecordByName :: "string \<Rightarrow> dbconn \<Rightarrow> FileRecord option result \<times> dbconn" where
  "findLiveRecordByName name = query (live_by_name name)"

definition liveRecordByName :: "string \<Rightarrow> dbconn \<Rightarrow> FileRecord option result \<times> dbconn" where
  "liveRecordByName name = findLiveRecordByName name"

definition latest_by_name :: "string \<Rightarrow> tables \<Rightarrow> FileRecord option" where
  "latest_by_name name d =
     (case sort_desc Modified (filter (\<lambda>r. DisplayName r = name \<and> live r) (files d)) of
        [] \<Rightarrow> None | r # _ \<Rightarrow> Some r)"

definition latestLiveRecordByName :: "string \<Rightarrow> dbconn \<Rightarrow> FileRecord option result \<times> dbconn" where
  "latestLiveRecordByName name = query (latest_by_name name)"

section \<open>Listing\<close>

text \<open>The whitelisted \<open>ORDER BY\<close> clauses, as the orderings they name.\<close>

definition orderByClause :: "string \<Rightarrow> FileRecord list \<Rightarrow> FileRecord list" where
  "orderByClause order =
     (if order = ''name'' then sort_key DisplayName
      else if order = ''-name'' then sort_desc DisplayName
      else if order = ''date'' then sort_key Modified
      else if order = ''size'' then sort_key Size
      else if order = ''-size'' then sort_desc Size
      else sort_desc Modified)"

text \<open>\<open>COUNT\<close>, \<open>SUM\<close> (an error when it leaves the 64-bit range) and \<open>MAX\<close> over the live rows.\<close>

definition fileStats :: "dbconn \<Rightarrow> (int \<times> int \<times> string) result \<times> dbconn" where
  "fileStats =
     sql (\<lambda>d. let rows = filter live (files d); total = sum_list (map Size rows) in
        (if in_int64 total
         then Inr (int (length rows), total, fold max (map Modified rows) [])
         else Inl ''integer overflow'', d))"

definition matching :: "string \<Rightarrow> FileRecord list \<Rightarrow> FileRecord list" where
  "matching search rows =
     filter (\<lambda>r. live r \<and> (search = [] \<or> like (contains_pattern search) (DisplayName r))) rows"

definition listLiveRecords ::
  "nat \<Rightarrow> nat \<Rightarrow> string \<Rightarrow> string \<Rightarrow> dbconn \<Rightarrow> FileRecord list result \<times> dbconn" where
  "listLiveRecords offset limit search order =
     query (\<lambda>d. window offset limit (orderByClause order (matching search (files d))))"

section \<open>The life of an upload record\<close>

definition pending_record :: "string \<Rightarrow> string \<Rightarrow> FileRecord" where
  "pending_record displayName mimeType =
     \<lparr>Slug = [], DisplayName = displayName, StorageKey = [], Size = 0, Modified = [],
      MimeType = mimeType, Deleted = False, Pending = True\<rparr>"

definition reserveUpload_body ::
  "bool \<Rightarrow> string \<Rightarrow> string \<Rightarrow> dbconn \<Rightarrow> (FileRecord \<times> FileRecord option) tx_end \<times> dbconn" where
  "reserveUpload_body appendOnly displayName mimeType c =
     (case (if \<not> appendOnly then findLiveRecordByName displayName c else (Inr None, c)) of
        (Inl e, c1) \<Rightarrow> (TxError e, c1)
      | (Inr replaced, c1) \<Rightarrow>
          (case insertUniqueRecord (pending_record displayName mimeType) c1 of
             (Inl e, c2) \<Rightarrow> (TxError e, c2)
           | (Inr rec, c2) \<Rightarrow> (TxCommit (rec, replaced), c2)))"

definition reserveUpload ::
  "bool \<Rightarrow> string \<Rightarrow> string \<Rightarrow> dbconn \<Rightarrow> (FileRecord \<times> FileRecord option) result \<times> dbconn" where
  "reserveUpload appendOnly displayName mimeType =
     in_tx (reserveUpload_body appendOnly displayName mimeType)"

definition finalizeUpload ::
  "string \<Rightarrow> int \<Rightarrow> string \<Rightarrow> dbconn \<Rightarrow> (lookup_error + FileRecord) \<times> dbconn" where
  "finalizeUpload slug written modified c =
     (case execute (update_file slug
             (\<lambda>r. r\<lparr>Size := written, Modified := modified, Pending := False\<rparr>)) c of
        (Inl e, c1) \<Rightarrow> (Inl (LookupErr e), c1)
      | (Inr _, c1) \<Rightarrow> getFileRecord slug c1)"

definition abortUpload :: "string \<Rightarrow> dbconn \<Rightarrow> unit result \<times> dbconn" where
  "abortUpload slug c =
     (case execute (update_file slug (\<lambda>r. r\<lparr>Deleted := True, Pending := False\<rparr>)) c of
        (Inl e, c1) \<Rightarrow> (Inl e, c1)
      | (Inr _, c1) \<Rightarrow> deleteTagsForSlug slug c1)"

definition softDeleteBySlug_body :: "string \<Rightarrow> dbconn \<Rightarrow> FileRecord option tx_end \<times> dbconn" where
  "softDeleteBySlug_body slug c =
     (case query (\<lambda>d. List.find (\<lambda>r. Slug r = slug \<and> live r) (files d)) c of
        (Inl e, c1) \<Rightarrow> (TxError e, c1)
      | (Inr None, c1) \<Rightarrow> (TxRollback None, c1)
      | (Inr (Some rec), c1) \<Rightarrow>
          (case execute (update_file (Slug rec) (\<lambda>r. r\<lparr>Deleted := True\<rparr>)) c1 of
             (Inl e, c2) \<Rightarrow> (TxError e, c2)
           | (Inr _, c2) \<Rightarrow>
               (case deleteTagsForSlug (Slug rec) c2 of
                  (Inl e, c3) \<Rightarrow> (TxError e, c3)
                | (Inr _, c3) \<Rightarrow> (TxCommit (Some rec), c3))))"

definition softDeleteBySlug :: "string \<Rightarrow> dbconn \<Rightarrow> FileRecord option result \<times> dbconn" where
  "softDeleteBySlug slug = in_tx (softDeleteBySlug_body slug)"

end
