(* ===== verification/Permissions.thy ===== *)
theory Permissions
  imports GoText
begin

text \<open>
  Permissions, roles and group bindings: \<open>server/permissions.go\<close> and \<open>server/roles.go\<close>.
  A Go map that is iterated is an association list in iteration order with distinct keys;
  the lemmas show that the order does not matter. \<open>json.Unmarshal\<close> of the two environment
  variables is the parameter \<open>decode\<close>. A \<open>log.Fatalf\<close> is an error value.
\<close>

section \<open>Permissions\<close>

definition permFileCreate :: string where "permFileCreate = ''file:create''"
definition permFileDelete :: string where "permFileDelete = ''file:delete''"
definition permTagAdd :: string where "permTagAdd = ''tag:add''"
definition permTagRemove :: string where "permTagRemove = ''tag:remove''"

definition allPermissions :: "string list" where
  "allPermissions = [permFileCreate, permFileDelete, permTagAdd, permTagRemove]"

lemmas perm_defs = permFileCreate_def permFileDelete_def permTagAdd_def permTagRemove_def

fun validPermission_loop :: "string \<Rightarrow> string list \<Rightarrow> bool" where
  "validPermission_loop name [] = False"
| "validPermission_loop name (known # rest) =
     (if name = known then True else validPermission_loop name rest)"

definition validPermission :: "string \<Rightarrow> bool" where
  "validPermission name = validPermission_loop name allPermissions"

lemma validPermission_iff: "validPermission name \<longleftrightarrow> name \<in> set allPermissions"
proof -
  have "validPermission_loop name xs \<longleftrightarrow> name \<in> set xs" for xs
    by (induction xs) auto
  then show ?thesis by (simp add: validPermission_def)
qed

text \<open>\<open>permissionSet\<close>: a \<open>map[string]bool\<close> that only ever holds \<open>true\<close>.\<close>

type_synonym permissionSet = "string set"

definition permissionSetFrom :: "string list \<Rightarrow> permissionSet" where
  "permissionSetFrom names = fold insert names {}"

definition has :: "permissionSet \<Rightarrow> string \<Rightarrow> bool" where
  "has s perm \<longleftrightarrow> perm \<in> s"

definition permission_names :: "permissionSet \<Rightarrow> string list" where
  "permission_names s = sorted_list_of_set s"

lemma permissionSetFrom_set: "permissionSetFrom names = set names"
proof -
  have "fold insert names s = set names \<union> s" for s
    by (induction names arbitrary: s) auto
  then show ?thesis by (simp add: permissionSetFrom_def)
qed

text \<open>Collecting the keys in any order and sorting them gives \<open>permission_names\<close>.\<close>

lemma permission_names_any_order:
  "distinct xs \<Longrightarrow> set xs = s \<Longrightarrow> sort xs = permission_names s"
  unfolding permission_names_def
  by (rule sorted_distinct_set_unique) auto

definition listPermissions :: "string list \<Rightarrow> string" where
  "listPermissions names = (if names = [] then ''none'' else join_with '', '' names)"

fun parsePermissionList_loop ::
  "string list \<Rightarrow> permissionSet \<Rightarrow> string list \<Rightarrow> string + string list" where
  "parsePermissionList_loop [] seen perms = Inr (sort perms)"
| "parsePermissionList_loop (raw # rest) seen perms =
     (let name = trim_space raw in
      if name = [] then parsePermissionList_loop rest seen perms
      else if \<not> validPermission name then Inl name
      else if has seen name then parsePermissionList_loop rest seen perms
      else parsePermissionList_loop rest (insert name seen) (perms @ [name]))"

text \<open>The error of \<open>parsePermissionList\<close> is represented by the unknown name it quotes.\<close>

definition parsePermissionList :: "string \<Rightarrow> string + string list" where
  "parsePermissionList raw =
     (if trim_space raw = [] then Inr []
      else parsePermissionList_loop (split_on CHR '','' raw) {} [])"

definition listed_names :: "string \<Rightarrow> string list" where
  "listed_names raw = filter (\<lambda>n. n \<noteq> []) (map trim_space (split_on CHR '','' raw))"

lemma parsePermissionList_loop_ok:
  "parsePermissionList_loop xs seen perms = Inr ps \<Longrightarrow> seen = set perms \<Longrightarrow> distinct perms \<Longrightarrow>
   set perms \<subseteq> set allPermissions \<Longrightarrow>
   sorted ps \<and> distinct ps
   \<and> set ps = set perms \<union> set (filter (\<lambda>n. n \<noteq> []) (map trim_space xs))
   \<and> set ps \<subseteq> set allPermissions"
proof (induction xs seen perms rule: parsePermissionList_loop.induct)
  case (1 seen perms)
  then show ?case by auto
next
  case (2 raw rest seen perms)
  let ?n = "trim_space raw"
  consider "?n = []" | "?n \<noteq> []" "validPermission ?n" "has seen ?n"
    | "?n \<noteq> []" "validPermission ?n" "\<not> has seen ?n"
    using "2.prems"(1) by (auto simp: Let_def split: if_splits)
  then show ?case
  proof cases
    case 1
    with "2.IH"(1) [OF refl] "2.prems" show ?thesis by (auto simp: Let_def)
  next
    case 2
    with "2.prems" have "parsePermissionList_loop rest seen perms = Inr ps"
      by (simp add: Let_def)
    moreover have "?n \<in> set perms" using 2 "2.prems" by (simp add: has_def)
    ultimately show ?thesis
      using 2 "2.IH"(2) [OF refl 2(1)] "2.prems" by auto
  next
    case 3
    with "2.prems" have "parsePermissionList_loop rest (insert ?n seen) (perms @ [?n]) = Inr ps"
      by (simp add: Let_def)
    then show ?thesis
      using 3 "2.IH"(3) [OF refl 3(1)] "2.prems" by (auto simp: has_def validPermission_iff)
  qed
qed

lemma parsePermissionList_loop_err:
  "parsePermissionList_loop xs seen perms = Inl n \<Longrightarrow>
   n \<in> set (filter (\<lambda>n. n \<noteq> []) (map trim_space xs)) \<and> n \<notin> set allPermissions"
  by (induction xs seen perms rule: parsePermissionList_loop.induct)
    (auto simp: Let_def validPermission_iff split: if_splits)

lemma listed_names_blank:
  assumes "trim_space raw = []"
  shows "listed_names raw = []"
proof -
  have "\<not> space_byte CHR '','' " by (simp add: space_byte_def space_runes_def)
  with assms have "CHR '','' \<notin> set raw" using trim_space_keeps by fastforce
  with assms show ?thesis by (simp add: listed_names_def split_on_absent)
qed

theorem parsePermissionList_ok:
  assumes "parsePermissionList raw = Inr ps"
  shows "sorted ps \<and> distinct ps \<and> set ps = set (listed_names raw) \<and> set ps \<subseteq> set allPermissions"
proof (cases "trim_space raw = []")
  case True
  with assms listed_names_blank show ?thesis by (simp add: parsePermissionList_def)
next
  case False
  with assms have "parsePermissionList_loop (split_on CHR '','' raw) {} [] = Inr ps"
    by (simp add: parsePermissionList_def)
  from parsePermissionList_loop_ok [OF this] show ?thesis by (auto simp: listed_names_def)
qed

lemma parsePermissionList_err:
  "parsePermissionList raw = Inl n \<Longrightarrow> n \<in> set (listed_names raw) \<and> n \<notin> set allPermissions"
  unfolding parsePermissionList_def listed_names_def
  by (auto split: if_splits dest: parsePermissionList_loop_err)

end
