(* ===== verification/Roles.thy ===== *)
theory Roles
  imports Permissions
begin

text \<open>
  Roles and OIDC group bindings: \<open>server/roles.go\<close>. The registry and the bindings are Go maps;
  where the code iterates over one, the association list stands for the iteration order.
\<close>

section \<open>Data\<close>

type_synonym roleRegistry = "(string \<times> string list) list"
type_synonym groupBindings = "(string \<times> string list) list"

definition roleCreator :: string where "roleCreator = ''creator''"
definition roleTagger :: string where "roleTagger = ''tagger''"
definition roleDeleter :: string where "roleDeleter = ''deleter''"
definition roleAdmin :: string where "roleAdmin = ''admin''"
definition wildcardGroup :: string where "wildcardGroup = ''*''"
definition groupsClaimDefault :: string where "groupsClaimDefault = ''groups''"

lemmas role_defs = roleCreator_def roleTagger_def roleDeleter_def roleAdmin_def

definition defaultRoles :: roleRegistry where
  "defaultRoles =
    [(roleCreator, [permFileCreate, permTagAdd]),
     (roleTagger, [permTagRemove]),
     (roleDeleter, [permFileDelete]),
     (roleAdmin, allPermissions)]"

text \<open>One constructor per \<open>log.Fatalf\<close> of \<open>parseRoles\<close> and \<open>parseGroupRoles\<close>.\<close>

datatype fatal =
    RolesNotJSON string
  | RolesEmptyObject
  | RolesEmptyName
  | RolesUnknownPerm string string
  | GroupsNotJSON string
  | GroupsEmptyName
  | GroupsBuiltInRoleMissing string
  | GroupsUnknownRole string string

text \<open>Indexing a Go map: a missing key gives the zero value, here the nil slice.\<close>

definition map_index :: "(string \<times> string list) list \<Rightarrow> string \<Rightarrow> string list" where
  "map_index m k = (case map_of m k of Some v \<Rightarrow> v | None \<Rightarrow> [])"

section \<open>Parsing the configuration\<close>

fun firstUnknownPerm :: "string list \<Rightarrow> string option" where
  "firstUnknownPerm [] = None"
| "firstUnknownPerm (perm # perms) =
     (if \<not> validPermission perm then Some perm else firstUnknownPerm perms)"

fun parseRoles_loop :: "roleRegistry \<Rightarrow> fatal + roleRegistry" where
  "parseRoles_loop [] = Inr []"
| "parseRoles_loop ((role, perms) # rest) =
     (if trim_space role = [] then Inl RolesEmptyName
      else (case firstUnknownPerm perms of
              Some perm \<Rightarrow> Inl (RolesUnknownPerm role perm)
            | None \<Rightarrow>
                (case parseRoles_loop rest of
                   Inl e \<Rightarrow> Inl e
                 | Inr checked \<Rightarrow> Inr ((role, sort perms) # checked))))"

definition parseRoles :: "(string \<Rightarrow> string + roleRegistry) \<Rightarrow> string \<Rightarrow> fatal + roleRegistry" where
  "parseRoles decode raw =
     (if raw = [] then Inr defaultRoles
      else (case decode raw of
              Inl err \<Rightarrow> Inl (RolesNotJSON err)
            | Inr parsed \<Rightarrow>
                if parsed = [] then Inl RolesEmptyObject
                else parseRoles_loop parsed))"

definition builtInGroupRoles :: groupBindings where
  "builtInGroupRoles = [(wildcardGroup, [roleAdmin])]"

fun firstUnknownRole :: "roleRegistry \<Rightarrow> string list \<Rightarrow> string option" where
  "firstUnknownRole roles [] = None"
| "firstUnknownRole roles (role # roleList) =
     (case map_of roles role of
        Some _ \<Rightarrow> firstUnknownRole roles roleList
      | None \<Rightarrow> Some role)"

fun parseGroupRoles_loop ::
  "roleRegistry \<Rightarrow> bool \<Rightarrow> groupBindings \<Rightarrow> fatal option" where
  "parseGroupRoles_loop roles builtIn [] = None"
| "parseGroupRoles_loop roles builtIn ((grp, roleList) # rest) =
     (if trim_space grp = [] then Some GroupsEmptyName
      else (case firstUnknownRole roles roleList of
              Some role \<Rightarrow>
                if builtIn then Some (GroupsBuiltInRoleMissing role)
                else Some (GroupsUnknownRole grp role)
            | None \<Rightarrow> parseGroupRoles_loop roles builtIn rest))"

definition parseGroupRoles ::
  "(string \<Rightarrow> string + groupBindings) \<Rightarrow> roleRegistry \<Rightarrow> string \<Rightarrow> fatal + groupBindings" where
  "parseGroupRoles decode roles raw =
     (let builtIn = (raw = []) in
      case (if builtIn then Inr builtInGroupRoles else decode raw) of
        Inl err \<Rightarrow> Inl (GroupsNotJSON err)
      | Inr bindings \<Rightarrow>
          (case parseGroupRoles_loop roles builtIn bindings of
             Some e \<Rightarrow> Inl e
           | None \<Rightarrow> Inr bindings))"

text \<open>The three package variables \<open>initRolesConfig\<close> sets.\<close>

record authz =
  roles :: roleRegistry
  groupRoles :: groupBindings
  groupsConfigured :: bool

definition initRolesConfig ::
  "(string \<Rightarrow> string + roleRegistry) \<Rightarrow> (string \<Rightarrow> string + groupBindings) \<Rightarrow>
   string \<Rightarrow> string \<Rightarrow> fatal + authz" where
  "initRolesConfig decodeRoles decodeGroups rolesEnv groupsEnv =
     (case parseRoles decodeRoles rolesEnv of
        Inl e \<Rightarrow> Inl e
      | Inr rs \<Rightarrow>
          (case parseGroupRoles decodeGroups rs groupsEnv of
             Inl e \<Rightarrow> Inl e
           | Inr gs \<Rightarrow> Inr \<lparr>roles = rs, groupRoles = gs, groupsConfigured = (groupsEnv \<noteq> [])\<rparr>))"

section \<open>Resolving permissions at login\<close>

fun addRoles :: "roleRegistry \<Rightarrow> permissionSet \<Rightarrow> string list \<Rightarrow> permissionSet" where
  "addRoles rs into [] = into"
| "addRoles rs into (role # roleList) = addRoles rs (fold insert (map_index rs role) into) roleList"

definition resolvePermissions :: "authz \<Rightarrow> string list \<Rightarrow> string list" where
  "resolvePermissions cfg groups =
     (if groupRoles cfg = [] then []
      else
        let perms = addRoles (roles cfg) {} (map_index (groupRoles cfg) wildcardGroup);
            perms = fold (\<lambda>grp ps. addRoles (roles cfg) ps (map_index (groupRoles cfg) grp))
                      groups perms
        in permission_names perms)"

section \<open>Reporting the policy\<close>

definition roleNames :: "roleRegistry \<Rightarrow> string list" where
  "roleNames registry = sort (map fst registry)"

definition sortedGroups :: "groupBindings \<Rightarrow> string list" where
  "sortedGroups bindings = sort (map fst bindings)"

definition describeRoles :: "roleRegistry \<Rightarrow> string" where
  "describeRoles rs =
     join_with '' '' (map (\<lambda>name. name @ ''('' @ listPermissions (map_index rs name) @ '')'')
       (roleNames rs))"

definition logAuthzConfig :: "bool \<Rightarrow> authz \<Rightarrow> string list" where
  "logAuthzConfig oidcEnabled cfg =
     (''Authorization roles: '' @ describeRoles (roles cfg)) #
     (if \<not> oidcEnabled then
        [''Authorization: OIDC is not configured, so ART_OIDC_GROUPS does not apply; only ART_API_TOKEN (all permissions) and minted tokens are accepted'']
      else if \<not> groupsConfigured cfg then
        [''Authorization: ART_OIDC_GROUPS is unset, so every authenticated user is granted ''
          @ listPermissions (map_index (groupRoles cfg) wildcardGroup)
          @ '' (set it to restrict access)'']
      else if groupRoles cfg = [] then
        [''Authorization: ART_OIDC_GROUPS is empty, so authenticated users can read but not change anything'']
      else
        map (\<lambda>grp. ''Authorization: OIDC group '' @ grp @ '' -> ''
               @ listPermissions (map_index (groupRoles cfg) grp))
          (sortedGroups (groupRoles cfg)))"

section \<open>Well-formed configurations\<close>

definition roles_ok :: "roleRegistry \<Rightarrow> bool" where
  "roles_ok rs \<longleftrightarrow> rs \<noteq> [] \<and> (\<forall>(role, perms) \<in> set rs.
     trim_space role \<noteq> [] \<and> set perms \<subseteq> set allPermissions)"

definition bindings_ok :: "roleRegistry \<Rightarrow> groupBindings \<Rightarrow> bool" where
  "bindings_ok rs gs \<longleftrightarrow> (\<forall>(grp, roleList) \<in> set gs.
     trim_space grp \<noteq> [] \<and> (\<forall>role \<in> set roleList. role \<in> fst ` set rs))"

lemma firstUnknownPerm_None: "firstUnknownPerm ps = None \<longleftrightarrow> set ps \<subseteq> set allPermissions"
  by (induction ps) (auto simp: validPermission_iff)

lemma firstUnknownRole_None:
  "firstUnknownRole rs ls = None \<longleftrightarrow> (\<forall>role \<in> set ls. role \<in> fst ` set rs)"
proof (induction ls)
  case (Cons r ls)
  have "map_of rs r = None \<longleftrightarrow> r \<notin> fst ` set rs" by (rule map_of_eq_None_iff)
  with Cons show ?case by (auto split: option.splits)
qed simp

lemma parseRoles_loop_ok:
  "(\<exists>out. parseRoles_loop rs = Inr out)
     \<longleftrightarrow> (\<forall>(role, perms) \<in> set rs. trim_space role \<noteq> [] \<and> set perms \<subseteq> set allPermissions)"
proof (induction rs rule: parseRoles_loop.induct)
  case (2 role perms rest)
  show ?case
  proof (cases "firstUnknownPerm perms")
    case None
    then have known: "set perms \<subseteq> set allPermissions" by (simp only: firstUnknownPerm_None)
    show ?thesis
    proof (cases "trim_space role = []")
      case False
      with "2.IH" [OF False None] None known show ?thesis
        by (cases "parseRoles_loop rest") simp_all
    qed simp
  next
    case (Some p)
    then have "\<not> set perms \<subseteq> set allPermissions" using firstUnknownPerm_None [of perms] by simp
    with Some show ?thesis by simp
  qed
qed simp

lemma parseRoles_loop_result:
  "parseRoles_loop rs = Inr out \<Longrightarrow> out = map (\<lambda>(role, perms). (role, sort perms)) rs"
  by (induction rs arbitrary: out rule: parseRoles_loop.induct)
    (auto split: if_splits option.splits sum.splits)

lemma defaultRoles_ok: "roles_ok defaultRoles"
  by (simp add: roles_ok_def defaultRoles_def allPermissions_def)
    (simp add: role_defs trim_space_def trim_head.simps space_runes_def)

theorem parseRoles_ok:
  assumes "parseRoles decode raw = Inr rs"
  shows "roles_ok rs"
proof (cases "raw = []")
  case True
  with assms defaultRoles_ok show ?thesis by (simp add: parseRoles_def)
next
  case False
  with assms obtain parsed where p: "parsed \<noteq> []" "parseRoles_loop parsed = Inr rs"
    by (auto simp: parseRoles_def split: sum.splits if_splits)
  then have "rs = map (\<lambda>(role, perms). (role, sort perms)) parsed"
    by (simp add: parseRoles_loop_result)
  moreover have "\<forall>(role, perms) \<in> set parsed.
      trim_space role \<noteq> [] \<and> set perms \<subseteq> set allPermissions"
    using p(2) parseRoles_loop_ok by blast
  ultimately show ?thesis using p(1) unfolding roles_ok_def by fastforce
qed

lemma parseGroupRoles_loop_None:
  "parseGroupRoles_loop rs b gs = None \<longleftrightarrow> bindings_ok rs gs"
proof (induction rs b gs rule: parseGroupRoles_loop.induct)
  case (2 rs b grp ls rest)
  show ?case
  proof (cases "firstUnknownRole rs ls")
    case None
    then have known: "\<forall>role \<in> set ls. role \<in> fst ` set rs"
      by (simp only: firstUnknownRole_None)
    show ?thesis
    proof (cases "trim_space grp = []")
      case False
      with "2.IH" [OF False None] None known show ?thesis by (simp add: bindings_ok_def)
    qed (simp add: bindings_ok_def)
  next
    case (Some r)
    then have "\<not> (\<forall>role \<in> set ls. role \<in> fst ` set rs)"
      using firstUnknownRole_None [of rs ls] by simp
    with Some show ?thesis by (simp add: bindings_ok_def)
  qed
qed (simp add: bindings_ok_def)

theorem initRolesConfig_ok:
  assumes "initRolesConfig decR decG rolesEnv groupsEnv = Inr cfg"
  shows "roles_ok (roles cfg) \<and> bindings_ok (roles cfg) (groupRoles cfg)"
  using assms parseRoles_ok parseGroupRoles_loop_None
  by (auto simp: initRolesConfig_def parseGroupRoles_def Let_def split: sum.splits option.splits)

section \<open>What a login is granted\<close>

definition granted :: "authz \<Rightarrow> string list \<Rightarrow> string set" where
  "granted cfg groups =
     (\<Union>grp \<in> set (wildcardGroup # groups). \<Union>role \<in> set (map_index (groupRoles cfg) grp).
        set (map_index (roles cfg) role))"

lemma addRoles_set:
  "addRoles rs into ls = into \<union> (\<Union>role \<in> set ls. set (map_index rs role))"
proof (induction rs into ls rule: addRoles.induct)
  case (2 rs into role roleList)
  have "fold insert xs s = set xs \<union> s" for xs and s :: "string set"
    by (induction xs arbitrary: s) auto
  with "2" show ?case by auto
qed simp

lemma fold_addRoles_set:
  "fold (\<lambda>grp ps. addRoles rs ps (map_index gr grp)) groups ps
     = ps \<union> (\<Union>grp \<in> set groups. \<Union>role \<in> set (map_index gr grp). set (map_index rs role))"
  by (induction groups arbitrary: ps) (auto simp: addRoles_set)

lemma finite_granted: "finite (granted cfg groups)"
  by (simp add: granted_def)

lemma map_index_Nil: "map_index [] k = []"
  by (simp add: map_index_def)

lemma resolvePermissions_names:
  "resolvePermissions cfg groups = permission_names (granted cfg groups)"
proof (cases "groupRoles cfg = []")
  case True
  then show ?thesis
    by (simp add: resolvePermissions_def granted_def map_index_Nil permission_names_def)
next
  case False
  then show ?thesis
    by (simp add: resolvePermissions_def granted_def fold_addRoles_set Let_def)
      (simp add: addRoles_set)
qed

theorem resolvePermissions_spec:
  "set (resolvePermissions cfg groups) = granted cfg groups
   \<and> sorted (resolvePermissions cfg groups) \<and> distinct (resolvePermissions cfg groups)"
  by (simp add: resolvePermissions_names permission_names_def finite_granted)

lemma map_index_in: "x \<in> set (map_index m k) \<Longrightarrow> \<exists>v. (k, v) \<in> set m \<and> x \<in> set v"
  by (cases "map_of m k") (auto simp: map_index_def dest: map_of_SomeD)

lemma granted_known: "roles_ok (roles cfg) \<Longrightarrow> granted cfg groups \<subseteq> set allPermissions"
  unfolding granted_def roles_ok_def by (fastforce dest!: map_index_in)

lemma granted_mono: "set gs \<subseteq> set hs \<Longrightarrow> granted cfg gs \<subseteq> granted cfg hs"
  by (auto simp: granted_def)

end
