(* ===== verification/Session.thy ===== *)
theory Session
  imports Roles Strconv
begin

text \<open>
  Session tokens: \<open>server/session.go\<close> and the \<open>token\<close> subcommand of \<open>server/mint.go\<close>.

  The JWT library is the record \<open>jwt_lib\<close> of the three calls the code makes; \<open>jwt_documented\<close>
  states what its documentation promises for the options the code passes. Times are nanoseconds
  since the epoch, the numeric dates inside a token whole multiples of a second.
\<close>

section \<open>Configuration\<close>

definition sessionIssuer :: string where "sessionIssuer = ''artifact-server''"
definition sessionAudience :: string where "sessionAudience = ''artifact-api''"
definition minSessionSecretLength :: nat where "minSessionSecretLength = 32"
definition defaultSessionTTL :: int where "defaultSessionTTL = 12 * 60 * 60 * 10 ^ 9"

record session_cfg =
  sessionSecret :: bytes
  sessionTTL :: int

definition sessionAuthEnabled :: "session_cfg \<Rightarrow> bool" where
  "sessionAuthEnabled cfg \<longleftrightarrow> 0 < length (sessionSecret cfg)"

text \<open>
  \<open>duration\<close> is \<open>parseDuration\<close> with its parameters supplied. A short secret stops the boot, an
  unreadable lifetime is ignored.
\<close>

definition initSessionConfig ::
  "(string \<Rightarrow> int result) \<Rightarrow> (string \<Rightarrow> string) \<Rightarrow> session_cfg result" where
  "initSessionConfig duration getenv =
     (let secret = getenv ''ART_SESSION_SECRET'';
          raw = getenv ''ART_SESSION_TTL'';
          ttl = (if raw \<noteq> []
                 then (case duration raw of Inl _ \<Rightarrow> defaultSessionTTL | Inr t \<Rightarrow> t)
                 else defaultSessionTTL) in
      if secret \<noteq> [] \<and> length secret < minSessionSecretLength
      then Inl ''ART_SESSION_SECRET must be at least 32 characters''
      else Inr \<lparr>sessionSecret = secret, sessionTTL = ttl\<rparr>)"

section \<open>Tokens\<close>

record sessionIdentity =
  Subject :: string
  Email :: string
  id_Name :: string
  PreferredUsername :: string

record sessionClaims =
  c_Issuer :: string
  c_Subject :: string
  c_Audience :: "string list"
  c_ExpiresAt :: "int option"
  c_IssuedAt :: "int option"
  c_Via :: string
  c_Email :: string
  c_Name :: string
  c_PreferredUsername :: string
  c_Perms :: "string list"

record jwt_options =
  o_key :: bytes
  o_methods :: "string list"
  o_issuer :: string
  o_audience :: string
  o_now :: int

record jwt_lib =
  NewNumericDate :: "int \<Rightarrow> int"
  SignedString :: "string \<Rightarrow> sessionClaims \<Rightarrow> bytes \<Rightarrow> string result"
  ParseWithClaims :: "jwt_options \<Rightarrow> string \<Rightarrow> (sessionClaims \<times> bool) result"

definition claims_valid :: "jwt_options \<Rightarrow> sessionClaims \<Rightarrow> bool" where
  "claims_valid opts c \<longleftrightarrow> c_Issuer c = o_issuer opts \<and> o_audience opts \<in> set (c_Audience c)
     \<and> (case c_ExpiresAt c of None \<Rightarrow> True | Some e \<Rightarrow> o_now opts < e)"

text \<open>
  A numeric date is the time cut to the second. A parsed token is valid and its claims pass the
  issuer, audience and expiry checks; a token signed with the key and one of the methods parses
  to its own claims when they pass, and is refused when they do not.
\<close>

definition jwt_documented :: "jwt_lib \<Rightarrow> bool" where
  "jwt_documented lib \<longleftrightarrow>
     (\<forall>t. NewNumericDate lib t = t div 10 ^ 9 * 10 ^ 9) \<and>
     (\<forall>opts raw c ok. ParseWithClaims lib opts raw = Inr (c, ok) \<longrightarrow> ok \<and> claims_valid opts c) \<and>
     (\<forall>alg c raw opts. SignedString lib alg c (o_key opts) = Inr raw \<longrightarrow> alg \<in> set (o_methods opts) \<longrightarrow>
        (if claims_valid opts c then ParseWithClaims lib opts raw = Inr (c, True)
         else \<exists>e. ParseWithClaims lib opts raw = Inl e))"

definition mintSessionToken ::
  "jwt_lib \<Rightarrow> session_cfg \<Rightarrow> string \<Rightarrow> sessionIdentity \<Rightarrow> string list \<Rightarrow> int \<Rightarrow> int \<Rightarrow> string result" where
  "mintSessionToken lib cfg via ident perms ttl now =
     (if \<not> sessionAuthEnabled cfg then Inl ''session tokens are not configured''
      else
        let claims =
          \<lparr>c_Issuer = sessionIssuer, c_Subject = Subject ident, c_Audience = [sessionAudience],
           c_ExpiresAt = None, c_IssuedAt = Some (NewNumericDate lib now), c_Via = via,
           c_Email = Email ident, c_Name = id_Name ident,
           c_PreferredUsername = PreferredUsername ident, c_Perms = perms\<rparr>;
            claims = (if 0 < ttl
                      then claims\<lparr>c_ExpiresAt := Some (NewNumericDate lib (now + ttl))\<rparr>
                      else claims)
        in SignedString lib ''HS256'' claims (sessionSecret cfg))"

definition verifySessionTokenAt ::
  "jwt_lib \<Rightarrow> session_cfg \<Rightarrow> string \<Rightarrow> int \<Rightarrow> sessionClaims result" where
  "verifySessionTokenAt lib cfg raw now =
     (if \<not> sessionAuthEnabled cfg then Inl ''session tokens are not configured''
      else
        (case ParseWithClaims lib
                \<lparr>o_key = sessionSecret cfg, o_methods = [''HS256''], o_issuer = sessionIssuer,
                 o_audience = sessionAudience, o_now = now\<rparr> raw of
           Inl e \<Rightarrow> Inl (''invalid session token: '' @ e)
         | Inr (claims, valid) \<Rightarrow>
             if \<not> valid then Inl ''invalid session token'' else Inr claims))"

section \<open>The token subcommand\<close>

text \<open>
  The flags of \<open>flag.NewFlagSet("token")\<close>: \<open>-name value\<close> or \<open>-name=value\<close>, with one or two
  dashes. Parsing stops at the first argument that is not a flag, or after \<open>--\<close>.
\<close>

record token_flags =
  fl_sub :: string
  fl_name :: string
  fl_ttl :: string
  fl_perms :: string

definition set_flag :: "string \<Rightarrow> string \<Rightarrow> token_flags \<Rightarrow> token_flags option" where
  "set_flag name v f =
     (if name = ''sub'' then Some (f\<lparr>fl_sub := v\<rparr>)
      else if name = ''name'' then Some (f\<lparr>fl_name := v\<rparr>)
      else if name = ''ttl'' then Some (f\<lparr>fl_ttl := v\<rparr>)
      else if name = ''perms'' then Some (f\<lparr>fl_perms := v\<rparr>)
      else None)"

definition flag_body :: "string \<Rightarrow> string option" where
  "flag_body s =
     (case s of
        c # d # cs \<Rightarrow>
          if c \<noteq> CHR ''-'' then None
          else if d = CHR ''-'' then (if cs = [] then None else Some cs)
          else Some (d # cs)
      | _ \<Rightarrow> None)"

fun parse_flags :: "string list \<Rightarrow> token_flags \<Rightarrow> token_flags option" where
  "parse_flags [] f = Some f"
| "parse_flags (s # rest) f =
     (case flag_body s of
        None \<Rightarrow> Some f
      | Some body \<Rightarrow>
          (if CHR ''='' = hd body \<or> CHR ''-'' = hd body then None
           else if CHR ''='' \<in> set body then
             (let name = takeWhile (\<lambda>c. c \<noteq> CHR ''='') body in
              (case set_flag name (drop (Suc (length name)) body) f of
                 None \<Rightarrow> None
               | Some f1 \<Rightarrow> parse_flags rest f1))
           else
             (case rest of
                [] \<Rightarrow> None
              | v # rest1 \<Rightarrow>
                  (case set_flag body v f of
                     None \<Rightarrow> None
                   | Some f1 \<Rightarrow> parse_flags rest1 f1))))"

text \<open>The exit code and what goes to standard output; the summary on stderr is not kept.\<close>

definition runTokenCommand ::
  "jwt_lib \<Rightarrow> session_cfg \<Rightarrow> (string \<Rightarrow> int result) \<Rightarrow> int \<Rightarrow> string list \<Rightarrow> nat \<times> string option" where
  "runTokenCommand lib cfg duration now args =
     (case parse_flags args \<lparr>fl_sub = [], fl_name = [], fl_ttl = [], fl_perms = []\<rparr> of
        None \<Rightarrow> (2, None)
      | Some f \<Rightarrow>
          if fl_sub f = [] then (2, None)
          else if \<not> sessionAuthEnabled cfg then (1, None)
          else
            (case (if fl_ttl f \<noteq> [] then duration (fl_ttl f) else Inr (sessionTTL cfg)) of
               Inl e \<Rightarrow> (2, None)
             | Inr ttl \<Rightarrow>
                 (case parsePermissionList (fl_perms f) of
                    Inl e \<Rightarrow> (2, None)
                  | Inr perms \<Rightarrow>
                      (case mintSessionToken lib cfg ''mint''
                              \<lparr>Subject = fl_sub f, Email = [], id_Name = fl_name f,
                               PreferredUsername = []\<rparr> perms ttl now of
                         Inl e \<Rightarrow> (1, None)
                       | Inr token \<Rightarrow> (0, Some token)))))"

section \<open>Minting and verifying\<close>

definition minted_claims ::
  "jwt_lib \<Rightarrow> string \<Rightarrow> sessionIdentity \<Rightarrow> string list \<Rightarrow> int \<Rightarrow> int \<Rightarrow> sessionClaims" where
  "minted_claims lib via ident perms ttl now =
     \<lparr>c_Issuer = sessionIssuer, c_Subject = Subject ident, c_Audience = [sessionAudience],
      c_ExpiresAt = (if 0 < ttl then Some (NewNumericDate lib (now + ttl)) else None),
      c_IssuedAt = Some (NewNumericDate lib now), c_Via = via, c_Email = Email ident,
      c_Name = id_Name ident, c_PreferredUsername = PreferredUsername ident, c_Perms = perms\<rparr>"

lemma mintSessionToken_signs:
  "mintSessionToken lib cfg via ident perms ttl now = Inr raw \<longleftrightarrow>
     sessionAuthEnabled cfg \<and>
     SignedString lib ''HS256'' (minted_claims lib via ident perms ttl now) (sessionSecret cfg) = Inr raw"
  by (simp add: mintSessionToken_def minted_claims_def Let_def)

definition unexpired :: "int \<Rightarrow> int \<Rightarrow> int \<Rightarrow> bool" where
  "unexpired ttl now later \<longleftrightarrow> ttl \<le> 0 \<or> later < (now + ttl) div 10 ^ 9 * 10 ^ 9"

text \<open>
  A minted token verifies, to exactly the identity and permissions it was minted with, until the
  second it expires in, and never after.
\<close>

lemma verify_minted:
  assumes "jwt_documented lib"
    and "mintSessionToken lib cfg via ident perms ttl now = Inr raw"
  shows "if unexpired ttl now later
         then verifySessionTokenAt lib cfg raw later = Inr (minted_claims lib via ident perms ttl now)
         else \<exists>e. verifySessionTokenAt lib cfg raw later = Inl e"
proof -
  define opts where "opts = \<lparr>o_key = sessionSecret cfg, o_methods = [''HS256''],
    o_issuer = sessionIssuer, o_audience = sessionAudience, o_now = later\<rparr>"
  define cl where "cl = minted_claims lib via ident perms ttl now"
  have on: "sessionAuthEnabled cfg" and "SignedString lib ''HS256'' cl (o_key opts) = Inr raw"
    using assms(2) by (simp_all add: mintSessionToken_signs cl_def opts_def)
  moreover have "''HS256'' \<in> set (o_methods opts)" by (simp add: opts_def)
  ultimately have parse: "if claims_valid opts cl then ParseWithClaims lib opts raw = Inr (cl, True)
      else \<exists>e. ParseWithClaims lib opts raw = Inl e"
    using assms(1) unfolding jwt_documented_def by blast
  have "claims_valid opts cl \<longleftrightarrow> unexpired ttl now later"
    using assms(1)
    by (auto simp: claims_valid_def opts_def cl_def minted_claims_def unexpired_def jwt_documented_def)
  with parse on show ?thesis
    by (auto simp: verifySessionTokenAt_def opts_def [symmetric] cl_def [symmetric] split: if_splits)
qed

lemma verified_checks:
  assumes "jwt_documented lib" and "verifySessionTokenAt lib cfg raw now = Inr c"
  shows "c_Issuer c = sessionIssuer \<and> sessionAudience \<in> set (c_Audience c)
    \<and> (\<forall>e. c_ExpiresAt c = Some e \<longrightarrow> now < e) \<and> sessionAuthEnabled cfg"
proof -
  define opts where "opts = \<lparr>o_key = sessionSecret cfg, o_methods = [''HS256''],
    o_issuer = sessionIssuer, o_audience = sessionAudience, o_now = now\<rparr>"
  have "\<exists>ok. ParseWithClaims lib opts raw = Inr (c, ok)" and on: "sessionAuthEnabled cfg"
    using assms(2) by (auto simp: verifySessionTokenAt_def opts_def split: if_splits sum.splits)
  then have "claims_valid opts c" using assms(1) unfolding jwt_documented_def by blast
  with on show ?thesis by (auto simp: claims_valid_def opts_def)
qed

lemma runTokenCommand_mints:
  assumes "runTokenCommand lib cfg duration now args = (0, Some token)"
  shows "\<exists>(f :: token_flags) ttl perms. fl_sub f \<noteq> [] \<and> parsePermissionList (fl_perms f) = Inr perms \<and>
    mintSessionToken lib cfg ''mint'' \<lparr>Subject = fl_sub f, Email = [], id_Name = fl_name f,
       PreferredUsername = []\<rparr> perms ttl now = Inr token"
proof -
  define f0 where "f0 = \<lparr>fl_sub = [], fl_name = [], fl_ttl = [], fl_perms = []\<rparr>"
  note run = assms [unfolded runTokenCommand_def, folded f0_def]
  then obtain f where f: "parse_flags args f0 = Some f" by (auto split: option.splits)
  note run = run [unfolded f option.case]
  then have sub: "fl_sub f \<noteq> []" by (auto split: if_splits)
  define t where "t = (if fl_ttl f \<noteq> [] then duration (fl_ttl f) else Inr (sessionTTL cfg))"
  note run = run [folded t_def]
  then obtain ttl where t: "t = Inr ttl" by (auto split: if_splits sum.splits)
  from run t obtain perms where p: "parsePermissionList (fl_perms f) = Inr perms"
    by (auto split: if_splits sum.splits)
  from run t p have "mintSessionToken lib cfg ''mint'' \<lparr>Subject = fl_sub f, Email = [],
      id_Name = fl_name f, PreferredUsername = []\<rparr> perms ttl now = Inr token"
    by (auto split: if_splits sum.splits)
  with sub p show ?thesis by blast
qed

end
