(* ===== verification/Storage.thy ===== *)
theory Storage
  imports GoText
begin

text \<open>
  The blob store of \<open>server/storage.go\<close>: its interface as the locale \<open>blob_store\<close>, and the
  size-capping reader \<open>capReader\<close> with the copy loop that drains it. \<open>StorageFs\<close> provides the
  filesystem store.

  An \<open>io.Reader\<close> is the sequence of byte blocks its \<open>Read\<close> calls will hand out, and how it
  ends: with \<open>io.EOF\<close> or an error, possibly together with a last block.
\<close>

section \<open>Errors and blob descriptions\<close>

datatype blob_error = BlobTooLarge | BlobNotFound | BlobOther string

fun blob_error_text :: "blob_error \<Rightarrow> string" where
  "blob_error_text BlobTooLarge = ''blob exceeds the maximum size''"
| "blob_error_text BlobNotFound = ''blob not found''"
| "blob_error_text (BlobOther e) = e"

record BlobInfo =
  BlobSize :: int
  ModTime :: int
  ETag :: string

section \<open>Readers\<close>

datatype read_end = EOF | ReadErr string

record reader =
  blocks :: "bytes list"
  last_block :: bytes
  ending :: read_end

definition reader_bytes :: "reader \<Rightarrow> bytes" where
  "reader_bytes r = concat (blocks r) @ last_block r"

text \<open>
  One \<open>Read\<close> into a buffer of \<open>m\<close> bytes. A block that does not fit is split. The last block
  comes together with the end; from then on \<open>Read\<close> returns nothing but the end.
\<close>

definition reader_read :: "nat \<Rightarrow> reader \<Rightarrow> (bytes \<times> read_end option) \<times> reader" where
  "reader_read m r =
     (case blocks r of
        b # bs \<Rightarrow>
          if length b \<le> m then ((b, None), r\<lparr>blocks := bs\<rparr>)
          else ((take m b, None), r\<lparr>blocks := drop m b # bs\<rparr>)
      | [] \<Rightarrow>
          if length (last_block r) \<le> m
          then ((last_block r, Some (ending r)), r\<lparr>last_block := []\<rparr>)
          else ((take m (last_block r), None), r\<lparr>last_block := drop m (last_block r)\<rparr>))"

section \<open>The capped reader\<close>

record capReader =
  src :: reader
  left :: int
  n_read :: int
  overflowed :: bool

definition newCapReader :: "reader \<Rightarrow> int \<Rightarrow> capReader" where
  "newCapReader r maxBytes =
     \<lparr>src = r, left = int64 (maxBytes + 1), n_read = 0, overflowed = False\<rparr>"

datatype cap_end = CapEOF | CapErr string | CapOverflow

fun cap_end_of :: "read_end \<Rightarrow> cap_end" where
  "cap_end_of EOF = CapEOF"
| "cap_end_of (ReadErr e) = CapErr e"

definition capReader_Read :: "nat \<Rightarrow> capReader \<Rightarrow> (bytes \<times> cap_end option) \<times> capReader" where
  "capReader_Read len c =
     (if left c \<le> 0 then (([], Some CapOverflow), c\<lparr>overflowed := True\<rparr>)
      else
        let m = (if int len > left c then nat (left c) else len);
            ((b, e), src') = reader_read m (src c)
        in ((b, map_option cap_end_of e),
            c\<lparr>src := src', left := int64 (left c - int (length b)),
              n_read := int64 (n_read c + int (length b))\<rparr>))"

section \<open>Draining it\<close>

text \<open>
  \<open>io.CopyBuffer\<close> from a \<open>capReader\<close>: read, append what came, stop at the first error or the
  end. \<open>acc\<close> is what has been written to the destination so far; \<open>bufsize\<close> is positive.
\<close>

definition rest_size :: "reader \<Rightarrow> nat" where
  "rest_size r = (\<Sum>b \<leftarrow> blocks r. Suc (length b)) + length (last_block r)"

lemma reader_read_continues:
  "reader_read m r = ((b, None), r') \<Longrightarrow> 0 < m \<Longrightarrow> rest_size r' < rest_size r"
  by (auto simp: reader_read_def rest_size_def split: list.splits if_splits)

lemma capReader_Read_pos:
  "0 < left c \<Longrightarrow> m = (if int len > left c then nat (left c) else len) \<Longrightarrow>
   reader_read m (src c) = ((b, e), s1) \<Longrightarrow>
   capReader_Read len c = ((b, map_option cap_end_of e),
     c\<lparr>src := s1, left := int64 (left c - int (length b)),
       n_read := int64 (n_read c + int (length b))\<rparr>)"
  by (simp add: capReader_Read_def Let_def)

function copy_capped :: "nat \<Rightarrow> capReader \<Rightarrow> bytes \<Rightarrow> cap_end \<times> bytes \<times> capReader" where
  "copy_capped k c acc =
     (case capReader_Read (Suc k) c of
        ((b, Some e), c') \<Rightarrow> (e, acc @ b, c')
      | ((b, None), c') \<Rightarrow> copy_capped k c' (acc @ b))"
  by pat_completeness auto
termination
proof (relation "measure (\<lambda>(k, c, acc). rest_size (src c))", goal_cases)
  case (2 k c acc p c' b e)
  from 2 have r: "capReader_Read (Suc k) c = ((b, None), c')" by simp
  then have pos: "0 < left c" by (auto simp: capReader_Read_def split: if_splits)
  define m where "m = (if int (Suc k) > left c then nat (left c) else Suc k)"
  obtain b1 e1 s1 where rr: "reader_read m (src c) = ((b1, e1), s1)" by (metis prod.collapse)
  from r capReader_Read_pos [OF pos m_def rr] have "e1 = None" and "src c' = s1" by auto
  with rr have "reader_read m (src c) = ((b1, None), src c')" by simp
  moreover have "0 < m" using pos by (simp add: m_def)
  ultimately show ?case using reader_read_continues by (auto simp: in_measure)
qed simp

declare copy_capped.simps [simp del]

text \<open>
  What a drain delivers when \<open>room = left\<close> bytes may still pass: everything, if that is at
  most \<open>room\<close> bytes and the read that reaches the end is not the overflowing one; otherwise a
  prefix of \<open>room\<close> bytes and the overflow.
\<close>

lemma reader_read_bytes:
  "reader_read m r = ((b, e), r') \<Longrightarrow>
     reader_bytes r = b @ reader_bytes r' \<and> length b \<le> m \<and> ending r' = ending r
     \<and> (e = None \<or> (e = Some (ending r) \<and> reader_bytes r' = []))"
  by (auto simp: reader_read_def reader_bytes_def split: list.splits if_splits)

lemma capReader_Read_ok:
  assumes "0 < left c" and "left c \<le> max_int64" and "capReader_Read (Suc k) c = ((b, e), c')"
  shows "reader_bytes (src c) = b @ reader_bytes (src c') \<and> int (length b) \<le> left c
     \<and> left c' = left c - int (length b) \<and> ending (src c') = ending (src c)
     \<and> overflowed c' = overflowed c
     \<and> (e = None \<or> (e = Some (cap_end_of (ending (src c))) \<and> reader_bytes (src c') = []))"
proof -
  define m where "m = (if int (Suc k) > left c then nat (left c) else Suc k)"
  obtain b1 e1 s1 where rr: "reader_read m (src c) = ((b1, e1), s1)" by (metis prod.collapse)
  have eqs: "b = b1" "e = map_option cap_end_of e1" "src c' = s1"
    "left c' = int64 (left c - int (length b1))" "overflowed c' = overflowed c"
    using assms(3) capReader_Read_pos [OF assms(1) m_def rr] by auto
  note rb = reader_read_bytes [OF rr]
  have "int m \<le> left c" using assms(1) by (simp add: m_def)
  then have len: "int (length b1) \<le> left c" using rb by linarith
  then have "in_int64 (left c - int (length b1))"
    using assms by (simp add: in_int64_def max_int64_def)
  with eqs rb len show ?thesis by (auto simp: int64_id)
qed

lemma copy_capped_spec:
  assumes "0 \<le> left c" and "left c \<le> max_int64" and "\<not> overflowed c"
    and "copy_capped k c acc = (e, out, c')"
  shows "(e = cap_end_of (ending (src c)) \<and> out = acc @ reader_bytes (src c)
            \<and> int (length (reader_bytes (src c))) \<le> left c \<and> \<not> overflowed c')
       \<or> (e = CapOverflow \<and> overflowed c' \<and> left c \<le> int (length (reader_bytes (src c)))
            \<and> out = acc @ take (nat (left c)) (reader_bytes (src c)))"
  using assms
proof (induction k c acc arbitrary: rule: copy_capped.induct)
  case (1 k c acc)
  show ?case
  proof (cases "left c = 0")
    case True
    then have "capReader_Read (Suc k) c = (([], Some CapOverflow), c\<lparr>overflowed := True\<rparr>)"
      by (simp add: capReader_Read_def)
    with "1.prems"(4) have "e = CapOverflow \<and> out = acc \<and> c' = c\<lparr>overflowed := True\<rparr>"
      by (simp add: copy_capped.simps [of k c acc])
    with True show ?thesis by simp
  next
    case False
    with "1.prems" have pos: "0 < left c" by simp
    obtain b en c1 where rd: "capReader_Read (Suc k) c = ((b, en), c1)" by (metis prod.collapse)
    note ok = capReader_Read_ok [OF pos "1.prems"(2) rd]
    show ?thesis
    proof (cases en)
      case (Some e1)
      with rd "1.prems"(4) have "e = e1 \<and> out = acc @ b \<and> c' = c1"
        by (simp add: copy_capped.simps [of k c acc])
      with ok Some "1.prems"(3) show ?thesis by auto
    next
      case None
      with rd "1.prems"(4) have "copy_capped k c1 (acc @ b) = (e, out, c')"
        by (simp add: copy_capped.simps [of k c acc])
      moreover have "0 \<le> left c1" "left c1 \<le> max_int64" "\<not> overflowed c1"
        using ok "1.prems" by auto
      ultimately have ih:
        "(e = cap_end_of (ending (src c1)) \<and> out = (acc @ b) @ reader_bytes (src c1)
            \<and> int (length (reader_bytes (src c1))) \<le> left c1 \<and> \<not> overflowed c')
       \<or> (e = CapOverflow \<and> overflowed c' \<and> left c1 \<le> int (length (reader_bytes (src c1)))
            \<and> out = (acc @ b) @ take (nat (left c1)) (reader_bytes (src c1)))"
        using "1.IH" rd None by (metis prod.inject)
      have "nat (left c) = length b + nat (left c1)" using ok by linarith
      then have "take (nat (left c)) (reader_bytes (src c))
          = b @ take (nat (left c1)) (reader_bytes (src c1))"
        using ok by simp
      with ih ok show ?thesis by auto
    qed
  qed
qed

lemma copy_new_capped:
  assumes "copy_capped k (newCapReader r mx) [] = (e, out, c)"
  shows "e = CapEOF \<longrightarrow> out = reader_bytes r \<and> ending r = EOF
    \<and> int (length out) \<le> max_int64"
proof (cases "0 \<le> left (newCapReader r mx)")
  case True
  have "left (newCapReader r mx) \<le> max_int64"
    using int64_range by (simp add: newCapReader_def in_int64_def)
  with True copy_capped_spec [OF _ _ _ assms] show ?thesis
    by (cases "ending r") (auto simp: newCapReader_def)
next
  case False
  then have "capReader_Read (Suc k) (newCapReader r mx)
      = (([], Some CapOverflow), (newCapReader r mx)\<lparr>overflowed := True\<rparr>)"
    by (simp add: capReader_Read_def)
  with assms show ?thesis by (simp add: copy_capped.simps [of k "newCapReader r mx" "[]"])
qed

section \<open>The interface\<close>

text \<open>
  The \<open>Storage\<close> interface: \<open>put\<close>, \<open>get\<close> and \<open>delete\<close> over a store state, \<open>look\<close> reading the
  blobs of a state. The laws are the interface comments, less the promise that a failed put
  leaves nothing under its key, which neither backend can keep when its own cleanup fails.
\<close>

locale blob_store =
  fixes put :: "string \<Rightarrow> reader \<Rightarrow> int \<Rightarrow> 's \<Rightarrow> (blob_error + int) \<times> 's"
    and get :: "string \<Rightarrow> 's \<Rightarrow> (blob_error + bytes \<times> BlobInfo) \<times> 's"
    and delete :: "string \<Rightarrow> 's \<Rightarrow> blob_error option \<times> 's"
    and look :: "'s \<Rightarrow> string \<Rightarrow> bytes option"
    and good_key :: "string \<Rightarrow> bool"
  assumes put_ok: "good_key k \<Longrightarrow> put k r mx s = (Inr n, s') \<Longrightarrow> good_key k' \<Longrightarrow>
      look s' k' = (if k' = k then Some (reader_bytes r) else look s k')"
    and put_size: "good_key k \<Longrightarrow> put k r mx s = (Inr n, s') \<Longrightarrow>
      n = int (length (reader_bytes r)) \<and> n \<le> mx \<and> ending r = EOF"
    and put_frame: "good_key k \<Longrightarrow> put k r mx s = (res, s') \<Longrightarrow> good_key k' \<Longrightarrow> k' \<noteq> k \<Longrightarrow>
      look s' k' = look s k'"
    and get_ok: "good_key k \<Longrightarrow> get k s = (Inr (b, info), s') \<Longrightarrow>
      look s k = Some b \<and> BlobSize info = int (length b)"
    and get_absent: "good_key k \<Longrightarrow> get k s = (Inl BlobNotFound, s') \<Longrightarrow> look s k = None"
    and get_frame: "good_key k \<Longrightarrow> get k s = (g, s') \<Longrightarrow> look s' = look s"
    and delete_ok: "good_key k \<Longrightarrow> delete k s = (None, s') \<Longrightarrow> good_key k' \<Longrightarrow>
      look s' k' = (if k' = k then None else look s k')"
    and delete_frame: "good_key k \<Longrightarrow> delete k s = (d, s') \<Longrightarrow> good_key k' \<Longrightarrow> k' \<noteq> k \<Longrightarrow>
      look s' k' = look s k'"

end
