(* ===== verification/GoPath.thy ===== *)
theory GoPath
  imports GoText
begin

text \<open>
  The Unix \<open>path/filepath\<close> functions the server calls: \<open>Clean\<close>, \<open>Join\<close>, \<open>Base\<close>, \<open>Dir\<close> and
  \<open>Ext\<close>. \<open>Clean\<close> works on the slash-separated segments with a stack, top first.
\<close>

definition push_seg :: "bool \<Rightarrow> string \<Rightarrow> string list \<Rightarrow> string list" where
  "push_seg rooted seg st =
     (if seg = [] \<or> seg = ''.'' then st
      else if seg = ''..'' then
        (case st of
           [] \<Rightarrow> if rooted then [] else [seg]
         | prev # below \<Rightarrow> if prev = ''..'' then seg # st else below)
      else seg # st)"

definition render_path :: "bool \<Rightarrow> string list \<Rightarrow> string" where
  "render_path rooted segs =
     (if rooted then CHR ''/'' # join_with ''/'' segs
      else if segs = [] then ''.'' else join_with ''/'' segs)"

definition path_clean :: "string \<Rightarrow> string" where
  "path_clean p =
     (if p = [] then ''.''
      else let rooted = prefix ''/'' p
           in render_path rooted (rev (fold (push_seg rooted) (split_on CHR ''/'' p) [])))"

definition path_join :: "string \<Rightarrow> string \<Rightarrow> string" where
  "path_join a b =
     (if a = [] then (if b = [] then [] else path_clean b)
      else path_clean (a @ CHR ''/'' # b))"

definition path_base :: "string \<Rightarrow> string" where
  "path_base p =
     (if p = [] then ''.''
      else let q = rev (dropWhile (\<lambda>c. c = CHR ''/'') (rev p));
               r = (case last_index CHR ''/'' q of Some i \<Rightarrow> drop (Suc i) q | None \<Rightarrow> q)
           in if r = [] then ''/'' else r)"

definition path_dir :: "string \<Rightarrow> string" where
  "path_dir p =
     path_clean (case last_index CHR ''/'' p of Some i \<Rightarrow> take (Suc i) p | None \<Rightarrow> [])"

definition path_ext :: "string \<Rightarrow> string" where
  "path_ext p =
     (let e = (case last_index CHR ''/'' p of Some i \<Rightarrow> drop (Suc i) p | None \<Rightarrow> p)
      in case last_index CHR ''.'' e of Some i \<Rightarrow> drop i e | None \<Rightarrow> [])"

section \<open>Joining a clean relative key\<close>

definition normal_seg :: "string \<Rightarrow> bool" where
  "normal_seg seg \<longleftrightarrow> seg \<noteq> [] \<and> seg \<noteq> ''.'' \<and> seg \<noteq> ''..''"

definition clean_key :: "string \<Rightarrow> bool" where
  "clean_key k \<longleftrightarrow> (\<forall>seg \<in> set (split_on CHR ''/'' k). normal_seg seg)"

lemma split_on_append_any: "split_on c (s @ c # t) = split_on c s @ split_on c t"
  by (induction s) (auto split: list.splits)

lemma fold_push_normal:
  "\<forall>seg \<in> set segs. normal_seg seg \<Longrightarrow> fold (push_seg r) segs st = rev segs @ st"
  by (induction segs arbitrary: st) (auto simp: push_seg_def normal_seg_def)

lemma clean_key_nonempty: "clean_key k \<Longrightarrow> k \<noteq> []"
  by (cases k) (simp_all add: clean_key_def normal_seg_def)

lemma clean_key_relative:
  assumes "clean_key k"
  shows "\<not> prefix ''/'' k"
proof
  assume "prefix ''/'' k"
  then obtain t where "k = CHR ''/'' # t" by (auto simp: prefix_def)
  with assms have "normal_seg []" by (simp add: clean_key_def)
  then show False by (simp add: normal_seg_def)
qed

text \<open>The segments \<open>path_join\<close> puts in front of the key's own.\<close>

definition dir_rooted :: "string \<Rightarrow> bool" where
  "dir_rooted d \<longleftrightarrow> prefix ''/'' d"

definition dir_segs :: "string \<Rightarrow> string list" where
  "dir_segs d = (if d = [] then [] else rev (fold (push_seg (dir_rooted d)) (split_on CHR ''/'' d) []))"

lemma path_join_clean_key:
  assumes "clean_key k"
  shows "path_join d k = render_path (dir_rooted d) (dir_segs d @ split_on CHR ''/'' k)"
proof -
  have norm: "\<forall>seg \<in> set (split_on CHR ''/'' k). normal_seg seg"
    using assms by (simp only: clean_key_def)
  have "path_join d k = path_clean (if d = [] then k else d @ CHR ''/'' # k)"
    using clean_key_nonempty [OF assms] by (simp add: path_join_def)
  moreover have "prefix ''/'' (if d = [] then k else d @ CHR ''/'' # k) = dir_rooted d"
    using clean_key_relative [OF assms] by (cases d) (auto simp: dir_rooted_def)
  moreover have "(if d = [] then k else d @ CHR ''/'' # k) \<noteq> []"
    using clean_key_nonempty [OF assms] by simp
  ultimately have "path_join d k = render_path (dir_rooted d) (rev (fold (push_seg (dir_rooted d))
      (split_on CHR ''/'' (if d = [] then k else d @ CHR ''/'' # k)) []))"
    by (simp only: path_clean_def Let_def if_False)
  moreover have "rev (fold (push_seg r) (split_on CHR ''/'' (if d = [] then k else d @ CHR ''/'' # k)) [])
      = (if d = [] then [] else rev (fold (push_seg r) (split_on CHR ''/'' d) []))
        @ split_on CHR ''/'' k" for r
    by (cases "d = []") (simp_all only: if_True if_False split_on_append_any fold_append comp_apply
        fold_push_normal [OF norm] rev_append rev_rev_ident append_Nil2 append_Nil simp_thms rev.simps)
  ultimately show ?thesis by (simp only: dir_segs_def)
qed

lemma push_seg_no_slash:
  "CHR ''/'' \<notin> set seg \<Longrightarrow> \<forall>x \<in> set st. CHR ''/'' \<notin> set x \<Longrightarrow>
   \<forall>x \<in> set (push_seg r seg st). CHR ''/'' \<notin> set x"
  by (auto simp: push_seg_def split: list.splits)

lemma fold_push_no_slash:
  "\<forall>seg \<in> set segs. CHR ''/'' \<notin> set seg \<Longrightarrow> \<forall>x \<in> set st. CHR ''/'' \<notin> set x \<Longrightarrow>
   \<forall>x \<in> set (fold (push_seg r) segs st). CHR ''/'' \<notin> set x"
proof (induction segs arbitrary: st)
  case (Cons seg segs)
  then have "\<forall>x \<in> set (push_seg r seg st). CHR ''/'' \<notin> set x" by (intro push_seg_no_slash) auto
  with Cons show ?case by simp
qed simp

lemma dir_segs_no_slash: "\<forall>x \<in> set (dir_segs d). CHR ''/'' \<notin> set x"
  unfolding dir_segs_def
  using fold_push_no_slash [of "split_on CHR ''/'' d" "[]" "dir_rooted d"] split_on_no_sep
  by auto

lemma render_path_inj:
  assumes "render_path r xs = render_path r ys" and "xs \<noteq> []" and "ys \<noteq> []"
    and "\<forall>x \<in> set xs. CHR ''/'' \<notin> set x" and "\<forall>y \<in> set ys. CHR ''/'' \<notin> set y"
  shows "xs = ys"
proof -
  have "join_with ''/'' xs = join_with ''/'' ys"
    using assms(1-3) by (auto simp: render_path_def split: if_splits)
  then show ?thesis using split_on_join [of xs] split_on_join [of ys] assms by metis
qed

text \<open>Different clean keys live at different paths of the same directory.\<close>

lemma path_join_inj:
  assumes "clean_key k" and "clean_key l" and "path_join d k = path_join d l"
  shows "k = l"
proof -
  have seg: "\<forall>x \<in> set (dir_segs d @ split_on CHR ''/'' m). CHR ''/'' \<notin> set x" for m
    using dir_segs_no_slash split_on_no_sep by (auto dest: bspec)
  have "dir_segs d @ split_on CHR ''/'' k = dir_segs d @ split_on CHR ''/'' l"
    using assms seg by (intro render_path_inj [of "dir_rooted d"]) (auto simp: path_join_clean_key)
  then show ?thesis by (metis join_split_on same_append_eq)
qed

section \<open>Base names\<close>

text \<open>A base name holds no slash, unless it is the root itself.\<close>

lemma path_base_no_slash: "path_base p = ''/'' \<or> CHR ''/'' \<notin> set (path_base p)"
proof (cases "p = []")
  case True
  then show ?thesis by (simp add: path_base_def)
next
  case False
  define q where "q = rev (dropWhile (\<lambda>c. c = CHR ''/'') (rev p))"
  define r where "r = (case last_index CHR ''/'' q of Some i \<Rightarrow> drop (Suc i) q | None \<Rightarrow> q)"
  have "CHR ''/'' \<notin> set r"
  proof (cases "last_index CHR ''/'' q")
    case None
    then have "r = q" by (simp only: r_def option.case)
    moreover have "CHR ''/'' \<notin> set q" using None by (rule last_index_None [THEN iffD1])
    ultimately show ?thesis by simp
  next
    case (Some i)
    then have "r = drop (Suc i) q" by (simp only: r_def option.case)
    with last_index_Some [OF Some] show ?thesis by simp
  qed
  moreover have "path_base p = (if r = [] then ''/'' else r)"
    unfolding path_base_def Let_def r_def q_def using False by (simp only: if_False)
  ultimately show ?thesis by simp
qed

lemma path_base_nonempty: "path_base p \<noteq> []"
  by (simp add: path_base_def Let_def)

end
