(* ===== verification/Http.thy ===== *)
theory Http
  imports ShortLink Session Storage GoPath
begin

text \<open>
  What a handler sees and produces: the package variables of \<open>config.go\<close> as the record
  \<open>settings\<close>, a routed request, the response with the JSON structures the handlers encode, the
  server's mutable state, and the \<open>platform\<close> the code runs on.

  A response header set inside a handler replaces one a middleware set before it. The body of a
  multipart request is the sequence of its parts and how the stream ends.
\<close>

section \<open>Settings, state, platform\<close>

record settings =
  maxContentLength :: int
  apiToken :: string
  webPortal :: bool
  noListing :: bool
  appendOnly :: bool
  noFilenameURL :: bool
  maxListLimit :: int
  readOnly :: bool
  session :: session_cfg
  oidcEnabled :: bool

record 's server =
  conn :: dbconn
  store :: 's

text \<open>Database calls and blob calls act on their half of the state.\<close>

definition on_db :: "(dbconn \<Rightarrow> 'a \<times> dbconn) \<Rightarrow> 's server \<Rightarrow> 'a \<times> 's server" where
  "on_db f srv = (case f (conn srv) of (r, c) \<Rightarrow> (r, srv\<lparr>conn := c\<rparr>))"

definition on_store :: "('s \<Rightarrow> 'a \<times> 's) \<Rightarrow> 's server \<Rightarrow> 'a \<times> 's server" where
  "on_store f srv = (case f (store srv) of (r, s) \<Rightarrow> (r, srv\<lparr>store := s\<rparr>))"

abbreviation tables_of :: "'s server \<Rightarrow> tables" where
  "tables_of srv \<equiv> db (conn srv)"

section \<open>Requests\<close>

datatype authKind = StaticKind | SessionKind

record requestAuth =
  Kind :: authKind
  auth_Subject :: string
  auth_Via :: string
  Perms :: permissionSet

record part =
  FormName :: string
  filename_param :: string
  content :: reader

record multipart =
  parts :: "part list"
  stream_end :: read_end

text \<open>
  \<open>form\<close> is \<open>r.MultipartReader()\<close>, \<open>json_tags\<close> the decoded \<open>AddTagsRequest\<close>, \<open>wall\<close> the
  instant a session token is verified at and \<open>context_auth\<close> the credential \<open>requireToken\<close>
  attaches.
\<close>

record request =
  req_method :: string
  authorization :: string
  wall :: int
  query_param :: "string \<Rightarrow> string"
  form :: "multipart result"
  json_tags :: "string list result"
  context_auth :: "requestAuth option"

definition part_FileName :: "part \<Rightarrow> string" where
  "part_FileName p = (if filename_param p = [] then [] else path_base (filename_param p))"

section \<open>Responses\<close>

record FileInfo =
  fi_Name :: string
  fi_Size :: int
  fi_Modified :: string
  fi_URL :: string
  fi_MimeType :: string
  fi_Tags :: "string list"

definition fileInfoFromRecord :: "FileRecord \<Rightarrow> string list \<Rightarrow> FileInfo" where
  "fileInfoFromRecord rec ts =
     \<lparr>fi_Name = DisplayName rec, fi_Size = Size rec, fi_Modified = Modified rec,
      fi_URL = ''/s/'' @ Slug rec, fi_MimeType = MimeType rec, fi_Tags = ts\<rparr>"

text \<open>
  One constructor per encoded structure; \<open>Failure\<close> is any of them with \<open>Success: false\<close> and an
  \<open>Error\<close>. \<open>Content\<close> is what \<open>http.ServeContent\<close> serves ranges of and answers preconditions for.
\<close>

record ConfigResponse =
  MaxContentLength :: int
  MaxListLimit :: int
  FilenameURLsEnabled :: bool
  OidcEnabled :: bool

record DatabaseHealth =
  SchemaVersion :: int
  Snapshot :: string
  Generation :: int
  AgeNanos :: "int option"

datatype body =
    Empty
  | PlainText string
  | Failure string
  | JUpload string FileInfo bool
  | JDelete string
  | JFiles "FileInfo list" nat
  | JTags "TagInfo list" nat
  | JFileTags string "string list" "(string \<times> string) list" string
  | JStats int int string
  | JConfig ConfigResponse
  | JHealth string bool DatabaseHealth
  | Content bytes int

record response =
  status :: nat
  headers :: "(string \<times> string) list"
  body :: body

definition json :: "nat \<Rightarrow> body \<Rightarrow> response" where
  "json st b = \<lparr>status = st, headers = [(''Content-Type'', ''application/json'')], body = b\<rparr>"

definition http_error :: "string \<Rightarrow> nat \<Rightarrow> response" where
  "http_error msg st =
     \<lparr>status = st, headers = [(''Content-Type'', ''text/plain; charset=utf-8''),
        (''X-Content-Type-Options'', ''nosniff'')], body = PlainText msg\<rparr>"

definition http_NotFound :: response where
  "http_NotFound = http_error ''404 page not found'' 404"

text \<open>
  What the handlers call and the model does not define: the blob store, the JWT library, the MIME
  table of the system, content sniffing, the Unicode case tables, \<open>%q\<close>, the file server of the
  static folder when it has an \<open>index.html\<close>, the two OIDC handlers, which use neither the
  database nor the blob store, and the report of the snapshot loops in \<open>/api/health\<close>.
\<close>

record 's platform =
  Put :: "string \<Rightarrow> reader \<Rightarrow> int \<Rightarrow> 's \<Rightarrow> (blob_error + int) \<times> 's"
  Get :: "string \<Rightarrow> 's \<Rightarrow> (blob_error + bytes \<times> BlobInfo) \<times> 's"
  Delete :: "string \<Rightarrow> 's \<Rightarrow> blob_error option \<times> 's"
  jwt :: jwt_lib
  TypeByExtension :: "string \<Rightarrow> string"
  DetectContentType :: "bytes \<Rightarrow> string"
  unicodeLower :: "string \<Rightarrow> string"
  goQuote :: "string \<Rightarrow> string"
  fileServer :: "(request \<Rightarrow> response) option"
  oidcHandler :: "string \<Rightarrow> request \<Rightarrow> response"
  databaseHealth :: DatabaseHealth

text \<open>\<open>w.Header().Set\<close> done before the handler runs.\<close>

definition set_before :: "(string \<times> string) list \<Rightarrow> response \<Rightarrow> response" where
  "set_before hs resp =
     resp\<lparr>headers := filter (\<lambda>(k, v). k \<notin> fst ` set (headers resp)) hs @ headers resp\<rparr>"

type_synonym 's handler = "request \<Rightarrow> 's server \<Rightarrow> response \<times> 's server"

lemma json_simps [simp]:
  "status (json st b) = st" "body (json st b) = b"
  by (simp_all add: json_def)

lemma http_error_simps [simp]:
  "status (http_error m st) = st" "body (http_error m st) = PlainText m"
  by (simp_all add: http_error_def)

lemma http_NotFound_status [simp]: "status http_NotFound = 404"
  by (simp add: http_NotFound_def)

lemma set_before_simps [simp]:
  "status (set_before hs r) = status r" "body (set_before hs r) = body r"
  by (simp_all add: set_before_def)

lemma on_db_conn: "on_db f srv = (r, srv1) \<Longrightarrow> f (conn srv) = (r, conn srv1) \<and> store srv1 = store srv"
  by (auto simp: on_db_def split: prod.splits)

lemma on_store_store:
  "on_store f srv = (r, srv1) \<Longrightarrow> f (store srv) = (r, store srv1) \<and> conn srv1 = conn srv"
  by (auto simp: on_store_def split: prod.splits)

end
