(* ===== verification/Auth.thy ===== *)
theory Auth
  imports Http
begin

text \<open>
  Who a request is from and what it may do: \<open>server/token.go\<close> and the read-only guard of
  \<open>server/readonly.go\<close>. A middleware is a function from handlers to handlers.
\<close>

definition writeUnauthorized :: "string \<Rightarrow> response" where
  "writeUnauthorized message = json 401 (Failure message)"

definition writeForbidden :: "string \<Rightarrow> response" where
  "writeForbidden message = json 403 (Failure message)"

definition permissionDeniedError :: "string \<Rightarrow> string" where
  "permissionDeniedError perm =
     ''Access denied: this credential does not have the '' @ perm @ '' permission''"

definition authConfigured :: "settings \<Rightarrow> bool" where
  "authConfigured cfg \<longleftrightarrow> apiToken cfg \<noteq> [] \<or> sessionAuthEnabled (session cfg)"

definition bearerToken :: "request \<Rightarrow> string" where
  "bearerToken r =
     (if prefix ''Bearer '' (authorization r) then drop 7 (authorization r) else authorization r)"

definition resolveAuth :: "settings \<Rightarrow> 's platform \<Rightarrow> request \<Rightarrow> requestAuth option" where
  "resolveAuth cfg pf r =
     (let presented = bearerToken r in
      if presented = [] then None
      else if apiToken cfg \<noteq> [] \<and> presented = apiToken cfg then
        Some \<lparr>Kind = StaticKind, auth_Subject = [], auth_Via = [],
              Perms = permissionSetFrom allPermissions\<rparr>
      else
        (case verifySessionTokenAt (jwt pf) (session cfg) presented (wall r) of
           Inr claims \<Rightarrow>
             Some \<lparr>Kind = SessionKind, auth_Subject = c_Subject claims, auth_Via = c_Via claims,
                   Perms = permissionSetFrom (c_Perms claims)\<rparr>
         | Inl e \<Rightarrow> None))"

definition authenticateRequest :: "settings \<Rightarrow> 's platform \<Rightarrow> request \<Rightarrow> bool" where
  "authenticateRequest cfg pf r \<longleftrightarrow> resolveAuth cfg pf r \<noteq> None"

definition hasPermission :: "request \<Rightarrow> string \<Rightarrow> bool" where
  "hasPermission r perm = (case context_auth r of None \<Rightarrow> False | Some auth \<Rightarrow> has (Perms auth) perm)"

text \<open>The empty string is \<open>none is missing\<close>.\<close>

fun firstMissingPermission :: "request \<Rightarrow> string list \<Rightarrow> string" where
  "firstMissingPermission r [] = []"
| "firstMissingPermission r (perm # perms) =
     (if \<not> hasPermission r perm then perm else firstMissingPermission r perms)"

definition requireToken :: "settings \<Rightarrow> 's platform \<Rightarrow> 's handler \<Rightarrow> 's handler" where
  "requireToken cfg pf nxt r srv =
     (if \<not> authConfigured cfg then
        (writeUnauthorized ''Access denied. No API token configured on server.'', srv)
      else if bearerToken r = [] then
        (writeUnauthorized ''Authentication required. Provide a token in the Authorization header.'', srv)
      else
        (case resolveAuth cfg pf r of
           None \<Rightarrow> (writeUnauthorized ''Invalid authentication token'', srv)
         | Some auth \<Rightarrow> nxt (r\<lparr>context_auth := Some auth\<rparr>) srv))"

text \<open>\<open>inHandlerPermission\<close>: the refusal it writes, or nothing when the caller may proceed.\<close>

definition inHandlerPermission :: "request \<Rightarrow> string \<Rightarrow> response option" where
  "inHandlerPermission r perm =
     (if hasPermission r perm then None else Some (writeForbidden (permissionDeniedError perm)))"

definition requirePermission :: "string \<Rightarrow> 's handler \<Rightarrow> 's handler" where
  "requirePermission perm nxt r srv =
     (case inHandlerPermission r perm of Some refusal \<Rightarrow> (refusal, srv) | None \<Rightarrow> nxt r srv)"

definition mayRequireToken :: "settings \<Rightarrow> 's platform \<Rightarrow> 's handler \<Rightarrow> 's handler" where
  "mayRequireToken cfg pf nxt r srv =
     (if noListing cfg then requireToken cfg pf nxt r srv else nxt r srv)"

definition rejectWhenReadOnly :: "settings \<Rightarrow> 's handler \<Rightarrow> 's handler" where
  "rejectWhenReadOnly cfg nxt r srv =
     (if readOnly cfg then (json 403 (Failure ''This instance is read-only''), srv) else nxt r srv)"

section \<open>What the middlewares let through\<close>

lemma firstMissing_none:
  "[] \<notin> set perms \<Longrightarrow> firstMissingPermission r perms = [] \<longleftrightarrow> (\<forall>p \<in> set perms. hasPermission r p)"
  by (induction perms) auto

lemma firstMissing_some:
  "firstMissingPermission r perms = p \<Longrightarrow> p \<noteq> [] \<Longrightarrow> p \<in> set perms \<and> \<not> hasPermission r p"
  by (induction perms) (auto split: if_splits)

lemma requireToken_cases:
  "requireToken cfg pf nxt r srv = (resp, srv1) \<Longrightarrow>
     (\<exists>m. resp = writeUnauthorized m \<and> srv1 = srv \<and> (resolveAuth cfg pf r = None \<or> \<not> authConfigured cfg))
     \<or> (\<exists>auth. resolveAuth cfg pf r = Some auth \<and> nxt (r\<lparr>context_auth := Some auth\<rparr>) srv = (resp, srv1))"
  by (auto simp: requireToken_def resolveAuth_def Let_def split: if_splits option.splits)

lemma requirePermission_cases:
  "requirePermission perm nxt r srv = (resp, srv1) \<Longrightarrow>
     (resp = writeForbidden (permissionDeniedError perm) \<and> srv1 = srv \<and> \<not> hasPermission r perm)
     \<or> (hasPermission r perm \<and> nxt r srv = (resp, srv1))"
  by (auto simp: requirePermission_def inHandlerPermission_def split: if_splits)

lemma rejectWhenReadOnly_cases:
  "rejectWhenReadOnly cfg nxt r srv = (resp, srv1) \<Longrightarrow>
     (readOnly cfg \<and> status resp = 403 \<and> srv1 = srv) \<or> (\<not> readOnly cfg \<and> nxt r srv = (resp, srv1))"
  by (auto simp: rejectWhenReadOnly_def split: if_splits)

text \<open>The guard of every route that changes data.\<close>

definition guarded :: "settings \<Rightarrow> 's platform \<Rightarrow> string \<Rightarrow> 's handler \<Rightarrow> 's handler" where
  "guarded cfg pf perm h = requireToken cfg pf (requirePermission perm (rejectWhenReadOnly cfg h))"

definition authorized :: "settings \<Rightarrow> 's platform \<Rightarrow> request \<Rightarrow> string \<Rightarrow> bool" where
  "authorized cfg pf r perm \<longleftrightarrow>
     (case resolveAuth cfg pf r of None \<Rightarrow> False | Some auth \<Rightarrow> has (Perms auth) perm)"

lemma hasPermission_context [simp]:
  "hasPermission (r\<lparr>context_auth := Some auth\<rparr>) perm = has (Perms auth) perm"
  by (simp add: hasPermission_def)

lemma resolveAuth_configured: "resolveAuth cfg pf r = Some auth \<Longrightarrow> authConfigured cfg"
  by (auto simp: resolveAuth_def authConfigured_def verifySessionTokenAt_def Let_def
      split: if_splits sum.splits)

lemma guarded_spec:
  "guarded cfg pf perm h r srv =
     (case resolveAuth cfg pf r of
        None \<Rightarrow> (writeUnauthorized (if \<not> authConfigured cfg
                   then ''Access denied. No API token configured on server.''
                   else if bearerToken r = []
                   then ''Authentication required. Provide a token in the Authorization header.''
                   else ''Invalid authentication token''), srv)
      | Some auth \<Rightarrow>
          if \<not> has (Perms auth) perm then (writeForbidden (permissionDeniedError perm), srv)
          else if readOnly cfg then (json 403 (Failure ''This instance is read-only''), srv)
          else h (r\<lparr>context_auth := Some auth\<rparr>) srv)"
proof (cases "resolveAuth cfg pf r")
  case (Some auth)
  then have "authConfigured cfg" by (rule resolveAuth_configured)
  moreover from Some have "bearerToken r \<noteq> []" by (auto simp: resolveAuth_def)
  ultimately show ?thesis using Some
    by (simp add: guarded_def requireToken_def requirePermission_def inHandlerPermission_def
        rejectWhenReadOnly_def)
qed (simp add: guarded_def requireToken_def)

end
