(* ===== verification/Handlers.thy ===== *)
theory Handlers
  imports Auth
begin

text \<open>
  The handlers that are one pass over the state: listing, statistics, tags, deletion, the
  configuration and health endpoints (\<open>list_files.go\<close>, \<open>stats.go\<close>, \<open>tag_handlers.go\<close>,
  \<open>delete_file.go\<close>, \<open>config.go\<close>, \<open>health_check.go\<close>). A path variable is an argument.
\<close>

section \<open>Listing\<close>

text \<open>
  The clamped \<open>limit\<close> and \<open>offset\<close> parameters. \<open>maxListLimit\<close> is positive once the
  configuration has been read.
\<close>

definition page_limit :: "settings \<Rightarrow> request \<Rightarrow> nat" where
  "page_limit cfg r =
     (let limit = parseInt (query_param r ''limit'') (maxListLimit cfg) in
      nat (if limit \<le> 0 \<or> limit > maxListLimit cfg then maxListLimit cfg else limit))"

definition page_offset :: "request \<Rightarrow> nat" where
  "page_offset r =
     (let offset = parseInt (query_param r ''offset'') 0 in nat (if offset < 0 then 0 else offset))"

definition listFilesHandler :: "settings \<Rightarrow> 's handler" where
  "listFilesHandler cfg r srv =
     (case on_db (listLiveRecords (page_offset r) (page_limit cfg r)
             (query_param r ''search'') (query_param r ''order'')) srv of
        (Inl e, s1) \<Rightarrow> (json 500 (Failure e), s1)
      | (Inr records, s1) \<Rightarrow>
          (case on_db (tagsForSlugs (map Slug records)) s1 of
             (Inl e, s2) \<Rightarrow> (json 500 (Failure e), s2)
           | (Inr tagsBySlug, s2) \<Rightarrow>
               let fs = map (\<lambda>rec. fileInfoFromRecord rec (tagsBySlug (Slug rec))) records in
               (json 200 (JFiles fs (length fs)), s2)))"

definition listAllTagsHandler :: "settings \<Rightarrow> 's handler" where
  "listAllTagsHandler cfg r srv =
     (case on_db (listAllTags (page_offset r) (page_limit cfg r) (query_param r ''search'')) srv of
        (Inl e, s1) \<Rightarrow> (json 500 (Failure e), s1)
      | (Inr ts, s1) \<Rightarrow> (json 200 (JTags ts (length ts)), s1))"

definition statsHandler :: "'s handler" where
  "statsHandler r srv =
     (case on_db fileStats srv of
        (Inl e, s1) \<Rightarrow> (json 500 (Failure e), s1)
      | (Inr (totalFiles, totalSize, lastUpload), s1) \<Rightarrow>
          (json 200 (JStats totalFiles totalSize lastUpload), s1))"

section \<open>Tags of a file\<close>

definition listFileTagsHandler :: "string \<Rightarrow> 's handler" where
  "listFileTagsHandler slug r srv =
     (case on_db (liveSlugExists slug) srv of
        (Inl e, s1) \<Rightarrow> (json 500 (Failure e), s1)
      | (Inr isLive, s1) \<Rightarrow>
          if \<not> isLive then (json 404 (Failure ''File not found''), s1)
          else
            (case on_db (tagsOfSlug slug) s1 of
               (Inl e, s2) \<Rightarrow> (json 500 (Failure e), s2)
             | (Inr ts, s2) \<Rightarrow> (json 200 (JFileTags slug ts [] []), s2)))"

text \<open>The messages of \<open>parseTag\<close>.\<close>

definition tagNameCharsetHint :: string where
  "tagNameCharsetHint =
     ''letters, digits, '' @ [CHR 0x27] @ ''_'' @ [CHR 0x27] @ '', '' @ [CHR 0x27] @ ''-'' @ [CHR 0x27]
     @ '', '' @ [CHR 0x27] @ ''.'' @ [CHR 0x27] @ '' and '' @ [CHR 0x27] @ ''/'' @ [CHR 0x27]
     @ '' as a namespace separator''"

definition tagSuffixCharsetHint :: string where
  "tagSuffixCharsetHint =
     ''letters, digits, '' @ [CHR 0x27] @ ''_'' @ [CHR 0x27] @ '', '' @ [CHR 0x27] @ ''-'' @ [CHR 0x27]
     @ '' and '' @ [CHR 0x27] @ ''.'' @ [CHR 0x27]"

fun tag_error_text :: "(string \<Rightarrow> string) \<Rightarrow> tag_error \<Rightarrow> string" where
  "tag_error_text q TagEmpty = ''tag cannot be empty''"
| "tag_error_text q (TagBadName n) = ''invalid tag name '' @ q n @ '': use '' @ tagNameCharsetHint"
| "tag_error_text q (TagBadSuffix x) = ''invalid tag suffix '' @ q x @ '': use '' @ tagSuffixCharsetHint"
| "tag_error_text q (TagTooLong v) = ''tag '' @ q v @ '' is too long (max 255 characters)''"

definition moved_message :: string where
  "moved_message = ''One or more tags were moved from another file''"

text \<open>
  \<open>addFileTagsHandler\<close> up to the permission check, and the attaching itself. Between the two other
  requests may run.
\<close>

definition add_tags_check :: "'s platform \<Rightarrow> string \<Rightarrow> request \<Rightarrow> 's server \<Rightarrow> (response + Tag list) \<times> 's server" where
  "add_tags_check pf slug r srv =
     (case json_tags r of
        Inl e \<Rightarrow> (Inl (json 400 (Failure (''Invalid JSON body: '' @ e))), srv)
      | Inr raw \<Rightarrow>
     (case parseTagList raw of
        Inl e \<Rightarrow> (Inl (json 400 (Failure (tag_error_text (goQuote pf) e))), srv)
      | Inr ts \<Rightarrow>
        if ts = [] then (Inl (json 400 (Failure ''No tags provided'')), srv)
        else
     (case on_db (liveSlugExists slug) srv of
        (Inl e, s1) \<Rightarrow> (Inl (json 500 (Failure e)), s1)
      | (Inr isLive, s1) \<Rightarrow>
        if \<not> isLive then (Inl (json 404 (Failure ''File not found'')), s1)
        else
     (case on_db (tagsOwnedByAnotherFile ts slug) s1 of
        (Inl e, s2) \<Rightarrow> (Inl (json 500 (Failure e)), s2)
      | (Inr owners, s2) \<Rightarrow>
     (case (if 0 < length owners then inHandlerPermission r permTagRemove else None) of
        Some refusal \<Rightarrow> (Inl refusal, s2)
      | None \<Rightarrow> (Inr ts, s2))))))"

definition add_tags_apply :: "string \<Rightarrow> Tag list \<Rightarrow> 's server \<Rightarrow> response \<times> 's server" where
  "add_tags_apply slug ts srv =
     (case on_db (addTagsToSlug slug ts) srv of
        (Inl e, s1) \<Rightarrow> (json 500 (Failure (''Failed to add tags: '' @ e)), s1)
      | (Inr (list, moved), s1) \<Rightarrow>
          (json 200 (JFileTags slug list moved
             (if 0 < length moved then moved_message else [])), s1))"

definition addFileTagsHandler :: "'s platform \<Rightarrow> string \<Rightarrow> 's handler" where
  "addFileTagsHandler pf slug r srv =
     (case add_tags_check pf slug r srv of
        (Inl resp, s1) \<Rightarrow> (resp, s1)
      | (Inr ts, s1) \<Rightarrow> add_tags_apply slug ts s1)"

definition removeFileTagHandler :: "'s platform \<Rightarrow> string \<Rightarrow> string \<Rightarrow> 's handler" where
  "removeFileTagHandler pf slug raw r srv =
     (case parseTag raw of
        Inl e \<Rightarrow> (json 400 (Failure (tag_error_text (goQuote pf) e)), srv)
      | Inr tag \<Rightarrow>
     (case on_db (removeTagFromSlug slug tag) srv of
        (Inl e, s1) \<Rightarrow> (json 500 (Failure (''Failed to remove tag: '' @ e)), s1)
      | (Inr removed, s1) \<Rightarrow>
        if \<not> removed then
          (json 404 (Failure (''Tag '' @ Tag_String tag @ '' is not attached to this file'')), s1)
        else
     (case on_db (tagsOfSlug slug) s1 of
        (Inl e, s2) \<Rightarrow> (json 500 (Failure e), s2)
      | (Inr list, s2) \<Rightarrow>
          (json 200 (JFileTags slug list [] (''Tag '' @ Tag_String tag @ '' removed'')), s2))))"

section \<open>Deleting a file\<close>

text \<open>
  The two steps of \<open>deleteFileHandler\<close>: the tombstone, then the blob. Between them other requests
  may run.
\<close>

definition delete_record :: "settings \<Rightarrow> string \<Rightarrow> 's server \<Rightarrow> (response + FileRecord) \<times> 's server" where
  "delete_record cfg slug srv =
     (if appendOnly cfg then
        (Inl (json 403 (Failure ''Deletion is disabled (append-only mode).'')), srv)
      else
        (case on_db (softDeleteBySlug slug) srv of
           (Inl e, s1) \<Rightarrow> (Inl (json 500 (Failure e)), s1)
         | (Inr None, s1) \<Rightarrow> (Inl (json 404 (Failure ''File not found'')), s1)
         | (Inr (Some rec), s1) \<Rightarrow> (Inr rec, s1)))"

definition delete_blob :: "'s platform \<Rightarrow> FileRecord \<Rightarrow> 's server \<Rightarrow> response \<times> 's server" where
  "delete_blob pf rec srv =
     (case on_store (Delete pf (StorageKey rec)) srv of
        (Some e, s1) \<Rightarrow> (json 500 (Failure (''Failed to remove file data: '' @ blob_error_text e)), s1)
      | (None, s1) \<Rightarrow> (json 200 (JDelete ''File deleted successfully''), s1))"

definition deleteFileHandler :: "settings \<Rightarrow> 's platform \<Rightarrow> string \<Rightarrow> 's handler" where
  "deleteFileHandler cfg pf slug r srv =
     (case delete_record cfg slug srv of
        (Inl resp, s1) \<Rightarrow> (resp, s1)
      | (Inr rec, s1) \<Rightarrow> delete_blob pf rec s1)"

section \<open>Configuration and health\<close>

definition getConfigHandler :: "settings \<Rightarrow> 's platform \<Rightarrow> 's handler" where
  "getConfigHandler cfg pf r srv =
     (let resp = \<lparr>MaxContentLength = 0,
            MaxListLimit = (if \<not> noListing cfg then maxListLimit cfg else 0),
            FilenameURLsEnabled = (\<not> noFilenameURL cfg), OidcEnabled = oidcEnabled cfg\<rparr> in
      if authorization r \<noteq> [] then
        if \<not> authenticateRequest cfg pf r
        then (writeUnauthorized ''Invalid authentication token'', srv)
        else (json 200 (JConfig (resp\<lparr>MaxContentLength := maxContentLength cfg,
                MaxListLimit := maxListLimit cfg, FilenameURLsEnabled := \<not> noFilenameURL cfg\<rparr>)), srv)
      else (json 200 (JConfig resp), srv))"

definition roleName :: "settings \<Rightarrow> string" where
  "roleName cfg = (if readOnly cfg then ''read-only'' else ''writer'')"

definition healthCheckHandler :: "settings \<Rightarrow> 's platform \<Rightarrow> 's handler" where
  "healthCheckHandler cfg pf r srv =
     (json 200 (JHealth (roleName cfg) (readOnly cfg) (databaseHealth pf)), srv)"

end
