(* ===== verification/Upload.thy ===== *)
theory Upload
  imports Handlers
begin

text \<open>
  Uploading a file: \<open>server/upload_file.go\<close>. \<open>uploadFileHandler\<close> is cut at the calls that touch
  the shared state; a state of \<open>upload_state\<close> holds the local variables that are alive there.
  \<open>upload_run\<close> is the handler, the steps one after the other; \<open>Interleaving\<close> runs the same steps
  among those of other requests.
\<close>

section \<open>Reading a tags field\<close>

text \<open>
  \<open>io.ReadAll(io.LimitReader(p, n))\<close>, reading at most \<open>k + 1\<close> bytes at a time.
\<close>

function read_limited :: "nat \<Rightarrow> nat \<Rightarrow> reader \<Rightarrow> bytes \<Rightarrow> bytes result" where
  "read_limited k n r acc =
     (if n = 0 then Inr acc
      else
        (case reader_read (min (Suc k) n) r of
           ((b, None), r') \<Rightarrow> read_limited k (n - length b) r' (acc @ b)
         | ((b, Some EOF), r') \<Rightarrow> Inr (acc @ b)
         | ((b, Some (ReadErr e)), r') \<Rightarrow> Inl e))"
  by pat_completeness auto
termination
  by (relation "measure (\<lambda>(k, n, r, acc). rest_size r)") (auto intro: reader_read_continues [OF sym])

declare read_limited.simps [simp del]

text \<open>\<open>Inr None\<close>: the part is not a tags field.\<close>

definition readTagField :: "part \<Rightarrow> string option result" where
  "readTagField p =
     (if FormName p \<noteq> ''tags'' then Inr None
      else
        (case read_limited 511 (maxTagFieldSize + 1) (content p) [] of
           Inl e \<Rightarrow> Inl (''Failed to read tags field: '' @ e)
         | Inr value \<Rightarrow>
             if length value > maxTagFieldSize then Inl ''Tag is too long (max 4096 bytes)''
             else Inr (Some (trim_space value))))"

section \<open>The local state\<close>

record upload_job =
  job_name :: string
  job_mime :: string
  job_part :: part
  job_rest :: "part list"
  job_end :: read_end
  job_tags :: "string list"

datatype upload_state =
    UCheck upload_job
  | UReserve upload_job
  | UStore upload_job FileRecord "FileRecord option"
  | UScan upload_job FileRecord "FileRecord option" int
  | UAuthorize FileRecord "FileRecord option" int "Tag list"
  | UFinalize FileRecord "FileRecord option" int "Tag list"
  | UApply FileRecord "FileRecord option" "Tag list"
  | UReport FileRecord "FileRecord option"
  | UReclaim FileRecord response
  | UDiscard FileRecord response
  | UAbort FileRecord response
  | UDone response

section \<open>The steps\<close>

definition bad_request :: "string \<Rightarrow> response" where
  "bad_request e = json 400 (Failure e)"

definition form_error :: "string \<Rightarrow> response" where
  "form_error e = bad_request (''Failed to parse form: '' @ e)"

text \<open>The parts up to the file; the tags fields among them are collected.\<close>

fun scan_file ::
  "part list \<Rightarrow> read_end \<Rightarrow> string list \<Rightarrow> response + (part \<times> part list \<times> string list)" where
  "scan_file [] EOF rawTags = Inl (bad_request ''No file provided'')"
| "scan_file [] (ReadErr e) rawTags = Inl (form_error e)"
| "scan_file (p # ps) fin rawTags =
     (if FormName p = ''file'' then Inr (p, ps, rawTags)
      else
        (case readTagField p of
           Inl e \<Rightarrow> Inl (bad_request e)
         | Inr None \<Rightarrow> scan_file ps fin rawTags
         | Inr (Some value) \<Rightarrow> scan_file ps fin (rawTags @ [value])))"

definition upload_mime :: "'s platform \<Rightarrow> string \<Rightarrow> string" where
  "upload_mime pf displayName =
     (let ext = to_lower (unicodeLower pf) (path_ext displayName) in
      if ext \<noteq> [] then TypeByExtension pf ext else [])"

definition upload_start :: "settings \<Rightarrow> 's platform \<Rightarrow> request \<Rightarrow> upload_state" where
  "upload_start cfg pf r =
     (case form r of
        Inl e \<Rightarrow> UDone (form_error e)
      | Inr m \<Rightarrow>
          (case scan_file (parts m) (stream_end m) [] of
             Inl resp \<Rightarrow> UDone resp
           | Inr (p, rest, rawTags) \<Rightarrow>
               if part_FileName p = [] then UDone (bad_request ''No file selected'')
               else
                 let displayName = path_base (path_clean (part_FileName p));
                     job = \<lparr>job_name = displayName, job_mime = upload_mime pf displayName,
                            job_part = p, job_rest = rest, job_end = stream_end m,
                            job_tags = rawTags\<rparr>
                 in if \<not> appendOnly cfg then UCheck job else UReserve job))"

definition upload_check :: "request \<Rightarrow> upload_job \<Rightarrow> 's server \<Rightarrow> upload_state \<times> 's server" where
  "upload_check r job srv =
     (case on_db (liveRecordByName (job_name job)) srv of
        (Inl e, s1) \<Rightarrow>
          (UDone (json 500 (Failure (''Failed to check for an existing file: '' @ e))), s1)
      | (Inr existing, s1) \<Rightarrow>
          (case (if existing \<noteq> None then inHandlerPermission r permFileDelete else None) of
             Some refusal \<Rightarrow> (UDone refusal, s1)
           | None \<Rightarrow> (UReserve job, s1)))"

definition upload_reserve :: "settings \<Rightarrow> upload_job \<Rightarrow> 's server \<Rightarrow> upload_state \<times> 's server" where
  "upload_reserve cfg job srv =
     (case on_db (reserveUpload (appendOnly cfg) (job_name job) (job_mime job)) srv of
        (Inl e, s1) \<Rightarrow> (UDone (json 500 (Failure (''Failed to reserve upload: '' @ e))), s1)
      | (Inr (rec, replaced), s1) \<Rightarrow> (UStore job rec replaced, s1))"

definition upload_store ::
  "settings \<Rightarrow> 's platform \<Rightarrow> upload_job \<Rightarrow> FileRecord \<Rightarrow> FileRecord option \<Rightarrow> 's server
     \<Rightarrow> upload_state \<times> 's server" where
  "upload_store cfg pf job rec replaced srv =
     (case on_store (Put pf (StorageKey rec) (content (job_part job)) (maxContentLength cfg)) srv of
        (Inl BlobTooLarge, s1) \<Rightarrow>
          (UDiscard rec (json 413 (Failure (''File too large. Maximum size is ''
             @ show_int (maxContentLength cfg) @ '' bytes''))), s1)
      | (Inl e, s1) \<Rightarrow>
          (UDiscard rec (json 500 (Failure (''Failed to save file: '' @ blob_error_text e))), s1)
      | (Inr written, s1) \<Rightarrow> (UScan job rec replaced written, s1))"

text \<open>The parts after the file, and the validation of all tags.\<close>

fun scan_rest :: "part list \<Rightarrow> read_end \<Rightarrow> string list \<Rightarrow> response + string list" where
  "scan_rest [] EOF rawTags = Inr rawTags"
| "scan_rest [] (ReadErr e) rawTags = Inl (form_error e)"
| "scan_rest (p # ps) fin rawTags =
     (case readTagField p of
        Inl e \<Rightarrow> Inl (bad_request e)
      | Inr None \<Rightarrow> scan_rest ps fin rawTags
      | Inr (Some value) \<Rightarrow> scan_rest ps fin (rawTags @ [value]))"

definition upload_scan ::
  "'s platform \<Rightarrow> upload_job \<Rightarrow> FileRecord \<Rightarrow> FileRecord option \<Rightarrow> int \<Rightarrow> upload_state" where
  "upload_scan pf job rec replaced written =
     (case scan_rest (job_rest job) (job_end job) (job_tags job) of
        Inl resp \<Rightarrow> UDiscard rec resp
      | Inr rawTags \<Rightarrow>
          (case parseTagList rawTags of
             Inl e \<Rightarrow> UDiscard rec (bad_request (tag_error_text (goQuote pf) e))
           | Inr ts \<Rightarrow> UAuthorize rec replaced written ts))"

definition uploadTagPermissions ::
  "Tag list \<Rightarrow> FileRecord option \<Rightarrow> dbconn \<Rightarrow> string list result \<times> dbconn" where
  "uploadTagPermissions ts replaced c =
     (let required = (if 0 < length ts then [permTagAdd] else []) in
      case tagsOwnedByAnotherFile ts [] c of
        (Inl e, c1) \<Rightarrow> (Inl e, c1)
      | (Inr owners, c1) \<Rightarrow>
          (let needsRemove = (0 < length owners) in
           case (if \<not> needsRemove then
                   (case replaced of
                      None \<Rightarrow> (Inr needsRemove, c1)
                    | Some old \<Rightarrow>
                        (case tagsOfSlug (Slug old) c1 of
                           (Inl e, c2) \<Rightarrow> (Inl e, c2)
                         | (Inr remaining, c2) \<Rightarrow> (Inr (0 < length remaining), c2)))
                 else (Inr needsRemove, c1)) of
             (Inl e, c2) \<Rightarrow> (Inl e, c2)
           | (Inr needsRemove, c2) \<Rightarrow>
               (Inr (if needsRemove then required @ [permTagRemove] else required), c2)))"

definition upload_authorize ::
  "request \<Rightarrow> FileRecord \<Rightarrow> FileRecord option \<Rightarrow> int \<Rightarrow> Tag list \<Rightarrow> 's server
     \<Rightarrow> upload_state \<times> 's server" where
  "upload_authorize r rec replaced written ts srv =
     (case on_db (uploadTagPermissions ts replaced) srv of
        (Inl e, s1) \<Rightarrow> (UDiscard rec (json 500 (Failure e)), s1)
      | (Inr tagPerms, s1) \<Rightarrow>
          (let missing = firstMissingPermission r tagPerms in
           if missing \<noteq> [] then
             (UDiscard rec (writeForbidden (permissionDeniedError missing)), s1)
           else (UFinalize rec replaced written ts, s1)))"

fun lookup_error_text :: "lookup_error \<Rightarrow> string" where
  "lookup_error_text RecordNotFound = ''record not found''"
| "lookup_error_text (LookupErr e) = e"

definition finalize_now :: "string \<Rightarrow> int \<Rightarrow> dbconn \<Rightarrow> (lookup_error + FileRecord) \<times> dbconn" where
  "finalize_now slug written c =
     (case time_now c of (now, c1) \<Rightarrow> finalizeUpload slug written now c1)"

definition upload_finalize ::
  "FileRecord \<Rightarrow> FileRecord option \<Rightarrow> int \<Rightarrow> Tag list \<Rightarrow> 's server \<Rightarrow> upload_state \<times> 's server" where
  "upload_finalize rec replaced written ts srv =
     (case on_db (finalize_now (Slug rec) written) srv of
        (Inl e, s1) \<Rightarrow>
          (UDone (json 500 (Failure (''Failed to finalize upload: '' @ lookup_error_text e))), s1)
      | (Inr finalRec, s1) \<Rightarrow> (UApply finalRec replaced ts, s1))"

definition replacedSlug :: "FileRecord option \<Rightarrow> string" where
  "replacedSlug replaced = (case replaced of None \<Rightarrow> [] | Some old \<Rightarrow> Slug old)"

definition upload_apply ::
  "FileRecord \<Rightarrow> FileRecord option \<Rightarrow> Tag list \<Rightarrow> 's server \<Rightarrow> upload_state \<times> 's server" where
  "upload_apply finalRec replaced ts srv =
     (case on_db (applyUploadTags (Slug finalRec) ts (replacedSlug replaced)) srv of
        (Inl e, s1) \<Rightarrow> (UDone (json 500 (Failure (''Failed to apply tags: '' @ e))), s1)
      | (Inr _, s1) \<Rightarrow> (UReport finalRec replaced, s1))"

definition upload_report ::
  "FileRecord \<Rightarrow> FileRecord option \<Rightarrow> 's server \<Rightarrow> upload_state \<times> 's server" where
  "upload_report finalRec replaced srv =
     (case on_db (tagsOfSlug (Slug finalRec)) srv of
        (Inl e, s1) \<Rightarrow> (UDone (json 500 (Failure e)), s1)
      | (Inr applied, s1) \<Rightarrow>
          (let resp = json 201 (JUpload ''File uploaded successfully''
                 (fileInfoFromRecord finalRec applied) (replaced \<noteq> None)) in
           case replaced of
             None \<Rightarrow> (UDone resp, s1)
           | Some old \<Rightarrow> (UReclaim old resp, s1)))"

text \<open>The best-effort deletion of the superseded blob, and the two halves of \<open>discard\<close>.\<close>

definition upload_reclaim ::
  "'s platform \<Rightarrow> FileRecord \<Rightarrow> response \<Rightarrow> 's server \<Rightarrow> upload_state \<times> 's server" where
  "upload_reclaim pf old resp srv =
     (case on_store (Delete pf (StorageKey old)) srv of (_, s1) \<Rightarrow> (UDone resp, s1))"

definition upload_discard ::
  "'s platform \<Rightarrow> FileRecord \<Rightarrow> response \<Rightarrow> 's server \<Rightarrow> upload_state \<times> 's server" where
  "upload_discard pf rec resp srv =
     (case on_store (Delete pf (StorageKey rec)) srv of (_, s1) \<Rightarrow> (UAbort rec resp, s1))"

definition upload_abort :: "FileRecord \<Rightarrow> response \<Rightarrow> 's server \<Rightarrow> upload_state \<times> 's server" where
  "upload_abort rec resp srv =
     (case on_db (abortUpload (Slug rec)) srv of (_, s1) \<Rightarrow> (UDone resp, s1))"

section \<open>The handler\<close>

fun upload_step ::
  "settings \<Rightarrow> 's platform \<Rightarrow> request \<Rightarrow> upload_state \<Rightarrow> 's server \<Rightarrow> upload_state \<times> 's server" where
  "upload_step cfg pf r (UCheck job) srv = upload_check r job srv"
| "upload_step cfg pf r (UReserve job) srv = upload_reserve cfg job srv"
| "upload_step cfg pf r (UStore job rec old) srv = upload_store cfg pf job rec old srv"
| "upload_step cfg pf r (UScan job rec old written) srv = (upload_scan pf job rec old written, srv)"
| "upload_step cfg pf r (UAuthorize rec old written ts) srv = upload_authorize r rec old written ts srv"
| "upload_step cfg pf r (UFinalize rec old written ts) srv = upload_finalize rec old written ts srv"
| "upload_step cfg pf r (UApply rec old ts) srv = upload_apply rec old ts srv"
| "upload_step cfg pf r (UReport rec old) srv = upload_report rec old srv"
| "upload_step cfg pf r (UReclaim old resp) srv = upload_reclaim pf old resp srv"
| "upload_step cfg pf r (UDiscard rec resp) srv = upload_discard pf rec resp srv"
| "upload_step cfg pf r (UAbort rec resp) srv = upload_abort rec resp srv"
| "upload_step cfg pf r (UDone resp) srv = (UDone resp, srv)"

fun upload_rank :: "upload_state \<Rightarrow> nat" where
  "upload_rank (UCheck job) = 11"
| "upload_rank (UReserve job) = 10"
| "upload_rank (UStore job rec old) = 9"
| "upload_rank (UScan job rec old written) = 8"
| "upload_rank (UAuthorize rec old written ts) = 7"
| "upload_rank (UFinalize rec old written ts) = 6"
| "upload_rank (UApply rec old ts) = 5"
| "upload_rank (UReport rec old) = 4"
| "upload_rank (UReclaim old resp) = 3"
| "upload_rank (UDiscard rec resp) = 2"
| "upload_rank (UAbort rec resp) = 1"
| "upload_rank (UDone resp) = 0"

lemmas upload_phase_defs = upload_check_def upload_reserve_def upload_store_def upload_scan_def
  upload_authorize_def upload_finalize_def upload_apply_def upload_report_def upload_reclaim_def
  upload_discard_def upload_abort_def

lemma upload_step_decreases:
  "upload_step cfg pf r st srv = (st', srv') \<Longrightarrow> (\<forall>resp. st \<noteq> UDone resp) \<Longrightarrow>
   upload_rank st' < upload_rank st"
  by (cases st)
    (auto simp: upload_phase_defs Let_def
      split: prod.splits sum.splits option.splits if_splits blob_error.splits)

fun upload_result :: "upload_state \<Rightarrow> response option" where
  "upload_result (UDone resp) = Some resp"
| "upload_result st = None"

function upload_run ::
  "settings \<Rightarrow> 's platform \<Rightarrow> request \<Rightarrow> upload_state \<Rightarrow> 's server \<Rightarrow> response \<times> 's server" where
  "upload_run cfg pf r st srv =
     (case upload_result st of
        Some resp \<Rightarrow> (resp, srv)
      | None \<Rightarrow> (case upload_step cfg pf r st srv of (st', srv') \<Rightarrow> upload_run cfg pf r st' srv'))"
  by pat_completeness auto
termination
proof (relation "measure (\<lambda>(cfg, pf, r, st, srv). upload_rank st)", goal_cases)
  case 1
  show ?case by simp
next
  case (2 cfg pf r st srv st' srv')
  then have "upload_step cfg pf r st srv = (st', srv')" and "\<forall>resp. st \<noteq> UDone resp" by auto
  then have "upload_rank st' < upload_rank st" by (rule upload_step_decreases)
  then show ?case by simp
qed

declare upload_run.simps [simp del]

lemma upload_run_done [simp]: "upload_run cfg pf r (UDone resp) srv = (resp, srv)"
  by (simp add: upload_run.simps [of cfg pf r "UDone resp" srv])

definition uploadFileHandler :: "settings \<Rightarrow> 's platform \<Rightarrow> 's handler" where
  "uploadFileHandler cfg pf r srv = upload_run cfg pf r (upload_start cfg pf r) srv"

end
