(* ===== verification/Serve.thy ===== *)
theory Serve
  imports Auth
begin

text \<open>
  Serving bytes: \<open>server/serve_file.go\<close>, \<open>server/serve_tag.go\<close> and \<open>shortLinkHandler\<close>. Range
  requests and preconditions are applied by \<open>http.ServeContent\<close> to the \<open>Content\<close> of the
  response; a content type is chosen by it when the handler has set none.
\<close>

definition dangerousTypes :: "string list" where
  "dangerousTypes =
    [''text/javascript'', ''application/javascript'', ''application/x-javascript'', ''text/html'',
     ''application/html'', ''text/xml'', ''application/xml'', ''application/xhtml+xml'',
     ''image/svg+xml'', ''application/vnd.ms-excel'', ''application/x-msexcel'',
     ''application/x-excel'', ''application/x-mspowerpoint'', ''application/powerpoint'',
     ''application/x-powerpoint'', ''application/vnd.ms-powerpoint'',
     ''application/vnd.openxmlformats-officedocument'', ''application/x-zip-compressed'',
     ''application/zip'']"

fun isDangerous_loop :: "(string \<Rightarrow> string) \<Rightarrow> string \<Rightarrow> string list \<Rightarrow> bool" where
  "isDangerous_loop uni contentType [] = False"
| "isDangerous_loop uni contentType (dangerous # rest) =
     (if prefix (to_lower uni dangerous) (to_lower uni contentType) then True
      else isDangerous_loop uni contentType rest)"

definition isDangerousContentType :: "(string \<Rightarrow> string) \<Rightarrow> string \<Rightarrow> bool" where
  "isDangerousContentType uni contentType = isDangerous_loop uni contentType dangerousTypes"

text \<open>The content type of a record: stored, by extension, by sniffing; then made harmless.\<close>

definition detected_type :: "'s platform \<Rightarrow> FileRecord \<Rightarrow> bytes \<Rightarrow> string" where
  "detected_type pf rec blob =
     (let ct = MimeType rec;
          ct = (if ct = [] then
                  (let ext = to_lower (unicodeLower pf) (path_ext (DisplayName rec)) in
                   if ext \<noteq> [] then TypeByExtension pf ext else ct)
                else ct)
      in if ct = [] then DetectContentType pf (take 512 blob) else ct)"

definition served_type :: "'s platform \<Rightarrow> FileRecord \<Rightarrow> bytes \<Rightarrow> string" where
  "served_type pf rec blob =
     (let ct = detected_type pf rec blob in
      if isDangerousContentType (unicodeLower pf) ct then ''application/octet-stream'' else ct)"

definition content_headers :: "FileRecord \<Rightarrow> string \<Rightarrow> int \<Rightarrow> (string \<times> string) list" where
  "content_headers rec ct n =
     [(''X-Content-Type-Options'', ''nosniff''), (''X-Frame-Options'', ''DENY''),
      (''X-XSS-Protection'', ''1; mode=block'')]
     @ (if ct \<noteq> [] then [(''Content-Type'', ct)] else [])
     @ [(''Content-Length'', show_int n),
        (''Content-Disposition'', ''attachment; filename='' @ CHR 0x22 # DisplayName rec @ [CHR 0x22])]"

text \<open>What \<open>http.ServeContent\<close> does about a content type nobody has set: by extension, else by sniffing.\<close>

definition ServeContent_headers ::
  "'s platform \<Rightarrow> string \<Rightarrow> bytes \<Rightarrow> (string \<times> string) list \<Rightarrow> (string \<times> string) list" where
  "ServeContent_headers pf name blob hs =
     (case map_of hs ''Content-Type'' of
        Some _ \<Rightarrow> hs
      | None \<Rightarrow>
          let ct = TypeByExtension pf (path_ext name);
              ct = (if ct = [] then DetectContentType pf (take 512 blob) else ct)
          in hs @ [(''Content-Type'', ct)])"

definition serveFileRecord :: "'s platform \<Rightarrow> FileRecord \<Rightarrow> 's handler" where
  "serveFileRecord pf rec r srv =
     (case on_store (Get pf (StorageKey rec)) srv of
        (Inl BlobNotFound, s1) \<Rightarrow> (http_NotFound, s1)
      | (Inl e, s1) \<Rightarrow> (http_error ''Failed to open file'' 500, s1)
      | (Inr (blob, info), s1) \<Rightarrow>
          (\<lparr>status = 200,
            headers = ServeContent_headers pf (DisplayName rec) blob
                        (content_headers rec (served_type pf rec blob) (BlobSize info)),
            body = Content blob (ModTime info)\<rparr>, s1))"

definition shortLinkHandler :: "'s platform \<Rightarrow> string \<Rightarrow> 's handler" where
  "shortLinkHandler pf slug r srv =
     (case on_db (getFileRecord slug) srv of
        (Inl RecordNotFound, s1) \<Rightarrow> (http_NotFound, s1)
      | (Inl (LookupErr e), s1) \<Rightarrow> (http_error ''Failed to resolve short link'' 500, s1)
      | (Inr rec, s1) \<Rightarrow>
          if Deleted rec \<or> Pending rec then (http_NotFound, s1) else serveFileRecord pf rec r s1)"

definition filenameURLHandler :: "settings \<Rightarrow> 's platform \<Rightarrow> string \<Rightarrow> 's handler" where
  "filenameURLHandler cfg pf filename0 r srv =
     (if noFilenameURL cfg then (http_NotFound, srv)
      else
        let filename = path_base (path_clean filename0) in
        (case on_db (latestLiveRecordByName filename) srv of
           (Inl e, s1) \<Rightarrow> (http_error ''Failed to resolve file'' 500, s1)
         | (Inr None, s1) \<Rightarrow> (http_NotFound, s1)
         | (Inr (Some rec), s1) \<Rightarrow> serveFileRecord pf rec r s1))"

definition tagDownloadHandler :: "'s platform \<Rightarrow> string \<Rightarrow> 's handler" where
  "tagDownloadHandler pf raw r srv =
     (case parseTag raw of
        Inl e \<Rightarrow> (http_NotFound, srv)
      | Inr tag \<Rightarrow>
          (case on_db (liveRecordByTag (Name tag) (Suffix tag)) srv of
             (Inl e, s1) \<Rightarrow> (http_error ''Failed to resolve tag'' 500, s1)
           | (Inr None, s1) \<Rightarrow> (http_NotFound, s1)
           | (Inr (Some rec), s1) \<Rightarrow> serveFileRecord pf rec r s1))"

section \<open>Served types are harmless\<close>

lemma isDangerous_iff:
  "isDangerousContentType uni ct \<longleftrightarrow> (\<exists>d \<in> set dangerousTypes. prefix d (to_lower uni ct))"
proof -
  have low: "\<forall>d \<in> set dangerousTypes. map lower_char d = d \<and> is_ascii d" by code_simp
  have "isDangerous_loop uni ct ds \<longleftrightarrow> (\<exists>d \<in> set ds. prefix (to_lower uni d) (to_lower uni ct))" for ds
    by (induction ds) auto
  with low show ?thesis by (auto simp: isDangerousContentType_def to_lower_def)
qed

lemma octet_stream_harmless: "\<not> isDangerousContentType uni ''application/octet-stream''"
  unfolding isDangerous_iff by (simp add: to_lower_def is_ascii_def) code_simp

lemma served_type_harmless: "\<not> isDangerousContentType (unicodeLower pf) (served_type pf rec blob)"
  by (simp add: served_type_def Let_def octet_stream_harmless)

lemma served_type_nonempty:
  "(\<And>b. DetectContentType pf b \<noteq> []) \<Longrightarrow> served_type pf rec blob \<noteq> []"
  by (simp add: served_type_def detected_type_def Let_def)

lemma content_headers_in:
  "(''X-Content-Type-Options'', ''nosniff'') \<in> set (content_headers rec ct n)"
  "(''Content-Length'', show_int n) \<in> set (content_headers rec ct n)"
  "(''Content-Type'', v) \<in> set (content_headers rec ct n) \<longleftrightarrow> v = ct \<and> ct \<noteq> []"
  by (auto simp: content_headers_def)

lemma ServeContent_keeps: "h \<in> set hs \<Longrightarrow> h \<in> set (ServeContent_headers pf name blob hs)"
  by (auto simp: ServeContent_headers_def Let_def split: option.splits)

lemma ServeContent_typed:
  "ct \<noteq> [] \<Longrightarrow> ServeContent_headers pf name blob (content_headers rec ct n) = content_headers rec ct n"
  by (simp add: ServeContent_headers_def content_headers_def)

lemma serveFileRecord_ok:
  assumes "serveFileRecord pf rec r srv = (resp, srv1)" and "status resp = 200"
  shows "\<exists>blob info. Get pf (StorageKey rec) (store srv) = (Inr (blob, info), store srv1)
    \<and> body resp = Content blob (ModTime info)
    \<and> (''X-Content-Type-Options'', ''nosniff'') \<in> set (headers resp)
    \<and> (''Content-Length'', show_int (BlobSize info)) \<in> set (headers resp)
    \<and> (served_type pf rec blob \<noteq> [] \<longrightarrow>
         (\<forall>ct. (''Content-Type'', ct) \<in> set (headers resp) \<longleftrightarrow> ct = served_type pf rec blob))"
proof -
  obtain g s1 where g: "on_store (Get pf (StorageKey rec)) srv = (g, s1)" by (metis prod.collapse)
  note run = assms(1) [unfolded serveFileRecord_def g prod.case]
  show ?thesis
  proof (cases g)
    case (Inl e)
    with run assms(2) show ?thesis by (cases e) auto
  next
    case (Inr p)
    obtain blob info where p: "p = (blob, info)" by (cases p)
    with Inr g have "Get pf (StorageKey rec) (store srv) = (Inr (blob, info), store s1)"
      by (auto dest: on_store_store)
    with run Inr p show ?thesis
      by (auto simp: ServeContent_typed content_headers_in intro!: ServeContent_keeps)
  qed
qed

lemma serveFileRecord_other:
  "serveFileRecord pf rec r srv = (resp, srv1) \<Longrightarrow>
     conn srv1 = conn srv \<and> status resp \<in> {200, 404, 500}"
  by (auto simp: serveFileRecord_def dest!: on_store_store
      split: prod.splits sum.splits blob_error.splits)

end
