(* ===== verification/Router.thy ===== *)
theory Router
  imports Upload Serve
begin

text \<open>
  The routes of \<open>main.go\<close> with their middlewares (\<open>cors.go\<close>, \<open>security_headers.go\<close>). \<open>endpoint\<close>
  has one constructor per registered route, carrying its path variables; which route a path
  belongs to is decided by the router library.
\<close>

section \<open>Middlewares of every route\<close>

definition cors_headers :: "(string \<times> string) list" where
  "cors_headers =
    [(''Access-Control-Allow-Origin'', ''*''),
     (''Access-Control-Allow-Methods'', ''GET, POST, DELETE, OPTIONS''),
     (''Access-Control-Allow-Headers'', ''Content-Type, Authorization''),
     (''Access-Control-Max-Age'', ''86400'')]"

definition corsMiddleware :: "'s handler \<Rightarrow> 's handler" where
  "corsMiddleware nxt r srv =
     (if req_method r = ''OPTIONS'' then
        (\<lparr>status = 200, headers = cors_headers, body = Empty\<rparr>, srv)
      else (case nxt r srv of (resp, s1) \<Rightarrow> (set_before cors_headers resp, s1)))"

definition security_headers :: "string \<Rightarrow> (string \<times> string) list" where
  "security_headers csp =
    [(''Strict-Transport-Security'', ''max-age=63072000; includeSubDomains; preload''),
     (''Content-Security-Policy'', csp),
     (''X-Frame-Options'', ''SAMEORIGIN''),
     (''X-Content-Type-Options'', ''nosniff''),
     (''Cross-Origin-Embedder-Policy'', ''require-corp''),
     (''Cross-Origin-Opener-Policy'', ''same-origin''),
     (''Cross-Origin-Resource-Policy'', ''same-origin''),
     (''Referrer-Policy'', ''strict-origin-when-cross-origin''),
     (''Permissions-Policy'', ''geolocation=(), microphone=(), camera=(), payment=(), usb=(), magnetometer=(), gyroscope=(), accelerometer=()'')]"

definition securityHeaders :: "string \<Rightarrow> 's handler \<Rightarrow> 's handler" where
  "securityHeaders csp nxt r srv =
     (case nxt r srv of (resp, s1) \<Rightarrow> (set_before (security_headers csp) resp, s1))"

section \<open>Routes\<close>

datatype endpoint =
    EpHealth
  | EpFiles
  | EpStats
  | EpConfig
  | EpUpload
  | EpDelete string
  | EpUploads string
  | EpTags
  | EpFileTags string
  | EpAddTags string
  | EpRemoveTag string string
  | EpLogin
  | EpCallback
  | EpShortLink string
  | EpTagDownload string
  | EpFilename string
  | EpStatic

definition staticHandler :: "settings \<Rightarrow> 's platform \<Rightarrow> 's handler" where
  "staticHandler cfg pf r srv =
     (if \<not> webPortal cfg then (http_NotFound, srv)
      else (case fileServer pf of
              Some fs \<Rightarrow> (fs r, srv)
            | None \<Rightarrow> (http_NotFound, srv)))"

fun route :: "settings \<Rightarrow> 's platform \<Rightarrow> endpoint \<Rightarrow> 's handler" where
  "route cfg pf EpHealth = healthCheckHandler cfg pf"
| "route cfg pf EpFiles = mayRequireToken cfg pf (listFilesHandler cfg)"
| "route cfg pf EpStats = mayRequireToken cfg pf statsHandler"
| "route cfg pf EpConfig = getConfigHandler cfg pf"
| "route cfg pf EpUpload =
     requireToken cfg pf (requirePermission permFileCreate
       (rejectWhenReadOnly cfg (uploadFileHandler cfg pf)))"
| "route cfg pf (EpDelete slug) =
     requireToken cfg pf (requirePermission permFileDelete
       (rejectWhenReadOnly cfg (deleteFileHandler cfg pf slug)))"
| "route cfg pf (EpUploads name) = filenameURLHandler cfg pf name"
| "route cfg pf EpTags = mayRequireToken cfg pf (listAllTagsHandler cfg)"
| "route cfg pf (EpFileTags slug) = mayRequireToken cfg pf (listFileTagsHandler slug)"
| "route cfg pf (EpAddTags slug) =
     requireToken cfg pf (requirePermission permTagAdd
       (rejectWhenReadOnly cfg (addFileTagsHandler pf slug)))"
| "route cfg pf (EpRemoveTag slug tag) =
     requireToken cfg pf (requirePermission permTagRemove
       (rejectWhenReadOnly cfg (removeFileTagHandler pf slug tag)))"
| "route cfg pf EpLogin = (\<lambda>r srv. (oidcHandler pf ''login'' r, srv))"
| "route cfg pf EpCallback = (\<lambda>r srv. (oidcHandler pf ''callback'' r, srv))"
| "route cfg pf (EpShortLink slug) = shortLinkHandler pf slug"
| "route cfg pf (EpTagDownload tag) = tagDownloadHandler pf tag"
| "route cfg pf (EpFilename name) = filenameURLHandler cfg pf name"
| "route cfg pf EpStatic = staticHandler cfg pf"

definition serve :: "settings \<Rightarrow> 's platform \<Rightarrow> string \<Rightarrow> endpoint \<Rightarrow> 's handler" where
  "serve cfg pf csp ep = corsMiddleware (securityHeaders csp (route cfg pf ep))"

text \<open>The permission a route asks for before its handler runs.\<close>

fun route_permission :: "endpoint \<Rightarrow> string option" where
  "route_permission EpUpload = Some permFileCreate"
| "route_permission (EpDelete slug) = Some permFileDelete"
| "route_permission (EpAddTags slug) = Some permTagAdd"
| "route_permission (EpRemoveTag slug tag) = Some permTagRemove"
| "route_permission ep = None"

lemma serve_cases:
  assumes "serve cfg pf csp ep r srv = (resp, srv1)"
  shows "(req_method r = ''OPTIONS'' \<and> srv1 = srv \<and> status resp = 200)
    \<or> (\<exists>resp0. route cfg pf ep r srv = (resp0, srv1) \<and> status resp = status resp0 \<and> body resp = body resp0)"
  using assms by (auto simp: serve_def corsMiddleware_def securityHeaders_def split: if_splits prod.splits)

lemma route_guarded:
  "route cfg pf EpUpload = guarded cfg pf permFileCreate (uploadFileHandler cfg pf)"
  "route cfg pf (EpDelete slug) = guarded cfg pf permFileDelete (deleteFileHandler cfg pf slug)"
  "route cfg pf (EpAddTags slug) = guarded cfg pf permTagAdd (addFileTagsHandler pf slug)"
  "route cfg pf (EpRemoveTag slug tag) = guarded cfg pf permTagRemove (removeFileTagHandler pf slug tag)"
  by (simp_all add: guarded_def fun_eq_iff)

lemma route_guarded_by:
  assumes "route_permission ep = Some perm"
  shows "\<exists>h. route cfg pf ep = guarded cfg pf perm h"
proof (cases ep)
  case EpUpload
  with assms show ?thesis using route_guarded(1) by (intro exI) (simp only: route_permission.simps option.inject)
next
  case (EpDelete slug)
  with assms show ?thesis using route_guarded(2) by (intro exI) (simp only: route_permission.simps option.inject)
next
  case (EpAddTags slug)
  with assms show ?thesis using route_guarded(3) by (intro exI) (simp only: route_permission.simps option.inject)
next
  case (EpRemoveTag slug tag)
  with assms show ?thesis using route_guarded(4) by (intro exI) (simp only: route_permission.simps option.inject)
qed (use assms in simp_all)

end
