(* ===== verification/Effects.thy ===== *)
theory Effects
  imports Database
begin

text \<open>
  Reasoning about state-passing code. The locale \<open>effect\<close> is what a relation between the state
  before and after a call needs so that it can be followed through the code statement by
  statement; its lemmas take apart the \<open>case\<close>, \<open>if\<close> and \<open>let\<close> a Go handler is written with.
  After it come the inversion lemmas of the connection's primitives.
\<close>

section \<open>Relations closed under sequencing\<close>

locale effect =
  fixes R :: "'s \<Rightarrow> 's \<Rightarrow> bool"
  assumes refl: "R s s"
    and trans: "R s t \<Longrightarrow> R t u \<Longrightarrow> R s u"
begin

lemma ret: "R s (snd (x, s))"
  by (simp add: refl)

lemma bind_sum:
  assumes "R s (snd p)"
    and "\<And>e s1. p = (Inl e, s1) \<Longrightarrow> R s1 (snd (f e s1))"
    and "\<And>x s1. p = (Inr x, s1) \<Longrightarrow> R s1 (snd (g x s1))"
  shows "R s (snd (case p of (r, s1) \<Rightarrow> (case r of Inl e \<Rightarrow> f e s1 | Inr x \<Rightarrow> g x s1)))"
proof (cases p)
  case (Pair r s1)
  with assms(1) have "R s s1" by simp
  moreover have "R s1 (snd (case r of Inl e \<Rightarrow> f e s1 | Inr x \<Rightarrow> g x s1))"
    using assms(2,3) Pair by (cases r) simp_all
  ultimately show ?thesis using Pair by (simp add: trans)
qed

lemma bind_option:
  assumes "R s (snd p)"
    and "\<And>s1. p = (None, s1) \<Longrightarrow> R s1 (snd (f s1))"
    and "\<And>x s1. p = (Some x, s1) \<Longrightarrow> R s1 (snd (g x s1))"
  shows "R s (snd (case p of (r, s1) \<Rightarrow> (case r of None \<Rightarrow> f s1 | Some x \<Rightarrow> g x s1)))"
proof (cases p)
  case (Pair r s1)
  with assms(1) have "R s s1" by simp
  moreover have "R s1 (snd (case r of None \<Rightarrow> f s1 | Some x \<Rightarrow> g x s1))"
    using assms(2,3) Pair by (cases r) simp_all
  ultimately show ?thesis using Pair by (simp add: trans)
qed

lemma bind_prod:
  assumes "R s (snd p)" and "\<And>x s1. p = (x, s1) \<Longrightarrow> R s1 (snd (f x s1))"
  shows "R s (snd (case p of (x, s1) \<Rightarrow> f x s1))"
  using assms by (cases p) (simp add: trans)

lemma case_opt:
  "(x = None \<Longrightarrow> R s (snd a)) \<Longrightarrow> (\<And>y. x = Some y \<Longrightarrow> R s (snd (b y))) \<Longrightarrow>
   R s (snd (case x of None \<Rightarrow> a | Some y \<Rightarrow> b y))"
  by (cases x) simp_all

lemma case_sum:
  "(\<And>e. x = Inl e \<Longrightarrow> R s (snd (a e))) \<Longrightarrow> (\<And>y. x = Inr y \<Longrightarrow> R s (snd (b y))) \<Longrightarrow>
   R s (snd (case x of Inl e \<Rightarrow> a e | Inr y \<Rightarrow> b y))"
  by (cases x) simp_all

lemma if_then:
  "(b \<Longrightarrow> R s (snd x)) \<Longrightarrow> (\<not> b \<Longrightarrow> R s (snd y)) \<Longrightarrow> R s (snd (if b then x else y))"
  by simp

lemma case_pair:
  "(\<And>a b. x = (a, b) \<Longrightarrow> R s (snd (f a b))) \<Longrightarrow> R s (snd (case x of (a, b) \<Rightarrow> f a b))"
  by (cases x) simp

lemma let_in: "R s (snd (f a)) \<Longrightarrow> R s (snd (let x = a in f x))"
  by (simp add: Let_def)

lemmas flow = ret bind_sum bind_option bind_prod case_opt case_sum case_pair if_then let_in

end

section \<open>Inversion of the primitives\<close>

lemma take_fault_db: "take_fault c = (f, c1) \<Longrightarrow> db c1 = db c"
  by (auto simp: take_fault_def split: list.splits)

lemma sql_Inr: "sql stmt c = (Inr x, c1) \<Longrightarrow> stmt (db c) = (Inr x, db c1)"
  by (auto simp: sql_def dest!: take_fault_db split: prod.splits option.splits)

lemma sql_Inl: "sql stmt c = (Inl e, c1) \<Longrightarrow> db c1 = db c \<or> stmt (db c) = (Inl e, db c1)"
  by (auto simp: sql_def dest!: take_fault_db split: prod.splits option.splits)

lemma query_db: "query q c = (r, c1) \<Longrightarrow> db c1 = db c"
  by (cases r) (auto simp: query_def dest: sql_Inr sql_Inl)

lemma query_Inr: "query q c = (Inr x, c1) \<Longrightarrow> x = q (db c) \<and> db c1 = db c"
  by (auto simp: query_def dest: sql_Inr)

lemma execute_Inr: "execute u c = (Inr x, c1) \<Longrightarrow> db c1 = u (db c)"
  by (auto simp: execute_def dest: sql_Inr)

lemma execute_Inl: "execute u c = (Inl e, c1) \<Longrightarrow> db c1 = db c"
  by (auto simp: execute_def dest: sql_Inl)

lemma time_now_db: "time_now c = (t, c1) \<Longrightarrow> db c1 = db c"
  by (auto simp: time_now_def)

lemma rand_read_db: "rand_read n c = (r, c1) \<Longrightarrow> db c1 = db c"
  by (auto simp: rand_read_def dest!: take_fault_db split: prod.splits option.splits)

lemma rand_read_length: "rand_read n c = (Inr buf, c1) \<Longrightarrow> length buf = n"
  by (auto simp: rand_read_def split: prod.splits option.splits)

text \<open>A transaction that reports an error has changed nothing.\<close>

lemma in_tx_Inl: "in_tx body c = (Inl e, c1) \<Longrightarrow> db c1 = db c"
  by (auto simp: in_tx_def dest!: query_db split: prod.splits sum.splits tx_end.splits)

lemma in_tx_Inr:
  "in_tx body c = (Inr x, c1) \<Longrightarrow>
     \<exists>c0 c2. db c0 = db c \<and>
       ((body c0 = (TxCommit x, c2) \<and> db c1 = db c2)
        \<or> (body c0 = (TxRollback x, c2) \<and> db c1 = db c))"
  by (auto simp: in_tx_def dest!: query_db split: prod.splits sum.splits tx_end.splits)

lemma in_tx_cases [consumes 1, case_names commit rollback]:
  assumes "in_tx body c = (Inr x, c1)"
  obtains c0 c2 where "db c0 = db c" "body c0 = (TxCommit x, c2)" "db c1 = db c2"
  | c0 c2 where "db c0 = db c" "body c0 = (TxRollback x, c2)" "db c1 = db c"
  using in_tx_Inr [OF assms] that by auto

interpretation same_db: effect "\<lambda>c c1. db c1 = db c"
  by unfold_locales simp_all

lemma query_snd [frame_simps]: "db (snd (query q c)) = db c"
  by (metis prod.collapse query_db)

lemma rand_read_snd [frame_simps]: "db (snd (rand_read n c)) = db c"
  by (metis prod.collapse rand_read_db)

lemma time_now_snd [frame_simps]: "db (snd (time_now c)) = db c"
  by (simp add: time_now_def)

end
