(* ===== verification/Writes.thy ===== *)
theory Writes
  imports ShortLink Effects
begin

text \<open>
  The abstract machine of the record database: the seven kinds of write the code ever issues,
  each with its guard, and \<open>writes P\<close>, the effect of any sequence of the writes \<open>P\<close> allows. Every
  operation of \<open>ShortLink\<close> and \<open>TagRows\<close> refines it, with the set of writes it may issue; the
  invariants are proved once, for the machine.
\<close>

section \<open>The machine\<close>

datatype db_write =
    InsertPending FileRecord
  | Finalize string int string
  | Retire string
  | Abort string
  | MoveTag "string \<times> string" string string
  | DropTagsOf string
  | DropTag "string \<times> string" string

fun apply_write :: "db_write \<Rightarrow> tables \<Rightarrow> tables" where
  "apply_write (InsertPending r) d = d\<lparr>files := files d @ [r]\<rparr>"
| "apply_write (Finalize slug n m) d =
     update_file slug (\<lambda>r. r\<lparr>Size := n, Modified := m, Pending := False\<rparr>) d"
| "apply_write (Retire slug) d = update_file slug (\<lambda>r. r\<lparr>Deleted := True\<rparr>) d"
| "apply_write (Abort slug) d = update_file slug (\<lambda>r. r\<lparr>Deleted := True, Pending := False\<rparr>) d"
| "apply_write (MoveTag key slug now) d = put_tag key slug now d"
| "apply_write (DropTagsOf slug) d = delete_tags (\<lambda>t. tag_slug t = slug) d"
| "apply_write (DropTag key slug) d = delete_tags (\<lambda>t. tag_key t = key \<and> tag_slug t = slug) d"

definition slug_shape :: "string \<Rightarrow> bool" where
  "slug_shape s \<longleftrightarrow> shortSlugMinLen \<le> length s \<and> length s \<le> shortSlugMaxLen
     \<and> set s \<subseteq> set shortSlugCharset"

fun write_ok :: "db_write \<Rightarrow> tables \<Rightarrow> bool" where
  "write_ok (InsertPending r) d \<longleftrightarrow> Slug r \<notin> set (slugs d) \<and> slug_shape (Slug r)
     \<and> StorageKey r = storageKeyForSlug (Slug r) \<and> \<not> Deleted r \<and> Pending r"
| "write_ok (MoveTag key slug now) d \<longleftrightarrow> slug \<in> set (slugs d)"
| "write_ok w d \<longleftrightarrow> True"

inductive writes :: "(db_write \<Rightarrow> bool) \<Rightarrow> tables \<Rightarrow> tables \<Rightarrow> bool" for P where
  none: "writes P d d"
| more: "writes P d e \<Longrightarrow> P w \<Longrightarrow> write_ok w e \<Longrightarrow> writes P d (apply_write w e)"

lemma writes_trans: "writes P d e \<Longrightarrow> writes P e f \<Longrightarrow> writes P d f"
  by (rotate_tac, induction rule: writes.induct) (auto intro: writes.more)

lemma writes_one: "P w \<Longrightarrow> write_ok w d \<Longrightarrow> writes P d (apply_write w d)"
  by (rule writes.more [OF writes.none])

lemma writes_mono: "writes P d e \<Longrightarrow> (\<And>w. P w \<Longrightarrow> Q w) \<Longrightarrow> writes Q d e"
  by (induction rule: writes.induct) (auto intro: writes.intros)

lemma writes_invariant:
  assumes "writes P d e" and "I d" and "\<And>w d. P w \<Longrightarrow> write_ok w d \<Longrightarrow> I d \<Longrightarrow> I (apply_write w d)"
  shows "I e"
  using assms by (induction rule: writes.induct) auto

section \<open>Well-formed tables\<close>

definition db_wf :: "tables \<Rightarrow> bool" where
  "db_wf d \<longleftrightarrow> distinct (slugs d) \<and> distinct (map tag_key (tags d))
     \<and> (\<forall>r \<in> set (files d). slug_shape (Slug r) \<and> StorageKey r = storageKeyForSlug (Slug r))
     \<and> (\<forall>t \<in> set (tags d). tag_slug t \<in> set (slugs d))"

definition tables_init :: tables where
  "tables_init = \<lparr>files = [], tags = []\<rparr>"

lemma db_wf_init: "db_wf tables_init"
  by (simp add: db_wf_def tables_init_def slugs_def)

lemma slug_in: "r \<in> set (files d) \<Longrightarrow> Slug r \<in> set (slugs d)"
  by (simp add: slugs_def)

lemma slugs_update_file: "(\<And>r. Slug (f r) = Slug r) \<Longrightarrow> slugs (update_file s f d) = slugs d"
  by (simp add: slugs_def update_file_def)

lemma tags_update_file [simp]: "tags (update_file s f d) = tags d"
  by (simp add: update_file_def)

lemma files_put_tag [simp]: "files (put_tag k s n d) = files d"
  by (simp add: put_tag_def)

lemma files_delete_tags [simp]: "files (delete_tags p d) = files d"
  by (simp add: delete_tags_def)

lemma tags_delete_tags [simp]: "tags (delete_tags p d) = filter (\<lambda>t. \<not> p t) (tags d)"
  by (simp add: delete_tags_def)

lemma slugs_put_tag [simp]: "slugs (put_tag k s n d) = slugs d"
  by (simp add: slugs_def)

lemma slugs_delete_tags [simp]: "slugs (delete_tags p d) = slugs d"
  by (simp add: slugs_def)

lemma keys_put_tag:
  "map tag_key (tags (put_tag k s n d)) =
     (if k \<in> tag_key ` set (tags d) then map tag_key (tags d) else map tag_key (tags d) @ [k])"
  by (auto simp: put_tag_def tag_key_def)

lemma set_tags_put_tag:
  "t \<in> set (tags (put_tag k s n d)) \<Longrightarrow> tag_slug t = s \<or> t \<in> set (tags d)"
  by (auto simp: put_tag_def split: if_splits)

lemma db_wf_update_file:
  assumes "db_wf d" and "\<And>r. Slug (f r) = Slug r" and "\<And>r. StorageKey (f r) = StorageKey r"
  shows "db_wf (update_file s f d)"
  using assms by (auto simp: db_wf_def slugs_update_file) (auto simp: update_file_def)

lemma db_wf_write: "write_ok w d \<Longrightarrow> db_wf d \<Longrightarrow> db_wf (apply_write w d)"
proof -
  assume ok: "write_ok w d" and wf: "db_wf d"
  show ?thesis
  proof (cases w)
    case (InsertPending r)
    with ok wf show ?thesis by (auto simp: db_wf_def slugs_def)
  next
    case (MoveTag k s n)
    with ok wf show ?thesis by (auto simp: db_wf_def keys_put_tag dest: set_tags_put_tag)
  next
    case (DropTagsOf s)
    with wf show ?thesis by (auto simp: db_wf_def distinct_map_filter_key)
  next
    case (DropTag k s)
    with wf show ?thesis by (auto simp: db_wf_def distinct_map_filter_key)
  qed (use wf in \<open>simp_all add: db_wf_update_file\<close>)
qed

lemma writes_wf: "writes P d e \<Longrightarrow> db_wf d \<Longrightarrow> db_wf e"
  by (erule writes_invariant) (simp_all add: db_wf_write)

section \<open>History\<close>

text \<open>
  Rows are never removed and never change their identity; a tombstone stays one, and a record
  that has left the pending state does not come back to it.
\<close>

definition history :: "tables \<Rightarrow> tables \<Rightarrow> bool" where
  "history d e \<longleftrightarrow> length (files d) \<le> length (files e) \<and>
     (\<forall>i < length (files d).
        Slug (files e ! i) = Slug (files d ! i)
        \<and> DisplayName (files e ! i) = DisplayName (files d ! i)
        \<and> StorageKey (files e ! i) = StorageKey (files d ! i)
        \<and> (Deleted (files d ! i) \<longrightarrow> Deleted (files e ! i))
        \<and> (\<not> Pending (files d ! i) \<longrightarrow> \<not> Pending (files e ! i)))"

lemma history_refl: "history d d"
  by (simp add: history_def)

lemma history_trans: "history d e \<Longrightarrow> history e f \<Longrightarrow> history d f"
  unfolding history_def by (metis (no_types, lifting) le_trans less_le_trans)

lemma history_write: "history d (apply_write w d)"
  by (cases w) (auto simp: history_def update_file_def nth_append)

lemma writes_history: "writes P d e \<Longrightarrow> history d e"
  by (induction rule: writes.induct) (auto intro: history_refl history_trans history_write)

lemma history_tombstone:
  assumes "history d e" and "r \<in> set (files d)" and "Deleted r"
  shows "\<exists>r' \<in> set (files e). Slug r' = Slug r \<and> DisplayName r' = DisplayName r \<and> Deleted r'"
proof -
  obtain i where i: "i < length (files d)" "files d ! i = r" using assms(2) by (metis in_set_conv_nth)
  with assms(1) have "i < length (files e)" by (simp add: history_def)
  then have "files e ! i \<in> set (files e)" by simp
  moreover have "Slug (files e ! i) = Slug r \<and> DisplayName (files e ! i) = DisplayName r
      \<and> Deleted (files e ! i)"
    using assms i by (auto simp: history_def)
  ultimately show ?thesis by blast
qed

lemma history_slugs: "history d e \<Longrightarrow> set (slugs d) \<subseteq> set (slugs e)"
proof
  fix s assume h: "history d e" and "s \<in> set (slugs d)"
  then obtain i where "i < length (files d)" "Slug (files d ! i) = s"
    by (auto simp: slugs_def in_set_conv_nth)
  with h have "i < length (files e)" "Slug (files e ! i) = s" by (auto simp: history_def)
  then show "s \<in> set (slugs e)" by (auto simp: slugs_def)
qed

section \<open>The operations refine the machine\<close>

interpretation wr: effect "\<lambda>c c1. writes P (db c) (db c1)" for P
  by unfold_locales (auto intro: writes.none writes_trans)

lemma writes_query: "writes P (db c) (db (snd (query q c)))"
  by (simp add: frame_simps writes.none)

lemma writes_rand_read: "writes P (db c) (db (snd (rand_read n c)))"
  by (simp add: frame_simps writes.none)

lemma writes_time_now: "writes P (db c) (db (snd (time_now c)))"
  by (simp add: frame_simps writes.none)

lemma writes_execute:
  assumes "P w" and "\<And>d. u d = apply_write w d" and "\<And>d. write_ok w d"
  shows "writes P (db c) (db (snd (execute u c)))"
proof (cases "execute u c")
  case (Pair r c1)
  then have "db c1 = db c \<or> db c1 = apply_write w (db c)"
    using assms(2) by (cases r) (auto dest: execute_Inr execute_Inl)
  moreover have "writes P (db c) (apply_write w (db c))" by (rule writes_one) (rule assms)+
  ultimately show ?thesis using Pair writes.none by auto
qed

lemma writes_in_tx:
  assumes "\<And>c. writes P (db c) (db (snd (body c)))"
  shows "writes P (db c) (db (snd (in_tx body c)))"
proof (cases "in_tx body c")
  case (Pair r c1)
  show ?thesis
  proof (cases r)
    case (Inl e)
    with Pair show ?thesis by (auto dest!: in_tx_Inl intro: writes.none)
  next
    case (Inr x)
    with Pair obtain c0 c2 where "db c0 = db c"
      "(body c0 = (TxCommit x, c2) \<and> db c1 = db c2) \<or> (body c0 = (TxRollback x, c2) \<and> db c1 = db c)"
      by (auto dest!: in_tx_Inr)
    moreover have "writes P (db c0) (db (snd (body c0)))" by (rule assms)
    ultimately show ?thesis using Pair by (auto intro: writes.none)
  qed
qed

lemma writes_upsertTag:
  assumes "P (MoveTag (key_of tag) slug now)"
  shows "writes P (db c) (db (snd (upsertTag tag slug now c)))"
proof (cases "upsertTag tag slug now c")
  case (Pair r c1)
  then have "db c1 = db c \<or>
      (slug \<in> set (slugs (db c)) \<and> db c1 = apply_write (MoveTag (key_of tag) slug now) (db c))"
    unfolding upsertTag_def
    by (cases r) (auto dest!: sql_Inr sql_Inl simp: upsert_tag_def split: if_splits)
  then show ?thesis
  proof
    assume h: "slug \<in> set (slugs (db c)) \<and> db c1 = apply_write (MoveTag (key_of tag) slug now) (db c)"
    then have "writes P (db c) (apply_write (MoveTag (key_of tag) slug now) (db c))"
      by (intro writes_one assms) simp
    with h Pair show ?thesis by simp
  qed (use Pair writes.none in simp)
qed

lemma writes_tagOwner: "writes P (db c) (db (snd (tagOwner t c)))"
  unfolding tagOwner_def by (rule writes_query)

lemma writes_tagsOfSlug: "writes P (db c) (db (snd (tagsOfSlug s c)))"
  unfolding tagsOfSlug_def by (rule writes_query)

lemma writes_deleteTagsForSlug:
  "P (DropTagsOf slug) \<Longrightarrow> writes P (db c) (db (snd (deleteTagsForSlug slug c)))"
  unfolding deleteTagsForSlug_def by (rule writes_execute) auto

lemma writes_retire:
  "P (Retire slug) \<Longrightarrow>
   writes P (db c) (db (snd (execute (update_file slug (\<lambda>r. r\<lparr>Deleted := True\<rparr>)) c)))"
  by (rule writes_execute [of P "Retire slug"]) auto

lemma writes_addTags_loop:
  "(\<And>t now. t \<in> set ts \<Longrightarrow> P (MoveTag (key_of t) slug now)) \<Longrightarrow>
   writes P (db c) (db (snd (addTags_loop ts slug now moved c)))"
proof (induction ts arbitrary: moved c)
  case (Cons t ts)
  then show ?case
    by (simp only: addTags_loop.simps)
      (intro wr.flow writes_tagOwner writes_upsertTag Cons.IH, auto)
qed (simp add: writes.none)

lemma writes_addTagsToSlug:
  "(\<And>t now. t \<in> set ts \<Longrightarrow> P (MoveTag (key_of t) slug now)) \<Longrightarrow>
   writes P (db c) (db (snd (addTagsToSlug slug ts c)))"
  unfolding addTagsToSlug_def addTagsToSlug_body_def
  by (intro writes_in_tx wr.flow writes_time_now writes_addTags_loop writes_tagsOfSlug) auto

lemma writes_removeTagFromSlug:
  assumes "P (DropTag (key_of tag) slug)"
  shows "writes P (db c) (db (snd (removeTagFromSlug slug tag c)))"
proof (cases "sql (\<lambda>d. (Inr (length (filter (\<lambda>t. tag_key t = key_of tag \<and> tag_slug t = slug)
      (tags d))), delete_tags (\<lambda>t. tag_key t = key_of tag \<and> tag_slug t = slug) d)) c")
  case (Pair r c1)
  have "writes P (db c) (apply_write (DropTag (key_of tag) slug) (db c))"
    by (rule writes_one) (simp_all add: assms)
  then have "writes P (db c) (db c1)"
    using Pair by (cases r) (auto dest!: sql_Inr sql_Inl intro: writes.none)
  with Pair show ?thesis
    by (auto simp: removeTagFromSlug_def frame_simps split: sum.splits)
qed

lemma writes_upsertAll:
  "(\<And>t now. t \<in> set ts \<Longrightarrow> P (MoveTag (key_of t) slug now)) \<Longrightarrow>
   writes P (db c) (db (snd (upsertAll ts slug now c)))"
proof (induction ts arbitrary: c)
  case (Cons t ts)
  then show ?case
    by (simp only: upsertAll.simps) (intro wr.flow writes_upsertTag Cons.IH, auto)
qed (simp add: writes.none)

lemma writes_applyUploadTags:
  assumes "\<And>t now. t \<in> set ts \<Longrightarrow> P (MoveTag (key_of t) slug now)"
    and "old \<noteq> [] \<Longrightarrow> P (DropTagsOf old) \<and> P (Retire old)"
  shows "writes P (db c) (db (snd (applyUploadTags slug ts old c)))"
  unfolding applyUploadTags_def applyUploadTags_body_def using assms
  by (intro wr.flow writes_in_tx writes_time_now writes_upsertAll writes_deleteTagsForSlug
      writes_retire) auto

end
