(* ===== verification/RecordLaws.thy ===== *)
theory RecordLaws
  imports Writes
begin

text \<open>
  What the record operations of \<open>ShortLink\<close> do: the slug an insertion draws, the exact tables
  each operation leaves behind when it succeeds and when it fails, and that all of them refine the
  machine of \<open>Writes\<close>.
\<close>

section \<open>Inserting a record\<close>

lemma slug_char_in: "slug_char b \<in> set shortSlugCharset"
  unfolding slug_char_def by (rule nth_mem) (simp add: shortSlugCharset_def)

lemma randomSlug_Inr:
  "randomSlug n c = (Inr s, c1) \<Longrightarrow>
     length s = n \<and> set s \<subseteq> set shortSlugCharset \<and> db c1 = db c"
  by (auto simp: randomSlug_def slug_char_in dest: rand_read_db rand_read_length
      split: prod.splits sum.splits)

lemma randomSlug_Inl: "randomSlug n c = (Inl e, c1) \<Longrightarrow> db c1 = db c"
  by (auto simp: randomSlug_def dest!: rand_read_db split: prod.splits sum.splits)

definition slugged :: "FileRecord \<Rightarrow> string \<Rightarrow> FileRecord" where
  "slugged rec slug = rec\<lparr>Slug := slug, StorageKey := storageKeyForSlug slug\<rparr>"

lemma slugged_twice [simp]: "slugged (slugged rec s) t = slugged rec t"
  by (simp add: slugged_def)

lemma insert_file_Inr:
  "insert_file r d = (Inr x, d1) \<Longrightarrow> Slug r \<notin> set (slugs d) \<and> d1 = d\<lparr>files := files d @ [r]\<rparr>"
  by (auto simp: insert_file_def split: if_splits)

lemma insert_file_Inl: "insert_file r d = (Inl e, d1) \<Longrightarrow> d1 = d"
  by (auto simp: insert_file_def split: if_splits)

lemma sql_insert_Inl: "sql (insert_file r) c = (Inl e, c1) \<Longrightarrow> db c1 = db c"
  by (auto dest!: sql_Inl insert_file_Inl)

definition inserted :: "FileRecord \<Rightarrow> nat \<Rightarrow> FileRecord \<Rightarrow> tables \<Rightarrow> tables \<Rightarrow> bool" where
  "inserted rec n r d d1 \<longleftrightarrow>
     (\<exists>slug. length slug = n \<and> set slug \<subseteq> set shortSlugCharset \<and> slug \<notin> set (slugs d)
        \<and> r = slugged rec slug \<and> d1 = d\<lparr>files := files d @ [r]\<rparr>)"

lemma inserted_slugged [simp]: "inserted (slugged rec s) n r d d1 = inserted rec n r d d1"
  by (simp add: inserted_def)

lemma insert_attempts_spec:
  assumes "insert_attempts k n rec c = (res, c1)"
  shows "case res of Inr (Some r) \<Rightarrow> inserted rec n r (db c) (db c1) | _ \<Rightarrow> db c1 = db c"
  using assms
proof (induction k arbitrary: rec c)
  case (Suc k)
  obtain a c2 where rs: "randomSlug n c = (a, c2)" by (metis prod.collapse)
  show ?case
  proof (cases a)
    case (Inl e)
    with Suc.prems rs show ?thesis by (auto dest: randomSlug_Inl)
  next
    case (Inr slug)
    then have s: "length slug = n" "set slug \<subseteq> set shortSlugCharset" "db c2 = db c"
      using rs randomSlug_Inr by auto
    obtain b c3 where ins: "sql (insert_file (slugged rec slug)) c2 = (b, c3)"
      by (metis prod.collapse)
    note step = Suc.prems [unfolded insert_attempts.simps rs Inr prod.case sum.case Let_def,
        folded slugged_def, unfolded ins prod.case]
    show ?thesis
    proof (cases b)
      case (Inl e)
      with ins have "db c3 = db c" using s sql_insert_Inl by auto
      with step Inl Suc.IH [of "slugged rec slug" c3] show ?thesis
        by (auto split: if_splits sum.splits option.splits)
    next
      case Inr2: (Inr u)
      have "Slug (slugged rec slug) = slug" by (simp add: slugged_def)
      with ins Inr2 s have "slug \<notin> set (slugs (db c))"
        "db c3 = (db c)\<lparr>files := files (db c) @ [slugged rec slug]\<rparr>"
        by (auto dest!: sql_Inr insert_file_Inr)
      with step Inr2 s show ?thesis by (auto simp: inserted_def)
    qed
  qed
qed auto

lemma insert_lengths_spec:
  assumes "insert_lengths lens rec c = (res, c1)"
  shows "case res of Inr r \<Rightarrow> \<exists>n \<in> set lens. inserted rec n r (db c) (db c1) | Inl e \<Rightarrow> db c1 = db c"
  using assms
proof (induction lens arbitrary: c)
  case (Cons n lens)
  obtain a c2 where at: "insert_attempts shortSlugAttemptsPerLen n rec c = (a, c2)"
    by (metis prod.collapse)
  note spec = insert_attempts_spec [OF at]
  note step = Cons.prems [unfolded insert_lengths.simps at prod.case]
  show ?case
  proof (cases a rule: result_option_cases)
    case none
    with spec step Cons.IH [of c2] show ?thesis by (auto split: sum.splits)
  qed (use spec step in auto)
qed auto

lemma insertUniqueRecord_Inr:
  assumes "insertUniqueRecord rec c = (Inr r, c1)"
  shows "\<exists>slug. slug_shape slug \<and> slug \<notin> set (slugs (db c)) \<and> r = slugged rec slug
    \<and> db c1 = (db c)\<lparr>files := files (db c) @ [r]\<rparr>"
proof -
  obtain n where n: "n \<in> set [shortSlugMinLen..<Suc shortSlugMaxLen]"
    and i: "inserted rec n r (db c) (db c1)"
    using insert_lengths_spec [OF assms [unfolded insertUniqueRecord_def]]
    by (simp only: sum.case) blast
  from n have "shortSlugMinLen \<le> n" "n \<le> shortSlugMaxLen"
    by (simp_all only: set_upt atLeastLessThan_iff less_Suc_eq_le)
  with i show ?thesis unfolding inserted_def slug_shape_def by blast
qed

lemma insertUniqueRecord_Inl: "insertUniqueRecord rec c = (Inl e, c1) \<Longrightarrow> db c1 = db c"
  unfolding insertUniqueRecord_def by (drule insert_lengths_spec) simp

section \<open>The life of an upload record\<close>

definition reserved :: "string \<Rightarrow> string \<Rightarrow> FileRecord \<Rightarrow> tables \<Rightarrow> tables \<Rightarrow> bool" where
  "reserved name mime r d d1 \<longleftrightarrow>
     (\<exists>slug. slug_shape slug \<and> slug \<notin> set (slugs d)
        \<and> r = slugged (pending_record name mime) slug
        \<and> d1 = d\<lparr>files := files d @ [r]\<rparr>)"

lemma reservedD:
  "reserved name mime r d d1 \<Longrightarrow>
     slug_shape (Slug r) \<and> Slug r \<notin> set (slugs d) \<and> DisplayName r = name \<and> MimeType r = mime
     \<and> StorageKey r = storageKeyForSlug (Slug r) \<and> \<not> Deleted r \<and> Pending r
     \<and> d1 = apply_write (InsertPending r) d"
  by (auto simp: reserved_def slugged_def pending_record_def)

lemma reserveUpload_Inr:
  assumes "reserveUpload ao name mime c = (Inr (r, old), c1)"
  shows "reserved name mime r (db c) (db c1)
    \<and> old = (if ao then None else live_by_name name (db c))"
proof -
  from assms have tx: "in_tx (reserveUpload_body ao name mime) c = (Inr (r, old), c1)"
    by (simp add: reserveUpload_def)
  have body: "\<exists>c0 c2. db c0 = db c \<and> reserveUpload_body ao name mime c0 = (TxCommit (r, old), c2)
      \<and> db c1 = db c2"
    using tx
  proof (cases rule: in_tx_cases)
    case (rollback c0 c2)
    then show ?thesis
      by (auto simp: reserveUpload_body_def split: prod.splits sum.splits)
  qed blast
  then obtain c0 c2 where c0: "db c0 = db c" and "db c1 = db c2"
    and body: "reserveUpload_body ao name mime c0 = (TxCommit (r, old), c2)" by blast
  obtain a c3 where find: "(if \<not> ao then findLiveRecordByName name c0 else (Inr None, c0)) = (a, c3)"
    by (metis prod.collapse)
  have c3: "db c3 = db c0 \<and> (\<forall>x. a = Inr x \<longrightarrow> x = (if ao then None else live_by_name name (db c0)))"
    using find by (auto simp: findLiveRecordByName_def split: if_splits dest: query_db query_Inr)
  obtain b c4 where ins: "insertUniqueRecord (pending_record name mime) c3 = (b, c4)"
    by (metis prod.collapse)
  from body have "a = Inr old \<and> b = Inr r \<and> c2 = c4"
    unfolding reserveUpload_body_def find prod.case using ins by (auto split: sum.splits)
  with \<open>db c1 = db c2\<close> c3 c0 insertUniqueRecord_Inr [of "pending_record name mime" c3 r c4] ins show ?thesis
    by (auto simp: reserved_def)
qed

lemma reserveUpload_Inl: "reserveUpload ao name mime c = (Inl e, c1) \<Longrightarrow> db c1 = db c"
  unfolding reserveUpload_def by (rule in_tx_Inl)

lemma getFileRecord_db: "getFileRecord slug c = (r, c1) \<Longrightarrow> db c1 = db c"
  by (auto simp: getFileRecord_def dest!: query_db split: prod.splits sum.splits option.splits)

lemma getFileRecord_snd [frame_simps]: "db (snd (getFileRecord slug c)) = db c"
  by (metis getFileRecord_db prod.collapse)

lemma getFileRecord_Inr:
  "getFileRecord slug c = (Inr r, c1) \<Longrightarrow>
     db c1 = db c \<and> r \<in> set (files (db c)) \<and> Slug r = slug"
  by (auto simp: getFileRecord_def dest!: query_Inr dest: find_Some_in [OF sym]
      split: prod.splits sum.splits option.splits)

lemma getFileRecord_NotFound:
  "getFileRecord slug c = (Inl RecordNotFound, c1) \<Longrightarrow> slug \<notin> set (slugs (db c))"
  by (auto simp: getFileRecord_def slugs_def dest!: query_Inr dest: find_NoneD [OF sym]
      split: prod.splits sum.splits option.splits)

lemma finalizeUpload_Inr:
  assumes "finalizeUpload slug n m c = (Inr r, c1)"
  shows "db c1 = apply_write (Finalize slug n m) (db c) \<and> r \<in> set (files (db c1)) \<and> Slug r = slug"
  using assms unfolding finalizeUpload_def
  by (auto split: prod.splits sum.splits dest!: execute_Inr getFileRecord_Inr)

lemma finalizeUpload_Inl:
  assumes "finalizeUpload slug n m c = (Inl e, c1)"
  shows "db c1 = db c \<or> db c1 = apply_write (Finalize slug n m) (db c)"
  using assms unfolding finalizeUpload_def
  by (auto split: prod.splits sum.splits dest!: execute_Inr execute_Inl getFileRecord_db)

definition aborted :: "string \<Rightarrow> tables \<Rightarrow> tables" where
  "aborted slug d = apply_write (DropTagsOf slug) (apply_write (Abort slug) d)"

lemma abortUpload_Inr: "abortUpload slug c = (Inr u, c1) \<Longrightarrow> db c1 = aborted slug (db c)"
  unfolding abortUpload_def deleteTagsForSlug_def aborted_def
  by (auto split: prod.splits sum.splits dest!: execute_Inr)

lemma abortUpload_Inl:
  "abortUpload slug c = (Inl e, c1) \<Longrightarrow> db c1 = db c \<or> db c1 = apply_write (Abort slug) (db c)"
  unfolding abortUpload_def deleteTagsForSlug_def
  by (auto split: prod.splits sum.splits dest!: execute_Inr execute_Inl)

definition retired :: "string \<Rightarrow> tables \<Rightarrow> tables" where
  "retired slug d = apply_write (DropTagsOf slug) (apply_write (Retire slug) d)"

lemma softDelete_commit:
  assumes "softDeleteBySlug_body slug c = (TxCommit res, c2)"
  obtains r where "res = Some r" "db c2 = retired slug (db c)" "r \<in> set (files (db c))"
    "Slug r = slug" "live r"
proof -
  obtain a c3 where q: "query (\<lambda>d. List.find (\<lambda>r. Slug r = slug \<and> live r) (files d)) c = (a, c3)"
    by (metis prod.collapse)
  note body = assms [unfolded softDeleteBySlug_body_def q prod.case]
  show thesis
  proof (cases a rule: result_option_cases)
    case (some r)
    with q have r: "r \<in> set (files (db c))" "Slug r = slug" "live r" "db c3 = db c"
      by (auto dest!: query_Inr dest: find_Some_in [OF sym])
    obtain b c4 where e: "execute (update_file slug (\<lambda>r. r\<lparr>Deleted := True\<rparr>)) c3 = (b, c4)"
      by (metis prod.collapse)
    obtain b' c5 where t: "deleteTagsForSlug slug c4 = (b', c5)" by (metis prod.collapse)
    from body some r e t have f: "res = Some r \<and> c2 = c5 \<and> (\<exists>u v. b = Inr u \<and> b' = Inr v)"
      by (auto split: sum.splits)
    with r e t have "db c5 = retired slug (db c)"
      by (auto simp: deleteTagsForSlug_def retired_def dest!: execute_Inr)
    with r f that show thesis by blast
  qed (use body in auto)
qed

lemma softDelete_rollback:
  assumes "softDeleteBySlug_body slug c = (TxRollback res, c2)"
  shows "res = None \<and> (\<forall>r \<in> set (files (db c)). Slug r = slug \<longrightarrow> \<not> live r)"
  using assms unfolding softDeleteBySlug_body_def
  by (auto split: prod.splits sum.splits option.splits dest!: query_Inr dest: find_NoneD [OF sym])

lemma softDeleteBySlug_Inr:
  assumes "softDeleteBySlug slug c = (Inr res, c1)"
  shows "(case res of
      Some r \<Rightarrow> r \<in> set (files (db c)) \<and> Slug r = slug \<and> live r \<and> db c1 = retired slug (db c)
    | None \<Rightarrow> (\<forall>r \<in> set (files (db c)). Slug r = slug \<longrightarrow> \<not> live r) \<and> db c1 = db c)"
proof -
  from assms have tx: "in_tx (softDeleteBySlug_body slug) c = (Inr res, c1)"
    by (simp add: softDeleteBySlug_def)
  show ?thesis
    using tx
  proof (cases rule: in_tx_cases)
    case (commit c0 c2)
    from commit(2) obtain r where r: "res = Some r" "db c2 = retired slug (db c0)"
      "r \<in> set (files (db c0))" "Slug r = slug" "live r"
      by (rule softDelete_commit)
    with commit show ?thesis by simp
  next
    case (rollback c0 c2)
    from rollback(2) have "res = None" "\<forall>r \<in> set (files (db c0)). Slug r = slug \<longrightarrow> \<not> live r"
      by (auto dest: softDelete_rollback)
    with rollback show ?thesis by simp
  qed
qed

lemma softDeleteBySlug_Inl: "softDeleteBySlug slug c = (Inl e, c1) \<Longrightarrow> db c1 = db c"
  unfolding softDeleteBySlug_def by (rule in_tx_Inl)

section \<open>Refinement\<close>

lemma writes_reserveUpload:
  assumes "\<And>r. DisplayName r = name \<Longrightarrow> P (InsertPending r)"
  shows "writes P (db c) (db (snd (reserveUpload ao name mime c)))"
proof (cases "reserveUpload ao name mime c")
  case (Pair res c1)
  show ?thesis
  proof (cases res)
    case (Inl e)
    with Pair show ?thesis by (simp add: reserveUpload_Inl writes.none)
  next
    case (Inr p)
    obtain r old where "p = (r, old)" by (cases p)
    with Pair Inr have "reserved name mime r (db c) (db c1)" using reserveUpload_Inr by simp
    note r = reservedD [OF this]
    then have "writes P (db c) (apply_write (InsertPending r) (db c))"
      by (intro writes_one assms) simp_all
    with r Pair show ?thesis by simp
  qed
qed

lemma writes_finalizeUpload:
  assumes "P (Finalize slug n m)"
  shows "writes P (db c) (db (snd (finalizeUpload slug n m c)))"
proof (cases "finalizeUpload slug n m c")
  case (Pair res c1)
  then have "db c1 = db c \<or> db c1 = apply_write (Finalize slug n m) (db c)"
    using finalizeUpload_Inl finalizeUpload_Inr by (cases res) blast+
  moreover have "writes P (db c) (apply_write (Finalize slug n m) (db c))"
    by (intro writes_one assms) simp
  ultimately show ?thesis using Pair writes.none by (metis snd_conv)
qed

lemma writes_abort:
  "P (Abort slug) \<Longrightarrow>
   writes P (db c) (db (snd (execute (update_file slug (\<lambda>r. r\<lparr>Deleted := True, Pending := False\<rparr>)) c)))"
  by (rule writes_execute [of P "Abort slug"]) auto

lemma writes_abortUpload:
  "P (Abort slug) \<Longrightarrow> P (DropTagsOf slug) \<Longrightarrow> writes P (db c) (db (snd (abortUpload slug c)))"
  unfolding abortUpload_def
  by (intro wr.flow writes_abort writes_deleteTagsForSlug) auto

lemma writes_softDelete:
  assumes "P (Retire slug)" and "P (DropTagsOf slug)"
  shows "writes P (db c) (db (snd (softDeleteBySlug slug c)))"
proof (cases "softDeleteBySlug slug c")
  case (Pair res c1)
  have "writes P (db c) (apply_write (Retire slug) (db c))"
    by (intro writes_one assms) simp
  then have w: "writes P (db c) (retired slug (db c))"
    unfolding retired_def by (rule writes.more) (simp_all add: assms)
  show ?thesis
  proof (cases res rule: result_option_cases)
    case (some r)
    with Pair w softDeleteBySlug_Inr [of slug c "Some r" c1] show ?thesis by simp
  qed (use Pair softDeleteBySlug_Inr [of slug c None c1] in
      \<open>simp_all add: softDeleteBySlug_Inl writes.none\<close>)
qed

end
