(* ===== verification/Interleaving.thy ===== *)
theory Interleaving
  imports Router RecordLaws
begin

text \<open>
  Requests in flight at the same time. A thread is a handler between two calls that touch the
  shared state; the scheduler may run any thread next. The relation \<open>sys_step\<close> is the server
  under arbitrary interleavings of uploads, deletions, tag changes and reads.
\<close>

section \<open>The system\<close>

datatype thread =
    TUpload request upload_state
  | TDelete string
  | TDeleteBlob FileRecord
  | TAddTags request string
  | TAttach string "Tag list"
  | TServe request endpoint
  | TDone response

type_synonym 's system = "'s server \<times> thread list"

text \<open>A request whose route let it through, with the credential in its context.\<close>

fun start_thread :: "settings \<Rightarrow> 's platform \<Rightarrow> endpoint \<Rightarrow> request \<Rightarrow> thread" where
  "start_thread cfg pf EpUpload r = TUpload r (upload_start cfg pf r)"
| "start_thread cfg pf (EpDelete slug) r = TDelete slug"
| "start_thread cfg pf (EpAddTags slug) r = TAddTags r slug"
| "start_thread cfg pf ep r = TServe r ep"

definition admitted :: "settings \<Rightarrow> endpoint \<Rightarrow> request \<Rightarrow> bool" where
  "admitted cfg ep r \<longleftrightarrow>
     (case route_permission ep of None \<Rightarrow> True
      | Some perm \<Rightarrow> hasPermission r perm \<and> \<not> readOnly cfg)"

definition thread_step ::
  "settings \<Rightarrow> 's platform \<Rightarrow> thread \<Rightarrow> 's server \<Rightarrow> thread \<times> 's server" where
  "thread_step cfg pf t srv =
     (case t of
        TUpload r st \<Rightarrow> (case upload_step cfg pf r st srv of (st', s1) \<Rightarrow> (TUpload r st', s1))
      | TDelete slug \<Rightarrow>
          (case delete_record cfg slug srv of
             (Inl resp, s1) \<Rightarrow> (TDone resp, s1)
           | (Inr rec, s1) \<Rightarrow> (TDeleteBlob rec, s1))
      | TDeleteBlob rec \<Rightarrow> (case delete_blob pf rec srv of (resp, s1) \<Rightarrow> (TDone resp, s1))
      | TAddTags r slug \<Rightarrow>
          (case add_tags_check pf slug r srv of
             (Inl resp, s1) \<Rightarrow> (TDone resp, s1)
           | (Inr ts, s1) \<Rightarrow> (TAttach slug ts, s1))
      | TAttach slug ts \<Rightarrow> (case add_tags_apply slug ts srv of (resp, s1) \<Rightarrow> (TDone resp, s1))
      | TServe r ep \<Rightarrow>
          (case ep of
             EpRemoveTag slug tag \<Rightarrow>
               (case removeFileTagHandler pf slug tag r srv of (resp, s1) \<Rightarrow> (TDone resp, s1))
           | _ \<Rightarrow> (case route cfg pf ep r srv of (resp, s1) \<Rightarrow> (TDone resp, s1)))
      | TDone resp \<Rightarrow> (TDone resp, srv))"

inductive sys_step :: "settings \<Rightarrow> 's platform \<Rightarrow> 's system \<Rightarrow> 's system \<Rightarrow> bool" for cfg pf where
  arrive: "admitted cfg ep r \<Longrightarrow> sys_step cfg pf (srv, ts) (srv, ts @ [start_thread cfg pf ep r])"
| run: "i < length ts \<Longrightarrow> thread_step cfg pf (ts ! i) srv = (t, srv1) \<Longrightarrow>
    sys_step cfg pf (srv, ts) (srv1, ts[i := t])"

inductive reachable :: "settings \<Rightarrow> 's platform \<Rightarrow> 's system \<Rightarrow> 's system \<Rightarrow> bool" for cfg pf s0 where
  start: "reachable cfg pf s0 s0"
| step: "reachable cfg pf s0 s \<Longrightarrow> sys_step cfg pf s s1 \<Longrightarrow> reachable cfg pf s0 s1"

inductive_simps sys_step_iff: "sys_step cfg pf (srv, ts) (srv1, ts1)"

lemma reachable_invariant:
  assumes "reachable cfg pf s0 s" and "I s0"
    and "\<And>s s1. I s \<Longrightarrow> sys_step cfg pf s s1 \<Longrightarrow> I s1"
  shows "I s"
  using assms by (induction rule: reachable.induct) auto

text \<open>A schedule: which request arrives and which thread moves, in order.\<close>

datatype event = Arrive endpoint request | Run nat

fun play :: "settings \<Rightarrow> 's platform \<Rightarrow> event list \<Rightarrow> 's system \<Rightarrow> 's system option" where
  "play cfg pf [] s = Some s"
| "play cfg pf (Arrive ep r # es) (srv, ts) =
     (if admitted cfg ep r then play cfg pf es (srv, ts @ [start_thread cfg pf ep r]) else None)"
| "play cfg pf (Run i # es) (srv, ts) =
     (if i < length ts then
        (case thread_step cfg pf (ts ! i) srv of (t, srv1) \<Rightarrow> play cfg pf es (srv1, ts[i := t]))
      else None)"

lemma reachable_trans: "reachable cfg pf s1 s2 \<Longrightarrow> reachable cfg pf s0 s1 \<Longrightarrow> reachable cfg pf s0 s2"
  by (induction rule: reachable.induct) (auto intro: reachable.step)

lemma reachable_one: "sys_step cfg pf s s1 \<Longrightarrow> reachable cfg pf s s1"
  by (blast intro: reachable.intros)

lemma play_reachable: "play cfg pf es s = Some s1 \<Longrightarrow> reachable cfg pf s s1"
proof (induction cfg pf es s rule: play.induct)
  case (2 cfg pf ep r es srv ts)
  then show ?case
    by (auto split: if_splits intro: reachable_trans reachable_one sys_step.arrive)
next
  case (3 cfg pf i es srv ts)
  obtain t srv1 where st: "thread_step cfg pf (ts ! i) srv = (t, srv1)" by (metis prod.collapse)
  with 3 have "i < length ts" "reachable cfg pf (srv1, ts[i := t]) s1" by (auto split: if_splits)
  with st show ?case by (auto intro: reachable_trans reachable_one sys_step.run)
qed (auto intro: reachable.start)

section \<open>Storage keys\<close>

lemma charset_no_dot: "CHR ''.'' \<notin> set shortSlugCharset" "CHR ''/'' \<notin> set shortSlugCharset"
  "CHR ''_'' \<notin> set shortSlugCharset"
  by code_simp+

lemma storageKey_clean:
  assumes "slug_shape s"
  shows "clean_key (storageKeyForSlug s)"
proof -
  have len: "5 \<le> length s" and chars: "set s \<subseteq> set shortSlugCharset"
    using assms by (auto simp: slug_shape_def shortSlugMinLen_def)
  have sub: "set (take 2 s) \<subseteq> set shortSlugCharset" "set (drop 2 s) \<subseteq> set shortSlugCharset"
    using chars by (meson order_trans set_take_subset set_drop_subset)+
  then have "CHR ''/'' \<notin> set (take 2 s)" "CHR ''/'' \<notin> set (drop 2 s)"
    using charset_no_dot by blast+
  then have split: "split_on CHR ''/'' (storageKeyForSlug s) = [take 2 s, drop 2 s]"
    by (simp add: storageKeyForSlug_def split_on_append split_on_absent)
  have "normal_seg x" if "set x \<subseteq> set shortSlugCharset" "x \<noteq> []" for x
    using that charset_no_dot by (auto simp: normal_seg_def)
  moreover have "take 2 s \<noteq> []" "drop 2 s \<noteq> []" using len by auto
  ultimately show ?thesis using sub split by (simp add: clean_key_def)
qed

lemma storageKey_inj:
  assumes "slug_shape s" and "slug_shape t" and "storageKeyForSlug s = storageKeyForSlug t"
  shows "s = t"
proof -
  have "2 \<le> length s" "2 \<le> length t"
    using assms by (simp_all add: slug_shape_def shortSlugMinLen_def)
  then have "take 2 s = take 2 t \<and> drop 2 s = drop 2 t"
    using assms(3) by (simp add: storageKeyForSlug_def)
  then show ?thesis by (metis append_take_drop_id)
qed

lemma play_outcome:
  assumes "case play cfg pf es s of None \<Rightarrow> False | Some s1 \<Rightarrow> P s1"
  shows "reachable cfg pf s (the (play cfg pf es s))" "P (the (play cfg pf es s))"
  using assms by (cases "play cfg pf es s"; simp add: play_reachable)+

end
