(* ===== verification/StorageFs.thy ===== *)
theory StorageFs
  imports Storage GoPath "HOL-Library.AList"
begin

text \<open>
  The filesystem store of \<open>server/storage_fs.go\<close>. The file system is an association list from
  paths to entries; every system call first takes the next entry of \<open>io_faults\<close>, the script of
  the failures the operating system injects, so each error branch of the code is a branch here.
  A failing write has written some number of bytes before it failed.
\<close>

section \<open>The file system\<close>

datatype fs_entry = FFile bytes int | FDir

type_synonym io_fault = "(string \<times> nat) option"

record fsys =
  entries :: "(string \<times> fs_entry) list"
  io_faults :: "io_fault list"
  fs_now :: int

definition chunkSize :: nat where
  "chunkSize = 8 * 1024 * 1024"

definition next_fault :: "fsys \<Rightarrow> io_fault \<times> fsys" where
  "next_fault s = (case io_faults s of [] \<Rightarrow> (None, s) | f # fs \<Rightarrow> (f, s\<lparr>io_faults := fs\<rparr>))"

definition set_entry :: "string \<Rightarrow> fs_entry \<Rightarrow> fsys \<Rightarrow> fsys" where
  "set_entry p e s = s\<lparr>entries := AList.update p e (entries s)\<rparr>"

text \<open>\<open>os.MkdirAll\<close> of a directory whose parent exists.\<close>

definition os_MkdirAll :: "string \<Rightarrow> fsys \<Rightarrow> string option \<times> fsys" where
  "os_MkdirAll d s =
     (case next_fault s of
        (Some (e, _), s1) \<Rightarrow> (Some e, s1)
      | (None, s1) \<Rightarrow>
          (case map_of (entries s1) d of
             Some (FFile _ _) \<Rightarrow> (Some ''not a directory'', s1)
           | _ \<Rightarrow> (None, set_entry d FDir s1)))"

text \<open>\<open>os.Create\<close>: truncates an existing file.\<close>

definition os_Create :: "string \<Rightarrow> fsys \<Rightarrow> string option \<times> fsys" where
  "os_Create p s =
     (case next_fault s of
        (Some (e, _), s1) \<Rightarrow> (Some e, s1)
      | (None, s1) \<Rightarrow>
          (case map_of (entries s1) p of
             Some FDir \<Rightarrow> (Some ''is a directory'', s1)
           | _ \<Rightarrow> (None, set_entry p (FFile [] (fs_now s1)) s1)))"

text \<open>The writes of one copy to an open file, and its \<open>Close\<close>.\<close>

definition os_Write :: "string \<Rightarrow> bytes \<Rightarrow> fsys \<Rightarrow> string option \<times> fsys" where
  "os_Write p b s =
     (case next_fault s of
        (Some (e, n), s1) \<Rightarrow> (Some e, set_entry p (FFile (take n b) (fs_now s1)) s1)
      | (None, s1) \<Rightarrow> (None, set_entry p (FFile b (fs_now s1)) s1))"

definition os_Close :: "fsys \<Rightarrow> string option \<times> fsys" where
  "os_Close s = (case next_fault s of (f, s1) \<Rightarrow> (map_option fst f, s1))"

text \<open>\<open>os.Remove\<close>: \<open>NotExist\<close> is the error \<open>os.IsNotExist\<close> recognises.\<close>

datatype remove_error = NotExist | RemoveErr string

definition os_Remove :: "string \<Rightarrow> fsys \<Rightarrow> remove_error option \<times> fsys" where
  "os_Remove p s =
     (case next_fault s of
        (Some (e, _), s1) \<Rightarrow> (Some (RemoveErr e), s1)
      | (None, s1) \<Rightarrow>
          (case map_of (entries s1) p of
             None \<Rightarrow> (Some NotExist, s1)
           | Some FDir \<Rightarrow>
               if \<exists>q \<in> set (map fst (entries s1)). prefix (p @ ''/'') q
               then (Some (RemoveErr ''directory not empty''), s1)
               else (None, s1\<lparr>entries := AList.delete p (entries s1)\<rparr>)
           | Some (FFile _ _) \<Rightarrow> (None, s1\<lparr>entries := AList.delete p (entries s1)\<rparr>)))"

section \<open>The store\<close>

definition fs_path :: "string \<Rightarrow> string \<Rightarrow> string" where
  "fs_path dir key = path_join dir key"

text \<open>
  \<open>fsStorage.Put\<close>. A write that fails ends the copy before the reader can overflow, so its error
  is the one returned.
\<close>

definition fs_Put :: "string \<Rightarrow> string \<Rightarrow> reader \<Rightarrow> int \<Rightarrow> fsys \<Rightarrow> (blob_error + int) \<times> fsys" where
  "fs_Put dir key r maxBytes s =
     (let dest = fs_path dir key in
      case os_MkdirAll (path_dir dest) s of
        (Some e, s1) \<Rightarrow> (Inl (BlobOther e), s1)
      | (None, s1) \<Rightarrow>
      (case os_Create dest s1 of
        (Some e, s2) \<Rightarrow> (Inl (BlobOther e), s2)
      | (None, s2) \<Rightarrow>
      (let (fin, out, rd) = copy_capped (chunkSize - 1) (newCapReader r maxBytes) [] in
       case os_Write dest out s2 of
        (Some e, s3) \<Rightarrow> (Inl (BlobOther e), snd (os_Remove dest (snd (os_Close s3))))
      | (None, s3) \<Rightarrow>
         if fin \<noteq> CapEOF then
           (Inl (if overflowed rd then BlobTooLarge
                 else BlobOther (case fin of CapErr e \<Rightarrow> e | _ \<Rightarrow> [])),
            snd (os_Remove dest (snd (os_Close s3))))
         else if int (length out) > maxBytes then
           (Inl BlobTooLarge, snd (os_Remove dest (snd (os_Close s3))))
         else
           (case os_Close s3 of
              (Some e, s4) \<Rightarrow> (Inl (BlobOther e), snd (os_Remove dest s4))
            | (None, s4) \<Rightarrow> (Inr (int (length out)), s4)))))"

definition fs_Get :: "string \<Rightarrow> string \<Rightarrow> fsys \<Rightarrow> (blob_error + bytes \<times> BlobInfo) \<times> fsys" where
  "fs_Get dir key s =
     (case next_fault s of
        (Some (e, _), s1) \<Rightarrow> (Inl (BlobOther e), s1)
      | (None, s1) \<Rightarrow>
      (case map_of (entries s1) (fs_path dir key) of
         None \<Rightarrow> (Inl BlobNotFound, s1)
       | Some entry \<Rightarrow>
         (case next_fault s1 of
            (Some (e, _), s2) \<Rightarrow> (Inl (BlobOther e), s2)
          | (None, s2) \<Rightarrow>
            (case entry of
               FDir \<Rightarrow> (Inl BlobNotFound, s2)
             | FFile b t \<Rightarrow>
                 (Inr (b, \<lparr>BlobSize = int (length b), ModTime = t, ETag = []\<rparr>), s2)))))"

definition fs_Delete :: "string \<Rightarrow> string \<Rightarrow> fsys \<Rightarrow> blob_error option \<times> fsys" where
  "fs_Delete dir key s =
     (case os_Remove (fs_path dir key) s of
        (Some (RemoveErr e), s1) \<Rightarrow> (Some (BlobOther e), s1)
      | (_, s1) \<Rightarrow> (None, s1))"

text \<open>The blob under a key, as a reader of the directory sees it.\<close>

definition file_at :: "fsys \<Rightarrow> string \<Rightarrow> bytes option" where
  "file_at s p = (case map_of (entries s) p of Some (FFile b _) \<Rightarrow> Some b | _ \<Rightarrow> None)"

definition fs_look :: "string \<Rightarrow> fsys \<Rightarrow> string \<Rightarrow> bytes option" where
  "fs_look dir s key = file_at s (fs_path dir key)"

section \<open>System calls and files\<close>

lemma next_fault_file: "next_fault s = (f, s1) \<Longrightarrow> file_at s1 = file_at s"
  by (auto simp: next_fault_def file_at_def fun_eq_iff split: list.splits)

lemma file_at_set:
  "file_at (set_entry p e s) q =
     (if q = p then (case e of FFile b _ \<Rightarrow> Some b | FDir \<Rightarrow> None) else file_at s q)"
  by (auto simp: file_at_def set_entry_def update_conv' split: fs_entry.splits)

lemma file_at_delete:
  "file_at (s\<lparr>entries := AList.delete p (entries s)\<rparr>) q = (if q = p then None else file_at s q)"
  by (simp add: file_at_def delete_conv')

lemma file_at_None: "map_of (entries s) p = None \<Longrightarrow> file_at s p = None"
  by (simp add: file_at_def)

lemma file_at_FDir: "map_of (entries s) p = Some FDir \<Longrightarrow> file_at s p = None"
  by (simp add: file_at_def)

lemma file_at_FFile: "map_of (entries s) p = Some (FFile b t) \<Longrightarrow> file_at s p = Some b"
  by (simp add: file_at_def)

lemmas file_at_absent = file_at_None file_at_FDir

lemma os_MkdirAll_file:
  assumes "os_MkdirAll d s = (e, s1)"
  shows "file_at s1 = file_at s"
proof -
  obtain f s2 where nf: "next_fault s = (f, s2)" by (metis prod.collapse)
  have "file_at s1 = file_at s2"
    using assms nf unfolding os_MkdirAll_def fun_eq_iff
    by (auto simp: file_at_set file_at_absent split: prod.splits option.splits fs_entry.splits)
  with next_fault_file [OF nf] show ?thesis by simp
qed

lemma os_Create_file: "os_Create p s = (e, s1) \<Longrightarrow> q \<noteq> p \<Longrightarrow> file_at s1 q = file_at s q"
  unfolding os_Create_def
  by (auto simp: file_at_set dest!: next_fault_file
      split: prod.splits option.splits fs_entry.splits)

lemma os_Write_file:
  "os_Write p b s = (e, s1) \<Longrightarrow>
     (q \<noteq> p \<longrightarrow> file_at s1 q = file_at s q) \<and> (e = None \<longrightarrow> file_at s1 p = Some b)"
  unfolding os_Write_def
  by (auto simp: file_at_set dest!: next_fault_file split: prod.splits option.splits)

lemma os_Close_file: "os_Close s = (e, s1) \<Longrightarrow> file_at s1 = file_at s"
  by (auto simp: os_Close_def dest: next_fault_file split: prod.splits)

lemma os_Remove_file:
  "os_Remove p s = (e, s1) \<Longrightarrow>
     (q \<noteq> p \<longrightarrow> file_at s1 q = file_at s q)
     \<and> ((e = None \<or> e = Some NotExist) \<longrightarrow> file_at s1 p = None)"
  unfolding os_Remove_def
  by (auto dest!: next_fault_file simp: file_at_delete file_at_None
      split: prod.splits option.splits fs_entry.splits if_splits)

lemma os_Close_snd: "file_at (snd (os_Close s)) = file_at s"
  by (metis os_Close_file prod.collapse)

lemma os_Remove_snd: "q \<noteq> p \<Longrightarrow> file_at (snd (os_Remove p s)) q = file_at s q"
  by (metis os_Remove_file prod.collapse)

section \<open>Laws of the store\<close>

lemma fs_Put_cleanup:
  "q \<noteq> p \<Longrightarrow> file_at (snd (os_Remove p (snd (os_Close s)))) q = file_at s q"
  by (simp add: os_Remove_snd os_Close_snd)

lemma fs_Put_file:
  assumes "fs_Put dir k r mx s = (res, s')"
  shows "(q \<noteq> fs_path dir k \<longrightarrow> file_at s' q = file_at s q)
    \<and> (\<forall>n. res = Inr n \<longrightarrow> file_at s' (fs_path dir k) = Some (reader_bytes r)
          \<and> n = int (length (reader_bytes r)) \<and> n \<le> mx \<and> ending r = EOF)"
proof -
  define dest where "dest = fs_path dir k"
  obtain e1 s1 where m: "os_MkdirAll (path_dir dest) s = (e1, s1)" by (metis prod.collapse)
  obtain e2 s2 where c: "os_Create dest s1 = (e2, s2)" by (metis prod.collapse)
  obtain fin out rd where cp: "copy_capped (chunkSize - 1) (newCapReader r mx) [] = (fin, out, rd)"
    by (metis prod.collapse)
  obtain e3 s3 where w: "os_Write dest out s2 = (e3, s3)" by (metis prod.collapse)
  obtain e4 s4 where cl: "os_Close s3 = (e4, s4)" by (metis prod.collapse)
  have keep: "file_at s1 q = file_at s q" "q \<noteq> dest \<Longrightarrow> file_at s2 q = file_at s q"
    "q \<noteq> dest \<Longrightarrow> file_at s3 q = file_at s q" "file_at s4 = file_at s3"
    using os_MkdirAll_file [OF m] os_Create_file [OF c] os_Write_file [OF w] os_Close_file [OF cl]
    by simp_all
  note unfold = assms [unfolded fs_Put_def Let_def, folded dest_def, unfolded m prod.case]
  consider "e1 \<noteq> None" | "e1 = None" "e2 \<noteq> None" | "e1 = None" "e2 = None" "e3 \<noteq> None"
    | "e1 = None" "e2 = None" "e3 = None" "fin \<noteq> CapEOF \<or> int (length out) > mx \<or> e4 \<noteq> None"
    | "e1 = None" "e2 = None" "e3 = None" "fin = CapEOF" "int (length out) \<le> mx" "e4 = None"
    by linarith
  then show ?thesis
  proof cases
    case 5
    with unfold c cp w cl have "res = Inr (int (length out)) \<and> s' = s4" by simp
    with 5 keep os_Write_file [OF w] copy_new_capped [OF cp] show ?thesis
      by (auto simp: dest_def)
  qed (use unfold c cp w cl keep in
      \<open>auto simp: fs_Put_cleanup os_Remove_snd dest_def split: if_splits option.splits\<close>)
qed

lemma fs_Get_file:
  assumes "fs_Get dir k s = (res, s')"
  shows "file_at s' = file_at s
    \<and> (\<forall>b info. res = Inr (b, info) \<longrightarrow>
         file_at s (fs_path dir k) = Some b \<and> BlobSize info = int (length b))
    \<and> (res = Inl BlobNotFound \<longrightarrow> file_at s (fs_path dir k) = None)"
  using assms unfolding fs_Get_def
  by (auto split: prod.splits option.splits fs_entry.splits
      dest!: next_fault_file file_at_None file_at_FDir file_at_FFile)

lemma fs_Delete_file:
  assumes "fs_Delete dir k s = (res, s')"
  shows "(q \<noteq> fs_path dir k \<longrightarrow> file_at s' q = file_at s q)
    \<and> (res = None \<longrightarrow> file_at s' (fs_path dir k) = None)"
  using assms unfolding fs_Delete_def
  by (auto split: prod.splits option.splits remove_error.splits
      dest!: os_Remove_file [where q = q])

lemma fs_path_neq:
  "clean_key k \<Longrightarrow> clean_key k' \<Longrightarrow> k' \<noteq> k \<Longrightarrow> fs_path dir k' \<noteq> fs_path dir k"
  using path_join_inj by (auto simp: fs_path_def)

interpretation fs: blob_store "fs_Put dir" "fs_Get dir" "fs_Delete dir" "fs_look dir" clean_key
  for dir
proof (unfold_locales, goal_cases)
  case (1 k r mx s n s' k')
  then show ?case
    using fs_Put_file [OF 1(2), of "fs_path dir k'"] fs_path_neq [OF 1(1) 1(3)]
    by (cases "k' = k") (simp_all add: fs_look_def)
next
  case (2 k mx r s n s')
  then show ?case using fs_Put_file by blast
next
  case (3 k r mx s res s' k')
  then show ?case
    using fs_Put_file [OF 3(2), of "fs_path dir k'"] fs_path_neq [OF 3(1) 3(3)]
    by (simp add: fs_look_def)
next
  case (4 k s b info s')
  then show ?case using fs_Get_file [OF 4(2)] by (simp add: fs_look_def)
next
  case (5 k s s')
  then show ?case using fs_Get_file [OF 5(2)] by (simp add: fs_look_def)
next
  case (6 k s g s')
  then show ?case using fs_Get_file [OF 6(2)] by (simp add: fs_look_def fun_eq_iff)
next
  case (7 k s s' k')
  then show ?case
    using fs_Delete_file [OF 7(2), of "fs_path dir k'"] fs_path_neq [OF 7(1) 7(3)]
    by (cases "k' = k") (simp_all add: fs_look_def)
next
  case (8 k s d s' k')
  then show ?case
    using fs_Delete_file [OF 8(2), of "fs_path dir k'"] fs_path_neq [OF 8(1) 8(3)]
    by (simp add: fs_look_def)
qed

end
