(* ===== verification/Availability.thy ===== *)
theory Availability
  imports Interleaving StorageFs
begin

text \<open>
  The invariant that ties the two stores together: at every moment of every interleaving, under
  every failure script, each live record has its bytes in the blob store, with the size the
  record states. It is proved for any store that keeps the laws of \<open>blob_store\<close>.
\<close>

section \<open>What a step may do to the tables\<close>

definition settled :: "tables \<Rightarrow> string \<Rightarrow> bool" where
  "settled d s \<longleftrightarrow> (\<exists>r \<in> set (files d). Slug r = s \<and> \<not> Pending r)"

definition retired_row :: "tables \<Rightarrow> string \<Rightarrow> bool" where
  "retired_row d s \<longleftrightarrow> (\<exists>r \<in> set (files d). Slug r = s \<and> \<not> Pending r \<and> Deleted r)"

definition pending_row :: "tables \<Rightarrow> string \<Rightarrow> bool" where
  "pending_row d s \<longleftrightarrow> (\<exists>r \<in> set (files d). Slug r = s \<and> Pending r \<and> \<not> Deleted r)"

fun quiet :: "string set \<Rightarrow> db_write \<Rightarrow> bool" where
  "quiet S (Finalize s n m) = False"
| "quiet S (Abort s) = (s \<in> S)"
| "quiet S (Retire s) = (s \<in> S)"
| "quiet S w = True"

lemma row_unique:
  "db_wf d \<Longrightarrow> r \<in> set (files d) \<Longrightarrow> r' \<in> set (files d) \<Longrightarrow> Slug r = Slug r' \<Longrightarrow> r = r'"
  unfolding db_wf_def slugs_def by (metis distinct_map_inj)

lemma pending_not_settled: "db_wf d \<Longrightarrow> pending_row d s \<Longrightarrow> \<not> settled d s"
  by (auto simp: pending_row_def settled_def dest: row_unique)

lemma retired_settled: "retired_row d s \<Longrightarrow> settled d s"
  by (auto simp: retired_row_def settled_def)

lemma set_files_update:
  "set (files (update_file s f d)) = (\<lambda>r. if Slug r = s then f r else r) ` set (files d)"
  by (simp add: update_file_def)

lemma update_file_in:
  "r \<in> set (files d) \<Longrightarrow> Slug r = s \<Longrightarrow> f r \<in> set (files (update_file s f d))"
  by (force simp: set_files_update)

lemma retire_retires:
  assumes "r \<in> set (files d)" and "Slug r = s" and "\<not> Pending r"
  shows "retired_row (update_file s (\<lambda>r. r\<lparr>Deleted := True\<rparr>) d) s"
proof -
  have "r\<lparr>Deleted := True\<rparr> \<in> set (files (update_file s (\<lambda>r. r\<lparr>Deleted := True\<rparr>) d))"
    using update_file_in [OF assms(1,2), of "\<lambda>r. r\<lparr>Deleted := True\<rparr>"] .
  moreover have "Slug (r\<lparr>Deleted := True\<rparr>) = s \<and> \<not> Pending (r\<lparr>Deleted := True\<rparr>)
      \<and> Deleted (r\<lparr>Deleted := True\<rparr>)" using assms by simp
  ultimately show ?thesis unfolding retired_row_def by blast
qed

lemma pending_stable_write:
  assumes "quiet S w" and "s \<notin> S" and "pending_row d s"
  shows "pending_row (apply_write w d) s"
  using assms by (cases w) (auto simp: pending_row_def set_files_update)

lemma live_back_write:
  assumes "quiet S w" and "write_ok w d" and "r \<in> set (files (apply_write w d))" and "live r"
  shows "r \<in> set (files d)"
  using assms by (cases w) (auto simp: set_files_update live_def split: if_splits)

lemma pending_stable: "writes (quiet S) d e \<Longrightarrow> s \<notin> S \<Longrightarrow> pending_row d s \<Longrightarrow> pending_row e s"
  by (erule writes_invariant) (auto intro: pending_stable_write)

lemma live_back:
  "writes (quiet S) d e \<Longrightarrow> r \<in> set (files e) \<Longrightarrow> live r \<Longrightarrow> r \<in> set (files d)"
proof (induction arbitrary: r rule: writes.induct)
  case (more d e w)
  then show ?case using live_back_write by blast
qed

lemma history_nth:
  assumes "history d e" and "r \<in> set (files d)"
  obtains r' where "r' \<in> set (files e)" "Slug r' = Slug r" "\<not> Pending r \<longrightarrow> \<not> Pending r'"
    "Deleted r \<longrightarrow> Deleted r'" "StorageKey r' = StorageKey r"
proof -
  obtain i where i: "i < length (files d)" "files d ! i = r" using assms(2) by (metis in_set_conv_nth)
  with assms(1) have "files e ! i \<in> set (files e)" by (simp add: history_def)
  with i assms(1) that [of "files e ! i"] show thesis by (auto simp: history_def)
qed

lemma settled_stable: "history d e \<Longrightarrow> settled d s \<Longrightarrow> settled e s"
  unfolding settled_def by (metis history_nth)

lemma retired_stable: "history d e \<Longrightarrow> retired_row d s \<Longrightarrow> retired_row e s"
  unfolding retired_row_def by (metis history_nth)

section \<open>The threads\<close>

definition slug_record :: "FileRecord \<Rightarrow> bool" where
  "slug_record r \<longleftrightarrow> slug_shape (Slug r) \<and> StorageKey r = storageKeyForSlug (Slug r)"

text \<open>The slug of the pending record a thread works on.\<close>

fun owned_by :: "upload_state \<Rightarrow> string list" where
  "owned_by (UStore job rec old) = [Slug rec]"
| "owned_by (UScan job rec old n) = [Slug rec]"
| "owned_by (UAuthorize rec old n ts) = [Slug rec]"
| "owned_by (UFinalize rec old n ts) = [Slug rec]"
| "owned_by (UDiscard rec resp) = [Slug rec]"
| "owned_by (UAbort rec resp) = [Slug rec]"
| "owned_by st = []"

fun owned :: "thread \<Rightarrow> string list" where
  "owned (TUpload r st) = owned_by st"
| "owned t = []"

definition replaceable :: "tables \<Rightarrow> FileRecord option \<Rightarrow> bool" where
  "replaceable d old \<longleftrightarrow> (\<forall>x. old = Some x \<longrightarrow> slug_record x \<and> settled d (Slug x))"

definition gone :: "tables \<Rightarrow> FileRecord \<Rightarrow> bool" where
  "gone d r \<longleftrightarrow> slug_record r \<and> retired_row d (Slug r)"

definition reserved_row :: "tables \<Rightarrow> FileRecord \<Rightarrow> bool" where
  "reserved_row d r \<longleftrightarrow> slug_record r \<and> pending_row d (Slug r)"

definition has_blob :: "(string \<Rightarrow> bytes option) \<Rightarrow> string \<Rightarrow> int \<Rightarrow> bool" where
  "has_blob blobs key n \<longleftrightarrow> (\<exists>b. blobs key = Some b \<and> int (length b) = n)"

fun upload_ok :: "tables \<Rightarrow> (string \<Rightarrow> bytes option) \<Rightarrow> upload_state \<Rightarrow> bool" where
  "upload_ok d blobs (UStore job rec old) \<longleftrightarrow> reserved_row d rec \<and> replaceable d old"
| "upload_ok d blobs (UScan job rec old n) \<longleftrightarrow>
     reserved_row d rec \<and> replaceable d old \<and> has_blob blobs (StorageKey rec) n"
| "upload_ok d blobs (UAuthorize rec old n ts) \<longleftrightarrow>
     reserved_row d rec \<and> replaceable d old \<and> has_blob blobs (StorageKey rec) n"
| "upload_ok d blobs (UFinalize rec old n ts) \<longleftrightarrow>
     reserved_row d rec \<and> replaceable d old \<and> has_blob blobs (StorageKey rec) n"
| "upload_ok d blobs (UApply rec old ts) \<longleftrightarrow> replaceable d old"
| "upload_ok d blobs (UReport rec old) \<longleftrightarrow> (\<forall>x. old = Some x \<longrightarrow> gone d x)"
| "upload_ok d blobs (UReclaim old resp) \<longleftrightarrow> gone d old"
| "upload_ok d blobs (UDiscard rec resp) \<longleftrightarrow> reserved_row d rec"
| "upload_ok d blobs (UAbort rec resp) \<longleftrightarrow> reserved_row d rec"
| "upload_ok d blobs st \<longleftrightarrow> True"

fun reading :: "endpoint \<Rightarrow> bool" where
  "reading EpUpload = False"
| "reading (EpDelete slug) = False"
| "reading (EpAddTags slug) = False"
| "reading (EpRemoveTag slug tag) = False"
| "reading ep = True"

lemma not_reading: "\<not> reading ep \<Longrightarrow> \<exists>perm. route_permission ep = Some perm"
  by (cases ep) simp_all

fun thread_ok :: "tables \<Rightarrow> (string \<Rightarrow> bytes option) \<Rightarrow> thread \<Rightarrow> bool" where
  "thread_ok d blobs (TUpload r st) \<longleftrightarrow> upload_ok d blobs st"
| "thread_ok d blobs (TDeleteBlob rec) \<longleftrightarrow> gone d rec"
| "thread_ok d blobs (TServe r ep) \<longleftrightarrow> reading ep \<or> (\<exists>slug tag. ep = EpRemoveTag slug tag)"
| "thread_ok d blobs t \<longleftrightarrow> True"

definition live_stored :: "tables \<Rightarrow> (string \<Rightarrow> bytes option) \<Rightarrow> bool" where
  "live_stored d blobs \<longleftrightarrow>
     (\<forall>r \<in> set (files d). live r \<longrightarrow> has_blob blobs (StorageKey r) (Size r))"

definition sys_ok :: "tables \<Rightarrow> (string \<Rightarrow> bytes option) \<Rightarrow> thread list \<Rightarrow> bool" where
  "sys_ok d blobs ts \<longleftrightarrow> db_wf d \<and> live_stored d blobs
     \<and> (\<forall>t \<in> set ts. thread_ok d blobs t) \<and> distinct (concat (map owned ts))"

section \<open>Steps that leave other threads alone\<close>

text \<open>
  A step of a thread that owns the slugs \<open>S\<close> takes the tables from \<open>d\<close> to \<open>e\<close> and the blobs from
  \<open>b\<close> to \<open>c\<close>. It changes no blob but that of a slug it owns or of a retired one, keeps the pending
  rows of others and the settled rows of all, and every live record of \<open>e\<close> was live in \<open>d\<close> or is
  stored.
\<close>

definition polite ::
  "string set \<Rightarrow> tables \<Rightarrow> (string \<Rightarrow> bytes option) \<Rightarrow> tables \<Rightarrow> (string \<Rightarrow> bytes option) \<Rightarrow> bool" where
  "polite S d b e c \<longleftrightarrow> history d e \<and> db_wf e
     \<and> (\<forall>s. slug_shape s \<longrightarrow> s \<notin> S \<longrightarrow> \<not> retired_row d s
          \<longrightarrow> c (storageKeyForSlug s) = b (storageKeyForSlug s))
     \<and> (\<forall>s. s \<notin> S \<longrightarrow> pending_row d s \<longrightarrow> pending_row e s)
     \<and> (\<forall>r \<in> set (files e). live r \<longrightarrow>
          (r \<in> set (files d) \<and> Slug r \<notin> S) \<or> has_blob c (StorageKey r) (Size r))"

lemma pending_not_retired: "db_wf d \<Longrightarrow> pending_row d s \<Longrightarrow> \<not> retired_row d s"
  by (auto dest: pending_not_settled retired_settled)

lemma live_not_retired: "db_wf d \<Longrightarrow> r \<in> set (files d) \<Longrightarrow> live r \<Longrightarrow> \<not> retired_row d (Slug r)"
  by (auto simp: retired_row_def live_def dest: row_unique)

lemma wf_slug_record: "db_wf d \<Longrightarrow> r \<in> set (files d) \<Longrightarrow> slug_record r"
  by (simp add: db_wf_def slug_record_def)

lemma polite_live:
  assumes "polite S d b e c" and "db_wf d" and "live_stored d b"
  shows "live_stored e c"
  unfolding live_stored_def
proof (intro ballI impI)
  fix r assume r: "r \<in> set (files e)" "live r"
  show "has_blob c (StorageKey r) (Size r)"
  proof (cases "r \<in> set (files d) \<and> Slug r \<notin> S")
    case True
    then have "has_blob b (StorageKey r) (Size r)" using assms(3) r by (simp add: live_stored_def)
    moreover have "slug_record r" using wf_slug_record assms(2) True by blast
    moreover have "\<not> retired_row d (Slug r)" using live_not_retired assms(2) True r by blast
    ultimately show ?thesis
      using assms(1) True unfolding polite_def has_blob_def slug_record_def by metis
  qed (use assms(1) r in \<open>auto simp: polite_def\<close>)
qed

lemma polite_reserved:
  "polite S d b e c \<Longrightarrow> Slug r \<notin> S \<Longrightarrow> reserved_row d r \<Longrightarrow> reserved_row e r"
  by (simp add: polite_def reserved_row_def)

lemma polite_replaceable: "polite S d b e c \<Longrightarrow> replaceable d old \<Longrightarrow> replaceable e old"
  by (auto simp: polite_def replaceable_def intro: settled_stable)

lemma polite_gone: "polite S d b e c \<Longrightarrow> gone d r \<Longrightarrow> gone e r"
  by (auto simp: polite_def gone_def intro: retired_stable)

lemma polite_blob:
  assumes "polite S d b e c" and "db_wf d" and "Slug r \<notin> S" and "reserved_row d r"
    and "has_blob b (StorageKey r) n"
  shows "has_blob c (StorageKey r) n"
proof -
  have "slug_record r" and "\<not> retired_row d (Slug r)"
    using assms pending_not_retired by (auto simp: reserved_row_def)
  then have "c (StorageKey r) = b (StorageKey r)"
    using assms(1,3) by (simp add: polite_def slug_record_def)
  with assms(5) show ?thesis by (simp add: has_blob_def)
qed

lemma polite_thread:
  assumes "polite S d b e c" and "db_wf d" and "thread_ok d b t" and "set (owned t) \<inter> S = {}"
  shows "thread_ok e c t"
proof (cases t)
  case (TUpload r st)
  with assms show ?thesis
    by (cases st) (auto intro: polite_reserved polite_replaceable polite_gone polite_blob)
qed (use assms in \<open>auto intro: polite_gone\<close>)

lemma polite_quiet:
  assumes "writes (quiet Q) d e" and "db_wf d"
    and "\<And>s. s \<in> Q \<Longrightarrow> s \<in> S \<or> settled d s" and "\<And>s. s \<in> S \<Longrightarrow> pending_row d s"
    and "\<And>s. slug_shape s \<Longrightarrow> s \<notin> S \<Longrightarrow> \<not> retired_row d s \<Longrightarrow>
           c (storageKeyForSlug s) = b (storageKeyForSlug s)"
  shows "polite S d b e c"
proof -
  have "pending_row e s" if "s \<notin> S" "pending_row d s" for s
  proof (rule pending_stable [OF assms(1)])
    show "s \<notin> Q" using that assms(2,3) pending_not_settled by blast
  qed (rule that)
  moreover have "r \<in> set (files d) \<and> Slug r \<notin> S" if r: "r \<in> set (files e)" "live r" for r
  proof -
    have "r \<in> set (files d)" using live_back [OF assms(1) r] .
    then have "settled d (Slug r)" using r by (auto simp: settled_def live_def)
    with \<open>r \<in> set (files d)\<close> show ?thesis using assms(2,4) pending_not_settled by blast
  qed
  ultimately show ?thesis
    using assms writes_history writes_wf by (auto simp: polite_def)
qed

lemma polite_same_db:
  assumes "db_wf d" and "\<And>s. s \<in> S \<Longrightarrow> pending_row d s"
    and "\<And>s. slug_shape s \<Longrightarrow> s \<notin> S \<Longrightarrow> \<not> retired_row d s \<Longrightarrow>
           c (storageKeyForSlug s) = b (storageKeyForSlug s)"
  shows "polite S d b d c"
  by (rule polite_quiet [where Q = "{}"]) (use assms writes.none in auto)

text \<open>Finalizing: the one step that makes a record live.\<close>

lemma polite_finalize:
  assumes "db_wf d" and "pending_row d s" and "slug_shape s"
    and "has_blob b (storageKeyForSlug s) n"
  shows "polite {s} d b (apply_write (Finalize s n m) d) b"
proof -
  let ?e = "apply_write (Finalize s n m) d"
  have w: "writes (\<lambda>_. True) d ?e" by (rule writes_one) simp_all
  have "pending_row ?e s'" if "s' \<notin> {s}" "pending_row d s'" for s'
    using that by (auto simp: pending_row_def set_files_update)
  moreover have "(r \<in> set (files d) \<and> Slug r \<notin> {s}) \<or> has_blob b (StorageKey r) (Size r)"
    if r: "r \<in> set (files ?e)" "live r" for r
  proof -
    obtain r0 where r0: "r0 \<in> set (files d)"
      "r = (if Slug r0 = s then r0\<lparr>Size := n, Modified := m, Pending := False\<rparr> else r0)"
      using r(1) by (auto simp: set_files_update)
    have "StorageKey r0 = storageKeyForSlug (Slug r0)"
      using wf_slug_record [OF assms(1) r0(1)] by (simp add: slug_record_def)
    with r0 assms(4) show ?thesis by (cases "Slug r0 = s") auto
  qed
  ultimately show ?thesis
    using assms writes_history [OF w] writes_wf [OF w] by (auto simp: polite_def)
qed

text \<open>The slugs a thread owns after a step: as before, none, or one that was not in use.\<close>

definition owned_next :: "tables \<Rightarrow> string list \<Rightarrow> string list \<Rightarrow> bool" where
  "owned_next d old new \<longleftrightarrow> new = [] \<or> new = old \<or> (\<exists>s. new = [s] \<and> s \<notin> set (slugs d))"

definition good_step ::
  "string list \<Rightarrow> tables \<Rightarrow> (string \<Rightarrow> bytes option) \<Rightarrow> tables \<Rightarrow> (string \<Rightarrow> bytes option) \<Rightarrow> thread \<Rightarrow> bool" where
  "good_step old d b e c t \<longleftrightarrow>
     polite (set old) d b e c \<and> thread_ok e c t \<and> owned_next d old (owned t)"

lemma pending_slug: "pending_row d s \<Longrightarrow> s \<in> set (slugs d)"
  by (auto simp: pending_row_def slugs_def)

lemma owned_pending: "thread_ok d b t \<Longrightarrow> s \<in> set (owned t) \<Longrightarrow> pending_row d s"
proof (cases t)
  case (TUpload r st)
  then show "thread_ok d b t \<Longrightarrow> s \<in> set (owned t) \<Longrightarrow> pending_row d s"
    by (cases st) (auto simp: reserved_row_def)
qed auto

lemma good_step_same_db:
  assumes "db_wf d" and "thread_ok d b t" and "thread_ok d b t'" and "owned_next d (owned t) (owned t')"
  shows "good_step (owned t) d b d b t'"
proof -
  have "polite (set (owned t)) d b d b"
    by (rule polite_same_db) (use assms owned_pending in auto)
  with assms show ?thesis by (simp add: good_step_def)
qed

section \<open>Every step is good, over any lawful store\<close>

locale served_store = blob_store "Put pf" "Get pf" "Delete pf" look good_key
  for pf :: "'s platform" and look and good_key +
  assumes slug_keys: "slug_shape s \<Longrightarrow> good_key (storageKeyForSlug s)"
begin

lemma delete_others:
  assumes "on_store (Delete pf (StorageKey rec)) srv = (x, srv1)" and "slug_record rec"
    and "slug_shape s" and "s \<noteq> Slug rec"
  shows "look (store srv1) (storageKeyForSlug s) = look (store srv) (storageKeyForSlug s)"
proof -
  have k: "StorageKey rec = storageKeyForSlug (Slug rec)" "slug_shape (Slug rec)"
    using assms(2) by (simp_all add: slug_record_def)
  then have "storageKeyForSlug s \<noteq> StorageKey rec" using assms(3,4) storageKey_inj by metis
  moreover have "Delete pf (StorageKey rec) (store srv) = (x, store srv1)"
    using assms(1) by (rule on_store_store [THEN conjunct1])
  ultimately show ?thesis using delete_frame k slug_keys assms(3) by metis
qed

lemma put_others:
  assumes "on_store (Put pf (StorageKey rec) rd mx) srv = (x, srv1)" and "slug_record rec"
    and "slug_shape s" and "s \<noteq> Slug rec"
  shows "look (store srv1) (storageKeyForSlug s) = look (store srv) (storageKeyForSlug s)"
proof -
  have k: "StorageKey rec = storageKeyForSlug (Slug rec)" "slug_shape (Slug rec)"
    using assms(2) by (simp_all add: slug_record_def)
  then have "storageKeyForSlug s \<noteq> StorageKey rec" using assms(3,4) storageKey_inj by metis
  moreover have "Put pf (StorageKey rec) rd mx (store srv) = (x, store srv1)"
    using assms(1) by (rule on_store_store [THEN conjunct1])
  ultimately show ?thesis using put_frame k slug_keys assms(3) by metis
qed

lemma put_stores:
  assumes "on_store (Put pf (StorageKey rec) rd mx) srv = (Inr n, srv1)" and "slug_record rec"
  shows "has_blob (look (store srv1)) (StorageKey rec) n"
proof -
  have k: "good_key (StorageKey rec)" using assms(2) slug_keys by (simp add: slug_record_def)
  have p: "Put pf (StorageKey rec) rd mx (store srv) = (Inr n, store srv1)"
    using assms(1) by (rule on_store_store [THEN conjunct1])
  show ?thesis using put_ok [OF k p k] put_size [OF k p] by (simp add: has_blob_def)
qed

lemma get_same:
  assumes "on_store (Get pf (StorageKey rec)) srv = (x, srv1)" and "slug_record rec"
  shows "look (store srv1) = look (store srv) \<and> conn srv1 = conn srv"
proof -
  have "good_key (StorageKey rec)" using assms(2) slug_keys by (simp add: slug_record_def)
  moreover have "Get pf (StorageKey rec) (store srv) = (x, store srv1)" "conn srv1 = conn srv"
    using on_store_store [OF assms(1)] by simp_all
  ultimately show ?thesis using get_frame by metis
qed

end

end
