(* ===== verification/ServedSystem.thy ===== *)
theory ServedSystem
  imports Availability
begin

text \<open>
  The steps of every thread keep the invariant of \<open>Availability\<close>: one lemma per step, then the
  system. Everything is proved for any store with the laws of \<open>blob_store\<close> and holds for the
  filesystem store by interpretation.
\<close>

section \<open>Steps on the database\<close>

lemma good_quiet:
  assumes "writes (quiet Q) d e" and "db_wf d" and "thread_ok d b t"
    and "\<And>s. s \<in> Q \<Longrightarrow> s \<in> set (owned t) \<or> settled d s"
    and "thread_ok e b t'" and "owned_next d (owned t) (owned t')"
  shows "good_step (owned t) d b e b t'"
proof -
  have "polite (set (owned t)) d b e b"
    by (rule polite_quiet [OF assms(1,2)]) (use assms(4) owned_pending [OF assms(3)] in auto)
  with assms show ?thesis by (simp add: good_step_def)
qed

lemma live_by_name_in:
  "live_by_name name d = Some r \<Longrightarrow> r \<in> set (files d) \<and> DisplayName r = name \<and> live r"
  unfolding live_by_name_def by (drule find_Some_in) simp

lemma live_replaceable:
  "db_wf d \<Longrightarrow> r \<in> set (files d) \<Longrightarrow> live r \<Longrightarrow> replaceable d (Some r)"
  using wf_slug_record by (auto simp: replaceable_def settled_def live_def)

lemma check_good:
  assumes "upload_check r job srv = (st', srv1)" and "db_wf (tables_of srv)"
  shows "good_step (owned (TUpload r (UCheck job))) (tables_of srv) b (tables_of srv1) b (TUpload r st')
    \<and> store srv1 = store srv"
proof -
  obtain x s1 where q: "on_db (liveRecordByName (job_name job)) srv = (x, s1)" by (metis prod.collapse)
  have same: "tables_of s1 = tables_of srv \<and> store s1 = store srv"
    using on_db_conn [OF q] query_db by (auto simp: liveRecordByName_def findLiveRecordByName_def)
  have st: "srv1 = s1 \<and> owned_by st' = [] \<and> upload_ok (tables_of srv) b st'"
    using assms(1) unfolding upload_check_def q
    by (auto split: sum.splits option.splits if_splits)
  have "good_step (owned (TUpload r (UCheck job))) (tables_of srv) b (tables_of srv) b (TUpload r st')"
    by (rule good_step_same_db) (use assms(2) st in \<open>auto simp: owned_next_def\<close>)
  with same st show ?thesis by simp
qed

lemma reserve_good:
  assumes "upload_reserve cfg job srv = (st', srv1)" and wf: "db_wf (tables_of srv)"
  shows "good_step (owned (TUpload r (UReserve job))) (tables_of srv) b (tables_of srv1) b (TUpload r st')
    \<and> store srv1 = store srv"
proof -
  let ?d = "tables_of srv"
  obtain x s1 where q: "on_db (reserveUpload (appendOnly cfg) (job_name job) (job_mime job)) srv = (x, s1)"
    by (metis prod.collapse)
  note c = on_db_conn [OF q]
  show ?thesis
  proof (cases x)
    case (Inl e)
    with c have "tables_of s1 = ?d" using reserveUpload_Inl by auto
    moreover have "srv1 = s1 \<and> owned_by st' = [] \<and> upload_ok ?d b st'"
      using assms(1) Inl unfolding upload_reserve_def q by auto
    moreover have "good_step [] ?d b ?d b (TUpload r st')" if "owned_by st' = []" "upload_ok ?d b st'"
      using good_step_same_db [of ?d b "TUpload r (UReserve job)" "TUpload r st'"] wf that
      by (simp add: owned_next_def)
    ultimately show ?thesis using c by simp
  next
    case (Inr p)
    obtain rec old where p: "p = (rec, old)" by (cases p)
    have st: "srv1 = s1" "st' = UStore job rec old"
      using assms(1) Inr p unfolding upload_reserve_def q by auto
    have res: "reserved (job_name job) (job_mime job) rec ?d (tables_of s1)"
      and old: "old = (if appendOnly cfg then None else live_by_name (job_name job) ?d)"
      using reserveUpload_Inr [of "appendOnly cfg" "job_name job" "job_mime job" "conn srv" rec old
          "conn s1"] c Inr p by auto
    note rec = reservedD [OF res]
    have w: "writes (quiet {}) ?d (tables_of s1)"
      using rec by (simp only:) (rule writes_one; simp)
    have "replaceable ?d old"
    proof (cases old)
      case (Some r0)
      with old have "r0 \<in> set (files ?d) \<and> live r0" by (auto split: if_splits dest: live_by_name_in [OF sym])
      with Some wf show ?thesis using live_replaceable by blast
    qed (simp add: replaceable_def)
    then have "replaceable (tables_of s1) old"
      using writes_history [OF w] settled_stable by (auto simp: replaceable_def)
    moreover have "reserved_row (tables_of s1) rec"
      using rec by (auto simp: reserved_row_def slug_record_def pending_row_def)
    ultimately have "good_step (owned (TUpload r (UReserve job))) ?d b (tables_of s1) b (TUpload r st')"
      by (intro good_quiet [OF w wf]) (use st rec in \<open>auto simp: owned_next_def\<close>)
    with st c show ?thesis by simp
  qed
qed

lemma scan_good:
  assumes "upload_ok d b (UScan job rec old n)" and "db_wf d"
  shows "good_step (owned (TUpload r (UScan job rec old n))) d b d b
    (TUpload r (upload_scan pf job rec old n))"
  by (rule good_step_same_db)
    (use assms in \<open>auto simp: upload_scan_def owned_next_def split: sum.splits\<close>)

lemma tagOwner_db [frame_simps]: "db (snd (tagOwner t c)) = db c"
  by (simp add: tagOwner_def frame_simps)

lemma tagsOfSlug_db [frame_simps]: "db (snd (tagsOfSlug s c)) = db c"
  by (simp add: tagsOfSlug_def frame_simps)

lemma tagsOwned_db [frame_simps]: "db (snd (tagsOwnedByAnotherFile ts ex c)) = db c"
proof (induction ts arbitrary: c)
  case (Cons t ts)
  show ?case
    unfolding tagsOwnedByAnotherFile.simps
    by (intro same_db.bind_sum) (simp_all add: frame_simps Cons.IH)
qed simp

lemma uploadTagPermissions_snd: "db (snd (uploadTagPermissions ts old c)) = db c"
  unfolding uploadTagPermissions_def Let_def
  by (intro same_db.bind_sum same_db.if_then same_db.case_opt) (simp_all add: frame_simps)

lemma uploadTagPermissions_db: "uploadTagPermissions ts old c = (x, c1) \<Longrightarrow> db c1 = db c"
  using uploadTagPermissions_snd [of ts old c] by simp

lemma authorize_good:
  assumes "upload_authorize r rec old n ts srv = (st', srv1)" and "db_wf (tables_of srv)"
    and "upload_ok (tables_of srv) b (UAuthorize rec old n ts)"
  shows "good_step (owned (TUpload r (UAuthorize rec old n ts))) (tables_of srv) b (tables_of srv1) b
      (TUpload r st') \<and> store srv1 = store srv"
proof -
  obtain x s1 where q: "on_db (uploadTagPermissions ts old) srv = (x, s1)" by (metis prod.collapse)
  have same: "tables_of s1 = tables_of srv \<and> store s1 = store srv"
    using on_db_conn [OF q] uploadTagPermissions_db by auto
  have st: "srv1 = s1 \<and> owned_by st' = [Slug rec] \<and> upload_ok (tables_of srv) b st'"
    using assms(1,3) unfolding upload_authorize_def q Let_def
    by (auto split: sum.splits if_splits)
  have "good_step (owned (TUpload r (UAuthorize rec old n ts))) (tables_of srv) b (tables_of srv) b
      (TUpload r st')"
    by (rule good_step_same_db) (use assms(2,3) st in \<open>auto simp: owned_next_def\<close>)
  with same st show ?thesis by simp
qed

lemma finalize_now_db:
  "finalize_now s n c = (x, c1) \<Longrightarrow>
     (\<exists>m. db c1 = apply_write (Finalize s n m) (db c) \<or> ((\<exists>e. x = Inl e) \<and> db c1 = db c))
     \<and> (\<forall>r. x = Inr r \<longrightarrow> Slug r = s \<and> r \<in> set (files (db c1)))"
proof -
  assume a: "finalize_now s n c = (x, c1)"
  obtain m c0 where t: "time_now c = (m, c0)" by (metis prod.collapse)
  then have c0: "db c0 = db c" by (rule time_now_db)
  from a t have f: "finalizeUpload s n m c0 = (x, c1)" by (simp add: finalize_now_def)
  show ?thesis
  proof (cases x)
    case (Inl e)
    with f c0 finalizeUpload_Inl [of s n m c0 e c1] show ?thesis by auto
  next
    case (Inr r)
    with f c0 finalizeUpload_Inr [of s n m c0 r c1] show ?thesis by auto
  qed
qed

lemma finalize_good:
  assumes "upload_finalize rec old n ts srv = (st', srv1)" and wf: "db_wf (tables_of srv)"
    and ok: "upload_ok (tables_of srv) b (UFinalize rec old n ts)"
  shows "good_step (owned (TUpload r (UFinalize rec old n ts))) (tables_of srv) b (tables_of srv1) b
      (TUpload r st') \<and> store srv1 = store srv"
proof -
  let ?d = "tables_of srv" and ?t = "TUpload r (UFinalize rec old n ts)"
  obtain x s1 where q: "on_db (finalize_now (Slug rec) n) srv = (x, s1)" by (metis prod.collapse)
  note c = on_db_conn [OF q]
  have st: "srv1 = s1 \<and> owned_by st' = [] \<and>
      ((\<exists>resp. st' = UDone resp) \<or> (\<exists>f. x = Inr f \<and> st' = UApply f old ts))"
    using assms(1) unfolding upload_finalize_def q by (auto split: sum.splits)
  have rec: "pending_row ?d (Slug rec)" "slug_shape (Slug rec)"
      "StorageKey rec = storageKeyForSlug (Slug rec)" "has_blob b (StorageKey rec) n"
    using ok by (auto simp: reserved_row_def slug_record_def)
  consider m where "tables_of s1 = apply_write (Finalize (Slug rec) n m) ?d"
    | "tables_of s1 = ?d" "\<exists>e. x = Inl e"
    using finalize_now_db c by blast
  then show ?thesis
  proof cases
    case (1 m)
    have p: "polite {Slug rec} ?d b (tables_of s1) b"
      using polite_finalize [OF wf rec(1,2), of b n m] rec(3,4) 1 by simp
    then have "upload_ok (tables_of s1) b st'"
      using st ok polite_replaceable by auto
    with p st c show ?thesis by (simp add: good_step_def owned_next_def)
  next
    case 2
    then have "good_step (owned ?t) ?d b ?d b (TUpload r st')"
      by (intro good_step_same_db) (use wf ok st in \<open>auto simp: owned_next_def\<close>)
    with 2 st c show ?thesis by simp
  qed
qed

lemma applyUploadTags_retires:
  assumes "applyUploadTags new ts s c = (Inr u, c1)" and "s \<noteq> []" and "s \<in> set (slugs (db c))"
    and "\<And>r. r \<in> set (files (db c)) \<Longrightarrow> Slug r = s \<Longrightarrow> \<not> Pending r"
  shows "retired_row (db c1) s"
proof -
  from assms(1,2) have tx: "in_tx (applyUploadTags_body new ts s) c = (Inr u, c1)"
    by (simp add: applyUploadTags_def)
  then show ?thesis
  proof (cases rule: in_tx_cases)
    case (rollback c0 c2)
    then show ?thesis
      by (auto simp: applyUploadTags_body_def split: prod.splits sum.splits if_splits)
  next
    case (commit c0 c2)
    obtain now c3 where t: "time_now c0 = (now, c3)" by (metis prod.collapse)
    obtain x c4 where u: "upsertAll ts new now c3 = (x, c4)" by (metis prod.collapse)
    obtain y c5 where del: "deleteTagsForSlug s c4 = (y, c5)" by (metis prod.collapse)
    obtain z c6 where ex: "execute (update_file s (\<lambda>r. r\<lparr>Deleted := True\<rparr>)) c5 = (z, c6)"
      by (metis prod.collapse)
    have "db c2 = db c6 \<and> (\<exists>v. z = Inr v)"
      using commit(2) assms(2) t u del ex unfolding applyUploadTags_body_def
      by (auto split: sum.splits)
    then have c2: "db c2 = update_file s (\<lambda>r. r\<lparr>Deleted := True\<rparr>) (db c5)"
      using ex execute_Inr by auto
    have "writes (\<lambda>w. case w of MoveTag k s n \<Rightarrow> True | _ \<Rightarrow> False) (db c3) (db (snd (upsertAll ts new now c3)))"
      by (rule writes_upsertAll) simp
    then have "files (db c4) = files (db c3)"
      unfolding u snd_conv
      by (induction rule: writes.induct) (auto split: db_write.splits)
    moreover have "files (db c5) = files (db c4)"
      using del by (cases y) (auto simp: deleteTagsForSlug_def dest!: execute_Inr execute_Inl)
    ultimately have f: "files (db c5) = files (db c)"
      using time_now_db [OF t] commit(1) by simp
    obtain r where r: "r \<in> set (files (db c))" "Slug r = s" using assms(3) by (auto simp: slugs_def)
    with assms(4) f have "retired_row (db c2) s" unfolding c2 by (intro retire_retires) simp_all
    with commit(3) show ?thesis by simp
  qed
qed

lemma settled_unpending:
  "db_wf d \<Longrightarrow> settled d s \<Longrightarrow> r \<in> set (files d) \<Longrightarrow> Slug r = s \<Longrightarrow> \<not> Pending r"
  by (auto simp: settled_def dest: row_unique)

lemma settled_slug: "settled d s \<Longrightarrow> s \<in> set (slugs d)"
  by (auto simp: settled_def slugs_def)

lemma slug_shape_nonempty: "slug_shape s \<Longrightarrow> s \<noteq> []"
  by (auto simp: slug_shape_def shortSlugMinLen_def)

lemma apply_good:
  assumes "upload_apply rec old ts srv = (st', srv1)" and wf: "db_wf (tables_of srv)"
    and ok: "upload_ok (tables_of srv) b (UApply rec old ts)"
  shows "good_step (owned (TUpload r (UApply rec old ts))) (tables_of srv) b (tables_of srv1) b
      (TUpload r st') \<and> store srv1 = store srv"
proof -
  let ?d = "tables_of srv" and ?s = "replacedSlug old"
  obtain x s1 where q: "on_db (applyUploadTags (Slug rec) ts ?s) srv = (x, s1)" by (metis prod.collapse)
  note c = on_db_conn [OF q]
  have st: "srv1 = s1 \<and> owned_by st' = [] \<and>
      ((\<exists>resp. st' = UDone resp) \<or> (\<exists>u. x = Inr u \<and> st' = UReport rec old))"
    using assms(1) unfolding upload_apply_def q by (auto split: sum.splits)
  have old: "settled ?d ?s" "slug_shape ?s" if "?s \<noteq> []"
    using ok that by (auto simp: replaceable_def replacedSlug_def slug_record_def split: option.splits)
  let ?Q = "if ?s = [] then {} else {?s}"
  have "writes (quiet ?Q) ?d (db (snd (applyUploadTags (Slug rec) ts ?s (conn srv))))"
    by (rule writes_applyUploadTags) auto
  then have w: "writes (quiet ?Q) ?d (tables_of s1)" using c by simp
  have "upload_ok (tables_of s1) b st'"
  proof (cases "\<exists>u. x = Inr u \<and> st' = UReport rec old")
    case True
    then obtain u where u: "x = Inr u" "st' = UReport rec old" by blast
    have "gone (tables_of s1) o1" if o1: "old = Some o1" for o1
    proof -
      have s: "?s = Slug o1" "slug_record o1" "settled ?d (Slug o1)"
        using o1 ok by (simp_all add: replacedSlug_def replaceable_def)
      then have "?s \<noteq> []" using slug_shape_nonempty by (auto simp: slug_record_def)
      then have "retired_row (tables_of s1) ?s"
        using c u s settled_slug settled_unpending [OF wf]
        by (intro applyUploadTags_retires [of "Slug rec" ts ?s "conn srv" u]) auto
      with s show ?thesis by (simp add: gone_def)
    qed
    with u show ?thesis by simp
  qed (use st in auto)
  then have "good_step (owned (TUpload r (UApply rec old ts))) ?d b (tables_of s1) b (TUpload r st')"
    by (intro good_quiet [OF w wf]) (use ok st old in \<open>auto simp: owned_next_def split: if_splits\<close>)
  with st c show ?thesis by simp
qed

lemma report_good:
  assumes "upload_report rec old srv = (st', srv1)" and "db_wf (tables_of srv)"
    and "upload_ok (tables_of srv) b (UReport rec old)"
  shows "good_step (owned (TUpload r (UReport rec old))) (tables_of srv) b (tables_of srv1) b
      (TUpload r st') \<and> store srv1 = store srv"
proof -
  obtain x s1 where q: "on_db (tagsOfSlug (Slug rec)) srv = (x, s1)" by (metis prod.collapse)
  have same: "tables_of s1 = tables_of srv \<and> store s1 = store srv"
    using on_db_conn [OF q] query_db by (auto simp: tagsOfSlug_def)
  have st: "srv1 = s1 \<and> owned_by st' = [] \<and> upload_ok (tables_of srv) b st'"
    using assms(1,3) unfolding upload_report_def q Let_def
    by (auto split: sum.splits option.splits)
  have "good_step (owned (TUpload r (UReport rec old))) (tables_of srv) b (tables_of srv) b (TUpload r st')"
    by (rule good_step_same_db) (use assms(2,3) st in \<open>auto simp: owned_next_def\<close>)
  with same st show ?thesis by simp
qed

lemma abort_good:
  assumes "upload_abort rec resp srv = (st', srv1)" and wf: "db_wf (tables_of srv)"
    and ok: "upload_ok (tables_of srv) b (UAbort rec resp)"
  shows "good_step (owned (TUpload r (UAbort rec resp))) (tables_of srv) b (tables_of srv1) b
      (TUpload r st') \<and> store srv1 = store srv"
proof -
  obtain x s1 where q: "on_db (abortUpload (Slug rec)) srv = (x, s1)" by (metis prod.collapse)
  note c = on_db_conn [OF q]
  have st: "srv1 = s1" "st' = UDone resp" using assms(1) unfolding upload_abort_def q by auto
  have "writes (quiet {Slug rec}) (tables_of srv) (db (snd (abortUpload (Slug rec) (conn srv))))"
    by (rule writes_abortUpload) simp_all
  then have w: "writes (quiet {Slug rec}) (tables_of srv) (tables_of s1)" using c by simp
  have "good_step (owned (TUpload r (UAbort rec resp))) (tables_of srv) b (tables_of s1) b (TUpload r st')"
    by (rule good_quiet [OF w wf]) (use ok st in \<open>auto simp: owned_next_def\<close>)
  with st c show ?thesis by simp
qed

section \<open>Deletion and tags\<close>

lemma delete_record_good:
  assumes "delete_record cfg slug srv = (x, srv1)" and wf: "db_wf (tables_of srv)"
  shows "good_step (owned (TDelete slug)) (tables_of srv) b (tables_of srv1) b
      (case x of Inl resp \<Rightarrow> TDone resp | Inr rec \<Rightarrow> TDeleteBlob rec) \<and> store srv1 = store srv"
proof -
  let ?d = "tables_of srv"
  obtain y s1 where q: "on_db (softDeleteBySlug slug) srv = (y, s1)" by (metis prod.collapse)
  note c = on_db_conn [OF q]
  have same: "good_step (owned (TDelete slug)) ?d b ?d b (TDone resp)" for resp
    by (rule good_step_same_db) (simp_all add: wf owned_next_def)
  consider "appendOnly cfg" | "\<not> appendOnly cfg" "\<exists>e. y = Inl e \<or> y = Inr None"
    | rec where "\<not> appendOnly cfg" "y = Inr (Some rec)"
    by (cases y rule: result_option_cases) auto
  then show ?thesis
  proof cases
    case 1
    with assms(1) same show ?thesis by (auto simp: delete_record_def)
  next
    case 2
    then have "tables_of s1 = ?d"
      using c softDeleteBySlug_Inl softDeleteBySlug_Inr [of slug "conn srv" None "conn s1"] by auto
    moreover have "srv1 = s1 \<and> (\<exists>resp. x = Inl resp)"
      using assms(1) 2 unfolding delete_record_def q by auto
    ultimately show ?thesis using same c by auto
  next
    case (3 rec)
    then have x: "x = Inr rec" "srv1 = s1"
      using assms(1) unfolding delete_record_def q by auto
    have r: "rec \<in> set (files ?d)" "Slug rec = slug" "live rec" "tables_of s1 = retired slug ?d"
      using c 3 softDeleteBySlug_Inr [of slug "conn srv" "Some rec" "conn s1"] by auto
    have "writes (quiet {slug}) ?d (apply_write (Retire slug) ?d)" by (rule writes_one) simp_all
    then have w: "writes (quiet {slug}) ?d (tables_of s1)"
      unfolding r(4) retired_def by (rule writes.more) simp_all
    have "retired_row (apply_write (Retire slug) ?d) slug"
      using r by (simp add: retire_retires live_def)
    then have "gone (tables_of s1) rec"
      using wf_slug_record [OF wf r(1)] r(2,4)
      by (simp add: gone_def retired_def retired_row_def)
    then have "good_step (owned (TDelete slug)) ?d b (tables_of s1) b (TDeleteBlob rec)"
      by (intro good_quiet [OF w wf])
        (use r in \<open>auto simp: owned_next_def settled_def live_def\<close>)
    with x c show ?thesis by simp
  qed
qed

lemma liveSlugExists_db [frame_simps]: "db (snd (liveSlugExists s c)) = db c"
  by (simp add: liveSlugExists_def frame_simps)

definition same_tables :: "'s server \<Rightarrow> 's server \<Rightarrow> bool" where
  "same_tables srv srv1 \<longleftrightarrow> tables_of srv1 = tables_of srv \<and> store srv1 = store srv"

interpretation same_srv: effect same_tables
  by unfold_locales (auto simp: same_tables_def)

lemma same_on_db: "(\<And>c. db (snd (f c)) = db c) \<Longrightarrow> same_tables srv (snd (on_db f srv))"
  by (auto simp: same_tables_def on_db_def split: prod.splits) (metis snd_conv)

lemma add_tags_check_same: "same_tables srv (snd (add_tags_check pf slug r srv))"
  unfolding add_tags_check_def
  by (intro same_srv.flow same_on_db) (simp_all add: frame_simps)

lemma add_tags_apply_good:
  assumes "add_tags_apply slug ts srv = (resp, srv1)" and "db_wf (tables_of srv)"
  shows "good_step (owned (TAttach slug ts)) (tables_of srv) b (tables_of srv1) b (TDone resp)
    \<and> store srv1 = store srv"
proof -
  obtain x s1 where q: "on_db (addTagsToSlug slug ts) srv = (x, s1)" by (metis prod.collapse)
  note c = on_db_conn [OF q]
  have "writes (quiet {}) (tables_of srv) (db (snd (addTagsToSlug slug ts (conn srv))))"
    by (rule writes_addTagsToSlug) simp
  then have "writes (quiet {}) (tables_of srv) (tables_of s1)" using c by simp
  then have "good_step (owned (TAttach slug ts)) (tables_of srv) b (tables_of s1) b (TDone resp)"
    by (rule good_quiet) (simp_all add: assms owned_next_def)
  moreover have "srv1 = s1" using assms(1) unfolding add_tags_apply_def q by (auto split: sum.splits)
  ultimately show ?thesis using c by simp
qed

lemma remove_tag_good:
  assumes "removeFileTagHandler pf slug raw r srv = (resp, srv1)" and "db_wf (tables_of srv)"
  shows "good_step (owned (TServe r (EpRemoveTag slug raw))) (tables_of srv) b (tables_of srv1) b (TDone resp)
    \<and> store srv1 = store srv"
proof -
  have "writes (quiet {}) (tables_of srv) (tables_of srv1) \<and> store srv1 = store srv"
  proof (cases "parseTag raw")
    case (Inl e)
    with assms(1) show ?thesis by (auto simp: removeFileTagHandler_def intro: writes.none)
  next
    case (Inr tag)
    obtain x s1 where q: "on_db (removeTagFromSlug slug tag) srv = (x, s1)" by (metis prod.collapse)
    obtain y s2 where q2: "on_db (tagsOfSlug slug) s1 = (y, s2)" by (metis prod.collapse)
    note c = on_db_conn [OF q] on_db_conn [OF q2]
    have "writes (quiet {}) (tables_of srv) (db (snd (removeTagFromSlug slug tag (conn srv))))"
      by (rule writes_removeTagFromSlug) simp
    then have w: "writes (quiet {}) (tables_of srv) (tables_of s1)" using c by simp
    have "tables_of s2 = tables_of s1" using c query_db by (auto simp: tagsOfSlug_def)
    moreover have "srv1 = s1 \<or> srv1 = s2"
      using assms(1) unfolding removeFileTagHandler_def Inr
      by (auto simp: q q2 split: sum.splits if_splits)
    ultimately show ?thesis using w c by auto
  qed
  with assms(2) good_quiet [of "{}" "tables_of srv" "tables_of srv1" b "TServe r (EpRemoveTag slug raw)"
      "TDone resp"]
  show ?thesis by (simp add: owned_next_def)
qed

section \<open>Steps on the blob store\<close>

context served_store
begin

lemma store_good:
  assumes "upload_store cfg pf job rec old srv = (st', srv1)" and wf: "db_wf (tables_of srv)"
    and ok: "upload_ok (tables_of srv) (look (store srv)) (UStore job rec old)"
  shows "good_step (owned (TUpload r (UStore job rec old))) (tables_of srv) (look (store srv))
      (tables_of srv1) (look (store srv1)) (TUpload r st')"
proof -
  obtain x s1 where q: "on_store (Put pf (StorageKey rec) (content (job_part job))
      (maxContentLength cfg)) srv = (x, s1)" by (metis prod.collapse)
  note c = on_store_store [OF q]
  have rec: "slug_record rec" "pending_row (tables_of srv) (Slug rec)" "replaceable (tables_of srv) old"
    using ok by (auto simp: reserved_row_def)
  have "polite {Slug rec} (tables_of srv) (look (store srv)) (tables_of srv) (look (store s1))"
    by (rule polite_same_db [OF wf]) (use rec put_others [OF q rec(1)] in auto)
  moreover have "srv1 = s1 \<and> owned_by st' = [Slug rec] \<and> upload_ok (tables_of srv) (look (store s1)) st'"
  proof (cases x)
    case (Inl e)
    with assms(1) ok show ?thesis unfolding upload_store_def q by (cases e) auto
  next
    case (Inr n)
    then have "has_blob (look (store s1)) (StorageKey rec) n" using put_stores q rec(1) by blast
    with assms(1) ok Inr show ?thesis unfolding upload_store_def q by auto
  qed
  ultimately show ?thesis using c by (simp add: good_step_def owned_next_def)
qed

lemma discard_good:
  assumes "upload_discard pf rec resp srv = (st', srv1)" and wf: "db_wf (tables_of srv)"
    and ok: "upload_ok (tables_of srv) (look (store srv)) (UDiscard rec resp)"
  shows "good_step (owned (TUpload r (UDiscard rec resp))) (tables_of srv) (look (store srv))
      (tables_of srv1) (look (store srv1)) (TUpload r st')"
proof -
  obtain x s1 where q: "on_store (Delete pf (StorageKey rec)) srv = (x, s1)" by (metis prod.collapse)
  note c = on_store_store [OF q]
  have rec: "slug_record rec" "pending_row (tables_of srv) (Slug rec)"
    using ok by (auto simp: reserved_row_def)
  have "polite {Slug rec} (tables_of srv) (look (store srv)) (tables_of srv) (look (store s1))"
    by (rule polite_same_db [OF wf]) (use rec delete_others [OF q rec(1)] in auto)
  moreover have "srv1 = s1" "st' = UAbort rec resp"
    using assms(1) unfolding upload_discard_def q by auto
  ultimately show ?thesis using c ok by (simp add: good_step_def owned_next_def)
qed

lemma delete_gone_good:
  assumes q: "on_store (Delete pf (StorageKey rec)) srv = (x, s1)" and wf: "db_wf (tables_of srv)"
    and "gone (tables_of srv) rec" and "thread_ok (tables_of srv) (look (store s1)) t"
    and "owned t = []"
  shows "good_step [] (tables_of srv) (look (store srv)) (tables_of s1) (look (store s1)) t"
proof -
  note c = on_store_store [OF q]
  have rec: "slug_record rec" "retired_row (tables_of srv) (Slug rec)"
    using assms(3) by (auto simp: gone_def)
  have "polite {} (tables_of srv) (look (store srv)) (tables_of srv) (look (store s1))"
    by (rule polite_same_db [OF wf]) (use rec delete_others [OF q rec(1)] in auto)
  with c assms(4,5) show ?thesis by (simp add: good_step_def owned_next_def)
qed

lemma reclaim_good:
  assumes "upload_reclaim pf old resp srv = (st', srv1)" and "db_wf (tables_of srv)"
    and "upload_ok (tables_of srv) (look (store srv)) (UReclaim old resp)"
  shows "good_step (owned (TUpload r (UReclaim old resp))) (tables_of srv) (look (store srv))
      (tables_of srv1) (look (store srv1)) (TUpload r st')"
proof -
  obtain x s1 where q: "on_store (Delete pf (StorageKey old)) srv = (x, s1)" by (metis prod.collapse)
  have "srv1 = s1" "st' = UDone resp" using assms(1) unfolding upload_reclaim_def q by auto
  with delete_gone_good [OF q assms(2), of "TUpload r st'"] assms(3) show ?thesis by simp
qed

lemma delete_blob_good:
  assumes "delete_blob pf rec srv = (resp, srv1)" and "db_wf (tables_of srv)"
    and "gone (tables_of srv) rec"
  shows "good_step [] (tables_of srv) (look (store srv)) (tables_of srv1) (look (store srv1)) (TDone resp)"
proof -
  obtain x s1 where q: "on_store (Delete pf (StorageKey rec)) srv = (x, s1)" by (metis prod.collapse)
  have "srv1 = s1" using assms(1) unfolding delete_blob_def q by (auto split: option.splits)
  with delete_gone_good [OF q assms(2,3), of "TDone resp"] show ?thesis by simp
qed

lemma upload_step_good:
  assumes "upload_step cfg pf r st srv = (st', srv1)" and "db_wf (tables_of srv)"
    and "upload_ok (tables_of srv) (look (store srv)) st"
  shows "good_step (owned_by st) (tables_of srv) (look (store srv))
      (tables_of srv1) (look (store srv1)) (TUpload r st')"
proof (cases st)
  case (UCheck job)
  with assms check_good [of r job srv st' srv1 "look (store srv)"] show ?thesis by simp
next
  case (UReserve job)
  with assms reserve_good [of cfg job srv st' srv1 r "look (store srv)"] show ?thesis by simp
next
  case (UStore job rec old)
  with assms store_good [of cfg job rec old srv st' srv1 r] show ?thesis by simp
next
  case (UScan job rec old n)
  with assms scan_good [of "tables_of srv" "look (store srv)" job rec old n r pf] show ?thesis by simp
next
  case (UAuthorize rec old n ts)
  with assms authorize_good [of r rec old n ts srv st' srv1 "look (store srv)"] show ?thesis by simp
next
  case (UFinalize rec old n ts)
  with assms finalize_good [of rec old n ts srv st' srv1 "look (store srv)" r] show ?thesis by simp
next
  case (UApply rec old ts)
  with assms apply_good [of rec old ts srv st' srv1 "look (store srv)" r] show ?thesis by simp
next
  case (UReport rec old)
  with assms report_good [of rec old srv st' srv1 "look (store srv)" r] show ?thesis by simp
next
  case (UReclaim old resp)
  with assms reclaim_good [of old resp srv st' srv1 r] show ?thesis by simp
next
  case (UDiscard rec resp)
  with assms discard_good [of rec resp srv st' srv1 r] show ?thesis by simp
next
  case (UAbort rec resp)
  with assms abort_good [of rec resp srv st' srv1 "look (store srv)" r] show ?thesis by simp
next
  case (UDone resp)
  with assms good_step_same_db [of "tables_of srv" "look (store srv)" "TUpload r st" "TUpload r st"]
  show ?thesis by (simp add: owned_next_def)
qed

end

end
