(* ===== verification/Reading.thy ===== *)
theory Reading
  imports ServedSystem
begin

text \<open>
  The routes that only read. What such a route does to the server follows from what serving one
  file does: the locale \<open>reading_frame\<close> proves for any relation between the states before and after
  that it holds over the whole route once it holds over \<open>serveFileRecord\<close>.
\<close>

section \<open>Listings and statistics\<close>

lemma listing_same:
  "same_tables srv (snd (listFilesHandler cfg r srv))"
  "same_tables srv (snd (listAllTagsHandler cfg r srv))"
  "same_tables srv (snd (listFileTagsHandler slug r srv))"
  unfolding listFilesHandler_def listAllTagsHandler_def listFileTagsHandler_def
  by (intro same_srv.flow same_on_db;
      simp add: listLiveRecords_def tagsForSlugs_def listAllTags_def frame_simps)+

lemma fileStats_db [frame_simps]: "db (snd (fileStats c)) = db c"
  unfolding fileStats_def Let_def
  by (cases "sql (\<lambda>d. (if in_int64 (sum_list (map Size (filter live (files d)))) then
      Inr (int (length (filter live (files d))), sum_list (map Size (filter live (files d))),
        fold max (map Modified (filter live (files d))) []) else Inl ''integer overflow'', d)) c")
    (auto dest: sql_Inr sql_Inl simp: sql_def dest!: take_fault_db split: prod.splits option.splits)

lemma statsHandler_same: "same_tables srv (snd (statsHandler r srv))"
  unfolding statsHandler_def
  by (rule same_srv.bind_sum) (auto simp: same_srv.refl frame_simps intro!: same_on_db)

lemma requireToken_rel:
  assumes "effect R" and "\<And>r. R srv (snd (h r srv))"
  shows "R srv (snd (requireToken cfg pf h r srv))"
  using assms by (auto simp: requireToken_def effect.refl split: option.splits)

lemma mayRequireToken_rel:
  assumes "effect R" and "\<And>r. R srv (snd (h r srv))"
  shows "R srv (snd (mayRequireToken cfg pf h r srv))"
  using assms(2) requireToken_rel [of R srv h cfg pf r, OF assms(1)] by (simp add: mayRequireToken_def)

lemma record_by_tag_in: "record_by_tag key d = Some r \<Longrightarrow> r \<in> set (files d) \<and> live r"
  by (auto simp: record_by_tag_def dest: find_Some_in split: option.splits)

lemma latest_by_name_in:
  assumes "latest_by_name name d = Some r"
  shows "r \<in> set (files d) \<and> DisplayName r = name \<and> live r"
proof -
  have "r \<in> set (sort_desc Modified (filter (\<lambda>r. DisplayName r = name \<and> live r) (files d)))"
    using assms by (auto simp: latest_by_name_def split: list.splits)
  then show ?thesis by (simp add: set_sort_desc)
qed

section \<open>Any reading route\<close>

locale reading_frame = effect T for T :: "'s server \<Rightarrow> 's server \<Rightarrow> bool" +
  fixes pf :: "'s platform" and sound :: "tables \<Rightarrow> bool" and servable :: "FileRecord \<Rightarrow> bool"
  assumes unchanged: "same_tables srv srv1 \<Longrightarrow> T srv srv1"
    and found: "sound d \<Longrightarrow> rec \<in> set (files d) \<Longrightarrow> servable rec"
    and serves: "servable rec \<Longrightarrow> T srv (snd (serveFileRecord pf rec r srv))"
begin

lemma looked_up:
  assumes "on_db f srv = (x, s1)" and "\<And>c. db (snd (f c)) = db c"
  shows "T srv s1"
  using same_on_db [OF assms(2), of srv] assms(1) unchanged by simp

lemma looked_up_serves:
  assumes "on_db f srv = (x, s1)" and "\<And>c. db (snd (f c)) = db c"
    and "sound (tables_of srv)" and "rec \<in> set (files (tables_of srv))"
  shows "T srv (snd (serveFileRecord pf rec r s1))"
  using looked_up [OF assms(1,2)] serves [OF found [OF assms(3,4)]] by (blast intro: trans)

lemma shortLink_reads:
  assumes "sound (tables_of srv)"
  shows "T srv (snd (shortLinkHandler pf slug r srv))"
proof -
  obtain x s1 where q: "on_db (getFileRecord slug) srv = (x, s1)" by (metis prod.collapse)
  note same = looked_up [OF q] looked_up_serves [OF q _ assms]
  show ?thesis
  proof (cases x)
    case (Inl e)
    with same show ?thesis unfolding shortLinkHandler_def q by (cases e) (simp_all add: frame_simps)
  next
    case (Inr rec)
    then have "rec \<in> set (files (tables_of srv))" using on_db_conn [OF q] getFileRecord_Inr by blast
    with Inr same show ?thesis unfolding shortLinkHandler_def q by (simp add: frame_simps)
  qed
qed

lemma filename_reads:
  assumes "sound (tables_of srv)"
  shows "T srv (snd (filenameURLHandler cfg pf name r srv))"
proof -
  let ?f = "path_base (path_clean name)"
  obtain x s1 where q: "on_db (query (latest_by_name ?f)) srv = (x, s1)" by (metis prod.collapse)
  have u: "on_db (latestLiveRecordByName ?f) srv = (x, s1)"
    using q by (simp add: latestLiveRecordByName_def)
  note same = looked_up [OF q query_snd] looked_up_serves [OF q query_snd assms]
  show ?thesis
  proof (cases x rule: result_option_cases)
    case (some rec)
    then have "latest_by_name ?f (tables_of srv) = Some rec"
      using on_db_conn [OF q] query_Inr by metis
    with same some latest_by_name_in show ?thesis
      by (auto simp: filenameURLHandler_def Let_def u refl)
  qed (use same in \<open>simp_all add: filenameURLHandler_def Let_def u refl\<close>)
qed

lemma tagDownload_reads:
  assumes "sound (tables_of srv)"
  shows "T srv (snd (tagDownloadHandler pf raw r srv))"
proof (cases "parseTag raw")
  case (Inl e)
  then show ?thesis by (simp add: tagDownloadHandler_def refl)
next
  case (Inr tag)
  let ?k = "(Name tag, Suffix tag)"
  obtain x s1 where q: "on_db (query (record_by_tag ?k)) srv = (x, s1)" by (metis prod.collapse)
  have u: "on_db (liveRecordByTag (Name tag) (Suffix tag)) srv = (x, s1)"
    using q by (simp add: liveRecordByTag_def)
  note same = looked_up [OF q query_snd] looked_up_serves [OF q query_snd assms]
  show ?thesis
  proof (cases x rule: result_option_cases)
    case (some rec)
    then have "record_by_tag ?k (tables_of srv) = Some rec"
      using on_db_conn [OF q] query_Inr by metis
    with same some record_by_tag_in show ?thesis by (auto simp: tagDownloadHandler_def Inr u)
  qed (use same in \<open>simp_all add: tagDownloadHandler_def Inr u\<close>)
qed

lemma may_reads:
  "(\<And>r. same_tables srv (snd (h r srv))) \<Longrightarrow> T srv (snd (mayRequireToken cfg pf h r srv))"
  using mayRequireToken_rel [OF same_srv.effect_axioms] unchanged by metis

lemma route_reads:
  assumes "reading ep" and "sound (tables_of srv)"
  shows "T srv (snd (route cfg pf ep r srv))"
  using assms
  by (cases ep)
    (simp_all add: may_reads statsHandler_same listing_same shortLink_reads filename_reads
      tagDownload_reads healthCheckHandler_def getConfigHandler_def staticHandler_def Let_def refl
      split: option.splits)

end

section \<open>Over a lawful store\<close>

definition same_data :: "('s \<Rightarrow> string \<Rightarrow> bytes option) \<Rightarrow> 's server \<Rightarrow> 's server \<Rightarrow> bool" where
  "same_data look srv srv1 \<longleftrightarrow>
     tables_of srv1 = tables_of srv \<and> look (store srv1) = look (store srv)"

interpretation same_dat: effect "same_data look" for look
  by unfold_locales (auto simp: same_data_def)

sublocale served_store \<subseteq> rd: reading_frame "same_data look" pf db_wf slug_record
proof unfold_locales
  show "same_data look srv (snd (serveFileRecord pf rec r srv))" if "slug_record rec" for rec r srv
  proof -
    obtain x s1 where q: "on_store (Get pf (StorageKey rec)) srv = (x, s1)" by (metis prod.collapse)
    have "snd (serveFileRecord pf rec r srv) = s1"
      unfolding serveFileRecord_def q by (auto split: sum.splits blob_error.splits)
    then show ?thesis using get_same [OF q that] by (simp add: same_data_def)
  qed
qed (auto simp: same_tables_def wf_slug_record same_data_def)

end
