(* ===== verification/SystemInvariant.thy ===== *)
theory SystemInvariant
  imports Reading
begin

text \<open>
  The system: every thread's step is good, so the invariant of \<open>Availability\<close> holds in every
  reachable state; and the invariants of the tables alone, which need no law of the store. The
  filesystem store gives the instance.
\<close>

section \<open>Threads\<close>

lemma start_thread_ok: "thread_ok d b (start_thread cfg pf ep r) \<and> owned (start_thread cfg pf ep r) = []"
proof (cases ep)
  case EpUpload
  have "upload_ok d b (upload_start cfg pf r) \<and> owned_by (upload_start cfg pf r) = []"
    unfolding upload_start_def Let_def by (auto split: sum.splits)
  with EpUpload show ?thesis by simp
qed auto

lemma owned_next_distinct:
  assumes "owned_next d old new" and "distinct (old @ rest)"
    and "\<And>s. s \<in> set rest \<Longrightarrow> s \<in> set (slugs d)"
  shows "distinct (new @ rest)"
  using assms by (auto simp: owned_next_def)

lemma good_step_nothing:
  assumes "db_wf d" and "e = d" and "c = b" and "owned t = []" and "thread_ok e c t"
  shows "good_step [] d b e c t"
  using good_step_same_db [of d b "TDone undefined" t] assms by (simp add: owned_next_def)

context served_store
begin

lemma thread_step_good:
  assumes step: "thread_step cfg pf t srv = (t', srv1)" and wf: "db_wf (tables_of srv)"
    and ok: "thread_ok (tables_of srv) (look (store srv)) t"
  shows "good_step (owned t) (tables_of srv) (look (store srv)) (tables_of srv1) (look (store srv1)) t'"
proof (cases t)
  case (TUpload r st)
  obtain st' s1 where "upload_step cfg pf r st srv = (st', s1)" by (metis prod.collapse)
  with step TUpload upload_step_good [OF _ wf] ok show ?thesis by (auto simp: thread_step_def)
next
  case (TDelete slug)
  obtain x s1 where q: "delete_record cfg slug srv = (x, s1)" by (metis prod.collapse)
  have "t' = (case x of Inl resp \<Rightarrow> TDone resp | Inr rec \<Rightarrow> TDeleteBlob rec)" "srv1 = s1"
    using step TDelete q by (auto simp: thread_step_def split: sum.splits)
  with delete_record_good [OF q wf, of "look (store srv)"] TDelete show ?thesis by simp
next
  case (TDeleteBlob rec)
  obtain resp s1 where q: "delete_blob pf rec srv = (resp, s1)" by (metis prod.collapse)
  with step TDeleteBlob delete_blob_good [OF q wf] ok show ?thesis by (auto simp: thread_step_def)
next
  case (TAddTags r slug)
  obtain x s1 where q: "add_tags_check pf slug r srv = (x, s1)" by (metis prod.collapse)
  then have "same_tables srv s1" using add_tags_check_same [of srv pf slug r] by simp
  moreover have "srv1 = s1 \<and> owned t' = [] \<and> (\<forall>d b. thread_ok d b t')"
    using step TAddTags q by (auto simp: thread_step_def split: sum.splits)
  ultimately show ?thesis
    using TAddTags wf good_step_nothing [of "tables_of srv" "tables_of srv1"]
    by (auto simp: same_tables_def)
next
  case (TAttach slug ts)
  obtain resp s1 where q: "add_tags_apply slug ts srv = (resp, s1)" by (metis prod.collapse)
  with step TAttach add_tags_apply_good [OF q wf] show ?thesis by (auto simp: thread_step_def)
next
  case (TServe r ep)
  show ?thesis
  proof (cases "\<exists>slug tag. ep = EpRemoveTag slug tag")
    case True
    then obtain slug tag where ep: "ep = EpRemoveTag slug tag" by blast
    obtain resp s1 where q: "removeFileTagHandler pf slug tag r srv = (resp, s1)" by (metis prod.collapse)
    with step TServe ep remove_tag_good [OF q wf] show ?thesis by (auto simp: thread_step_def)
  next
    case False
    then have rd: "reading ep" using ok TServe by auto
    obtain resp s1 where q: "route cfg pf ep r srv = (resp, s1)" by (metis prod.collapse)
    have "t' = TDone resp" "srv1 = s1"
      using step TServe q rd by (cases ep; simp add: thread_step_def)+
    moreover have "same_data look srv s1" using rd.route_reads [OF rd wf, of cfg r] q by simp
    ultimately show ?thesis
      using TServe wf good_step_nothing [of "tables_of srv" "tables_of s1" "look (store s1)"
          "look (store srv)" t'] by (simp add: same_data_def)
  qed
next
  case (TDone resp)
  with step have "t' = TDone resp" "srv1 = srv" by (simp_all add: thread_step_def)
  with TDone wf good_step_nothing [of "tables_of srv" "tables_of srv" "look (store srv)"
      "look (store srv)" t] show ?thesis by simp
qed

section \<open>The system\<close>

lemma sys_ok_step:
  assumes "sys_ok (tables_of srv) (look (store srv)) ts" and "sys_step cfg pf (srv, ts) (srv1, ts1)"
  shows "sys_ok (tables_of srv1) (look (store srv1)) ts1"
  using assms(2)
proof (cases rule: sys_step.cases)
  case (arrive ep r)
  then show ?thesis using assms(1) start_thread_ok [of _ _ cfg pf ep r] by (auto simp: sys_ok_def)
next
  case (run i t)
  let ?d = "tables_of srv" and ?b = "look (store srv)"
  let ?e = "tables_of srv1" and ?c = "look (store srv1)"
  have i: "i < length ts" and step: "thread_step cfg pf (ts ! i) srv = (t, srv1)"
    and ts1: "ts1 = ts[i := t]" using run by auto
  have wf: "db_wf ?d" and oks: "\<And>u. u \<in> set ts \<Longrightarrow> thread_ok ?d ?b u"
    and dist: "distinct (concat (map owned ts))" and stored: "live_stored ?d ?b"
    using assms(1) by (auto simp: sys_ok_def)
  have g: "good_step (owned (ts ! i)) ?d ?b ?e ?c t"
    using thread_step_good [OF step wf] oks i by simp
  then have p: "polite (set (owned (ts ! i))) ?d ?b ?e ?c" and new: "thread_ok ?e ?c t"
    and nxt: "owned_next ?d (owned (ts ! i)) (owned t)" by (auto simp: good_step_def)
  have ts: "ts = take i ts @ ts ! i # drop (Suc i) ts" using i by (rule id_take_nth_drop)
  have ts1': "ts1 = take i ts @ t # drop (Suc i) ts" using i ts1 by (simp add: upd_conv_take_nth_drop)
  let ?others = "take i ts @ drop (Suc i) ts"
  have perm: "distinct (owned (ts ! i) @ concat (map owned ?others))"
    using dist by (subst (asm) ts) auto
  have sub: "u \<in> set ts" if "u \<in> set ?others" for u
    using that by (auto dest: in_set_takeD in_set_dropD)
  have apart: "set (owned u) \<inter> set (owned (ts ! i)) = {}" if "u \<in> set ?others" for u
    using perm that by auto
  have "thread_ok ?e ?c u" if "u \<in> set ?others" for u
    using polite_thread [OF p wf oks [OF sub [OF that]] apart [OF that]] .
  then have "\<forall>u \<in> set ts1. thread_ok ?e ?c u" using new by (auto simp: ts1')
  moreover have "distinct (concat (map owned ts1))"
  proof -
    have "s \<in> set (slugs ?d)" if "s \<in> set (concat (map owned ?others))" for s
      using that oks sub owned_pending pending_slug by (metis concat_map_in)
    then have "distinct (owned t @ concat (map owned ?others))"
      by (rule owned_next_distinct [OF nxt perm])
    then show ?thesis by (auto simp: ts1')
  qed
  moreover have "db_wf ?e" using p by (simp add: polite_def)
  moreover have "live_stored ?e ?c" using polite_live [OF p wf stored] .
  ultimately show ?thesis by (simp add: sys_ok_def)
qed

lemma history_step:
  assumes "sys_ok (tables_of srv) (look (store srv)) ts" and "sys_step cfg pf (srv, ts) (srv1, ts1)"
  shows "history (tables_of srv) (tables_of srv1)"
  using assms(2)
proof (cases rule: sys_step.cases)
  case (arrive ep r)
  then show ?thesis by (simp add: history_refl)
next
  case (run i t)
  with assms(1) thread_step_good [of cfg "ts ! i" srv t srv1] show ?thesis
    by (simp add: sys_ok_def good_step_def polite_def)
qed

lemma sys_ok_reachable:
  assumes "reachable cfg pf (srv, []) (srv1, ts)"
    and "db_wf (tables_of srv)" and "live_stored (tables_of srv) (look (store srv))"
  shows "sys_ok (tables_of srv1) (look (store srv1)) ts \<and> history (tables_of srv) (tables_of srv1)"
proof -
  have "(\<lambda>(v, us). sys_ok (tables_of v) (look (store v)) us \<and> history (tables_of srv) (tables_of v))
      (srv1, ts)"
  proof (rule reachable_invariant [OF assms(1)])
    show "case (srv, []) of (v, us) \<Rightarrow>
        sys_ok (tables_of v) (look (store v)) us \<and> history (tables_of srv) (tables_of v)"
      using assms by (simp add: sys_ok_def history_refl)
  next
    fix s s1
    assume inv: "case s of (v, us) \<Rightarrow> sys_ok (tables_of v) (look (store v)) us
        \<and> history (tables_of srv) (tables_of v)" and step: "sys_step cfg pf s s1"
    obtain v us v1 us1 where s: "s = (v, us)" "s1 = (v1, us1)" by (metis prod.collapse)
    with inv step have "sys_ok (tables_of v1) (look (store v1)) us1"
      "history (tables_of v) (tables_of v1)"
      using sys_ok_step history_step by auto
    with inv s show "case s1 of (v, us) \<Rightarrow> sys_ok (tables_of v) (look (store v)) us
        \<and> history (tables_of srv) (tables_of v)"
      by (auto intro: history_trans)
  qed
  then show ?thesis by simp
qed

end

section \<open>The filesystem instance\<close>

definition fs_platform :: "string \<Rightarrow> fsys platform \<Rightarrow> fsys platform" where
  "fs_platform dir pf = pf\<lparr>Put := fs_Put dir, Get := fs_Get dir, Delete := fs_Delete dir\<rparr>"

interpretation served_fs: served_store "fs_platform dir pf" "fs_look dir" clean_key for dir pf
proof -
  have "blob_store (Put (fs_platform dir pf)) (Get (fs_platform dir pf)) (Delete (fs_platform dir pf))
      (fs_look dir) clean_key"
    using fs.blob_store_axioms by (simp add: fs_platform_def)
  then show "served_store (fs_platform dir pf) (fs_look dir) clean_key"
    by (simp add: served_store_def served_store_axioms_def storageKey_clean)
qed

end
