(* ===== verification/Refinement.thy ===== *)
theory Refinement
  imports SystemInvariant
begin

text \<open>
  Every step of every handler refines the abstract machine of \<open>Writes\<close>: \<open>may_write\<close> names the
  writes a step may issue, whatever the stores and the network do. No law of the blob store is
  used. The invariants of the tables follow for every reachable state, and in append-only mode no
  live record is ever lost.
\<close>

section \<open>The writes of each step\<close>

fun upload_may :: "upload_state \<Rightarrow> db_write \<Rightarrow> bool" where
  "upload_may (UReserve job) w \<longleftrightarrow> (\<exists>r. w = InsertPending r \<and> DisplayName r = job_name job)"
| "upload_may (UFinalize rec old n ts) w \<longleftrightarrow> (\<exists>m. w = Finalize (Slug rec) n m)"
| "upload_may (UApply f old ts) w \<longleftrightarrow>
     (\<exists>t \<in> set ts. \<exists>now. w = MoveTag (key_of t) (Slug f) now)
     \<or> (\<exists>x. old = Some x \<and> (w = DropTagsOf (Slug x) \<or> w = Retire (Slug x)))"
| "upload_may (UAbort rec resp) w \<longleftrightarrow> w = Abort (Slug rec) \<or> w = DropTagsOf (Slug rec)"
| "upload_may st w \<longleftrightarrow> False"

fun may_write :: "settings \<Rightarrow> thread \<Rightarrow> db_write \<Rightarrow> bool" where
  "may_write cfg (TUpload r st) w \<longleftrightarrow> upload_may st w"
| "may_write cfg (TDelete slug) w \<longleftrightarrow>
     \<not> appendOnly cfg \<and> (w = Retire slug \<or> w = DropTagsOf slug)"
| "may_write cfg (TAttach slug ts) w \<longleftrightarrow> (\<exists>t \<in> set ts. \<exists>now. w = MoveTag (key_of t) slug now)"
| "may_write cfg (TServe r (EpRemoveTag slug raw)) w \<longleftrightarrow>
     (\<exists>t. parseTag raw = Inr t \<and> w = DropTag (key_of t) slug)"
| "may_write cfg t w \<longleftrightarrow> False"

definition srv_writes :: "(db_write \<Rightarrow> bool) \<Rightarrow> 's server \<Rightarrow> 's server \<Rightarrow> bool" where
  "srv_writes P srv srv1 \<longleftrightarrow> writes P (tables_of srv) (tables_of srv1)"

interpretation sw: effect "srv_writes P" for P
  by unfold_locales (auto simp: srv_writes_def intro: writes.none writes_trans)

lemma sw_db:
  "(\<And>c. writes P (db c) (db (snd (f c)))) \<Longrightarrow> srv_writes P srv (snd (on_db f srv))"
  by (auto simp: srv_writes_def on_db_def split: prod.splits) (metis snd_conv)

lemma sw_store: "srv_writes P srv (snd (on_store f srv))"
  by (auto simp: srv_writes_def on_store_def intro: writes.none split: prod.splits)

lemma sw_same: "(\<And>c. db (snd (f c)) = db c) \<Longrightarrow> srv_writes P srv (snd (on_db f srv))"
  by (rule sw_db) (simp add: writes.none)

lemma sw_tables: "same_tables srv srv1 \<Longrightarrow> srv_writes P srv srv1"
  by (simp add: srv_writes_def same_tables_def writes.none)

lemma writes_finalize_now:
  "(\<And>m. P (Finalize s n m)) \<Longrightarrow> writes P (db c) (db (snd (finalize_now s n c)))"
  unfolding finalize_now_def by (intro wr.flow writes_time_now writes_finalizeUpload)

lemma upload_step_writes: "srv_writes (upload_may st) srv (snd (upload_step cfg pf r st srv))"
proof (cases st)
  case (UCheck job)
  show ?thesis
    unfolding UCheck upload_step.simps upload_check_def
    by (intro sw.flow sw_same) (simp add: liveRecordByName_def findLiveRecordByName_def frame_simps)
next
  case (UReserve job)
  show ?thesis
    unfolding UReserve upload_step.simps upload_reserve_def
    by (intro sw.flow sw_db writes_reserveUpload) simp
next
  case (UStore job rec old)
  show ?thesis
    unfolding UStore upload_step.simps upload_store_def
    by (rule sw.bind_prod [OF sw_store]) (auto simp: sw.refl split: sum.splits blob_error.splits)
next
  case (UScan job rec old n)
  then show ?thesis by (simp add: sw.refl)
next
  case (UAuthorize rec old n ts)
  show ?thesis
    unfolding UAuthorize upload_step.simps upload_authorize_def
    by (intro sw.flow sw_same uploadTagPermissions_snd)
next
  case (UFinalize rec old n ts)
  show ?thesis
    unfolding UFinalize upload_step.simps upload_finalize_def
    by (intro sw.flow sw_db writes_finalize_now) simp
next
  case (UApply f old ts)
  show ?thesis
    unfolding UApply upload_step.simps upload_apply_def
    by (intro sw.flow sw_db writes_applyUploadTags)
      (auto simp: replacedSlug_def split: option.splits)
next
  case (UReport f old)
  show ?thesis
    unfolding UReport upload_step.simps upload_report_def
    by (intro sw.flow sw_same) (simp add: frame_simps)
next
  case (UReclaim old resp)
  show ?thesis
    unfolding UReclaim upload_step.simps upload_reclaim_def
    by (rule sw.bind_prod [OF sw_store]) (simp add: sw.refl)
next
  case (UDiscard rec resp)
  show ?thesis
    unfolding UDiscard upload_step.simps upload_discard_def
    by (rule sw.bind_prod [OF sw_store]) (simp add: sw.refl)
next
  case (UAbort rec resp)
  show ?thesis
    unfolding UAbort upload_step.simps upload_abort_def
    by (rule sw.bind_prod [OF sw_db [OF writes_abortUpload]]) (simp_all add: sw.refl)
next
  case (UDone resp)
  then show ?thesis by (simp add: sw.refl)
qed

interpretation sw_read: reading_frame "srv_writes P" pf "\<lambda>_. True" "\<lambda>_. True" for P pf
proof unfold_locales
  show "srv_writes P srv (snd (serveFileRecord pf rec r srv))" for rec r srv
    unfolding serveFileRecord_def
    by (rule sw.bind_prod [OF sw_store]) (auto simp: sw.refl split: sum.splits blob_error.splits)
qed (auto simp: sw_tables)

lemma remove_tag_writes:
  "srv_writes (may_write cfg (TServe r (EpRemoveTag slug raw))) srv
     (snd (removeFileTagHandler pf slug raw r srv))"
proof (cases "parseTag raw")
  case (Inr tag)
  have d: "srv_writes (may_write cfg (TServe r (EpRemoveTag slug raw))) srv
      (snd (on_db (removeTagFromSlug slug tag) srv))"
    by (rule sw_db, rule writes_removeTagFromSlug) (simp add: Inr)
  show ?thesis
    unfolding removeFileTagHandler_def Inr sum.case
    by (intro sw.bind_sum [OF d] sw.if_then sw.bind_sum [OF sw_same] sw.ret tagsOfSlug_db)
qed (simp add: removeFileTagHandler_def sw.refl)

lemma thread_step_writes:
  assumes "thread_step cfg pf t srv = (t', srv1)" and "\<And>r ep. t = TServe r ep \<Longrightarrow>
      reading ep \<or> (\<exists>slug raw. ep = EpRemoveTag slug raw)"
  shows "srv_writes (may_write cfg t) srv srv1"
proof (cases t)
  case (TUpload r st)
  obtain st' s1 where "upload_step cfg pf r st srv = (st', s1)" by (metis prod.collapse)
  moreover have "may_write cfg t = upload_may st" by (rule ext) (simp add: TUpload)
  ultimately show ?thesis
    using assms(1) TUpload upload_step_writes [of st srv cfg pf r] by (simp add: thread_step_def)
next
  case (TDelete slug)
  have "srv_writes (may_write cfg t) srv (snd (delete_record cfg slug srv))"
  proof (cases "appendOnly cfg")
    case False
    have d: "srv_writes (may_write cfg t) srv (snd (on_db (softDeleteBySlug slug) srv))"
      by (rule sw_db, rule writes_softDelete) (simp_all add: TDelete False)
    then show ?thesis
      using False by (auto simp: delete_record_def split: prod.splits sum.splits option.splits)
  qed (simp add: delete_record_def sw.refl)
  with assms(1) TDelete show ?thesis
    by (auto simp: thread_step_def split: prod.splits sum.splits)
next
  case (TDeleteBlob rec)
  have "srv_writes (may_write cfg t) srv (snd (delete_blob pf rec srv))"
    unfolding delete_blob_def
    by (rule sw.bind_prod [OF sw_store]) (auto simp: sw.refl split: option.splits)
  with assms(1) TDeleteBlob show ?thesis by (auto simp: thread_step_def split: prod.splits)
next
  case (TAddTags r slug)
  with assms(1) sw_tables [OF add_tags_check_same [of srv pf slug r], of "may_write cfg t"]
  show ?thesis by (auto simp: thread_step_def split: prod.splits sum.splits)
next
  case (TAttach slug ts)
  have d: "srv_writes (may_write cfg t) srv (snd (on_db (addTagsToSlug slug ts) srv))"
    by (rule sw_db, rule writes_addTagsToSlug) (auto simp: TAttach)
  have "srv_writes (may_write cfg t) srv (snd (add_tags_apply slug ts srv))"
    unfolding add_tags_apply_def
    by (rule sw.bind_sum [OF d]) (auto simp: sw.refl)
  with assms(1) TAttach show ?thesis by (auto simp: thread_step_def split: prod.splits)
next
  case (TServe r ep)
  with assms(2) consider "reading ep" | slug raw where "ep = EpRemoveTag slug raw" by blast
  then show ?thesis
  proof cases
    case 1
    then have "srv1 = snd (route cfg pf ep r srv)"
      using assms(1) TServe by (cases ep; auto simp: thread_step_def split: prod.splits)
    with 1 show ?thesis by (simp add: sw_read.route_reads)
  next
    case 2
    then have "srv1 = snd (removeFileTagHandler pf slug raw r srv)"
      using assms(1) TServe by (auto simp: thread_step_def split: prod.splits)
    with 2 TServe show ?thesis using remove_tag_writes by metis
  qed
next
  case (TDone resp)
  with assms(1) show ?thesis by (simp add: thread_step_def sw.refl)
qed

section \<open>Reachable states\<close>

fun proper :: "thread \<Rightarrow> bool" where
  "proper (TServe r ep) \<longleftrightarrow> reading ep \<or> (\<exists>slug raw. ep = EpRemoveTag slug raw)"
| "proper t \<longleftrightarrow> True"

lemma start_proper: "proper (start_thread cfg pf ep r)"
  by (cases ep) simp_all

lemma step_proper: "thread_step cfg pf t srv = (t', srv1) \<Longrightarrow> proper t'"
  unfolding thread_step_def
  by (auto split: thread.splits prod.splits sum.splits endpoint.splits)

lemma proper_step_writes:
  "proper t \<Longrightarrow> thread_step cfg pf t srv = (t', srv1) \<Longrightarrow> srv_writes (may_write cfg t) srv srv1"
  by (rule thread_step_writes) (auto elim: proper.elims)

definition sys_ran :: "tables \<Rightarrow> 's system \<Rightarrow> bool" where
  "sys_ran d0 s \<longleftrightarrow> (\<forall>t \<in> set (snd s). proper t) \<and> writes (\<lambda>_. True) d0 (tables_of (fst s))"

lemma sys_ran_step: "sys_ran d0 s \<Longrightarrow> sys_step cfg pf s s1 \<Longrightarrow> sys_ran d0 s1"
proof -
  assume ran: "sys_ran d0 s" and step: "sys_step cfg pf s s1"
  from step ran show "sys_ran d0 s1"
  proof (cases rule: sys_step.cases)
    case (arrive ep r srv ts)
    with ran start_proper show ?thesis by (auto simp: sys_ran_def)
  next
    case (run i ts srv t srv1)
    with ran have "proper (ts ! i)" by (simp add: sys_ran_def)
    then have "srv_writes (may_write cfg (ts ! i)) srv srv1" using run proper_step_writes by blast
    then have "writes (\<lambda>_. True) (tables_of srv) (tables_of srv1)"
      unfolding srv_writes_def by (rule writes_mono) simp
    with ran run step_proper show ?thesis
      by (auto simp: sys_ran_def set_update_subset_insert [THEN subsetD] dest!: set_update_subset_insert [THEN subsetD]
          intro: writes_trans)
  qed
qed

lemma reachable_ran: "reachable cfg pf (srv, []) s \<Longrightarrow> sys_ran (tables_of srv) s"
  by (erule reachable_invariant, simp add: sys_ran_def writes.none) (rule sys_ran_step)

lemma reachable_between:
  assumes "reachable cfg pf (srv, []) s" and "reachable cfg pf s s1"
  shows "writes (\<lambda>_. True) (tables_of (fst s)) (tables_of (fst s1))"
proof -
  have "sys_ran (tables_of (fst s)) s"
    using reachable_ran [OF assms(1)] by (simp add: sys_ran_def writes.none)
  with assms(2) have "sys_ran (tables_of (fst s)) s1"
    using reachable_invariant [of cfg pf s s1 "sys_ran (tables_of (fst s))"] sys_ran_step by blast
  then show ?thesis by (simp add: sys_ran_def)
qed

section \<open>Append-only\<close>

fun old_of :: "upload_state \<Rightarrow> FileRecord option" where
  "old_of (UStore job rec old) = old"
| "old_of (UScan job rec old n) = old"
| "old_of (UAuthorize rec old n ts) = old"
| "old_of (UFinalize rec old n ts) = old"
| "old_of (UApply f old ts) = old"
| "old_of (UReport f old) = old"
| "old_of st = None"

fun replaces_nothing :: "thread \<Rightarrow> bool" where
  "replaces_nothing (TUpload r st) \<longleftrightarrow> old_of st = None"
| "replaces_nothing t \<longleftrightarrow> True"

lemma start_replaces_nothing: "replaces_nothing (start_thread cfg pf ep r)"
  by (cases ep) (auto simp: upload_start_def Let_def split: sum.splits)

lemma reserveUpload_append:
  "on_db (reserveUpload True n m) srv = (Inr (r, old), srv1) \<Longrightarrow> old = None"
  by (drule on_db_conn [THEN conjunct1], drule reserveUpload_Inr) simp

lemma step_replaces_nothing:
  assumes "thread_step cfg pf t srv = (t', srv1)" and "appendOnly cfg" and "replaces_nothing t"
  shows "replaces_nothing t'"
proof (cases t)
  case (TUpload r st)
  obtain st' s1 where s: "upload_step cfg pf r st srv = (st', s1)" by (metis prod.collapse)
  have "old_of st' = None"
    using s assms(2,3) TUpload
    by (cases st) (auto simp: upload_phase_defs Let_def dest: reserveUpload_append
        split: prod.splits sum.splits option.splits if_splits blob_error.splits)
  with s assms(1) TUpload show ?thesis by (auto simp: thread_step_def)
qed (use assms(1) in \<open>auto simp: thread_step_def split: prod.splits sum.splits endpoint.splits\<close>)

fun spares :: "FileRecord \<Rightarrow> db_write \<Rightarrow> bool" where
  "spares x (Finalize s n m) \<longleftrightarrow> s \<noteq> Slug x"
| "spares x (Retire s) \<longleftrightarrow> s \<noteq> Slug x"
| "spares x (Abort s) \<longleftrightarrow> s \<noteq> Slug x"
| "spares x w \<longleftrightarrow> True"

lemma spares_keeps: "writes (spares x) d e \<Longrightarrow> x \<in> set (files d) \<Longrightarrow> x \<in> set (files e)"
proof (induction rule: writes.induct)
  case (more d e w)
  then show ?case by (cases w) (auto simp: set_files_update)
qed simp

lemma may_spares:
  assumes "may_write cfg t w" and "appendOnly cfg" and "replaces_nothing t"
    and "thread_ok d b t" and "db_wf d" and "x \<in> set (files d)" and "live x"
  shows "spares x w"
proof -
  have "Slug rec \<noteq> Slug x" if "reserved_row d rec" for rec
    using that assms(5-7) row_unique by (fastforce simp: reserved_row_def pending_row_def live_def)
  with assms(1-4) show ?thesis
  proof (cases t)
    case (TUpload r st)
    with assms(1,3,4) \<open>\<And>rec. reserved_row d rec \<Longrightarrow> Slug rec \<noteq> Slug x\<close> show ?thesis
      by (cases st) auto
  next
    case (TServe r ep)
    with assms(1) show ?thesis by (cases ep) auto
  qed auto
qed

context served_store
begin

lemma append_only_keeps:
  assumes "reachable cfg pf (srv, []) s" and "appendOnly cfg" and "db_wf (tables_of srv)"
    and "live_stored (tables_of srv) (look (store srv))"
    and "x \<in> set (files (tables_of srv))" and "live x"
  shows "x \<in> set (files (tables_of (fst s)))"
proof -
  have "sys_ok (tables_of (fst s)) (look (store (fst s))) (snd s)
      \<and> (\<forall>t \<in> set (snd s). proper t \<and> replaces_nothing t) \<and> x \<in> set (files (tables_of (fst s)))"
    (is "?I s")
  proof (rule reachable_invariant [OF assms(1)])
    show "?I (srv, [])" using assms by (simp add: sys_ok_def)
  next
    fix s s1 :: "'s system" assume inv: "?I s" and step: "sys_step cfg pf s s1"
    from step show "?I s1"
    proof (cases rule: sys_step.cases)
      case (arrive ep r v ts)
      moreover have "sys_ok (tables_of v) (look (store v)) (ts @ [start_thread cfg pf ep r])"
        using sys_ok_step [of v ts cfg v "ts @ [start_thread cfg pf ep r]"] step arrive inv by simp
      ultimately show ?thesis using inv start_proper start_replaces_nothing by auto
    next
      case (run i ts v t v1)
      let ?t = "ts ! i"
      have ok: "thread_ok (tables_of v) (look (store v)) ?t" "db_wf (tables_of v)"
        "proper ?t" "replaces_nothing ?t" "x \<in> set (files (tables_of v))"
        using inv run by (auto simp: sys_ok_def)
      have "srv_writes (may_write cfg ?t) v v1" using run ok(3) proper_step_writes by blast
      then have "writes (spares x) (tables_of v) (tables_of v1)"
        unfolding srv_writes_def
        by (rule writes_mono) (use may_spares ok assms(2,6) in blast)
      then have "x \<in> set (files (tables_of v1))" using spares_keeps ok(5) by blast
      moreover have "sys_ok (tables_of v1) (look (store v1)) (ts[i := t])"
        using sys_ok_step [of v ts cfg v1 "ts[i := t]"] step run inv by simp
      moreover have "proper t" "replaces_nothing t"
        using run step_proper step_replaces_nothing assms(2) ok(4) by blast+
      ultimately show ?thesis using inv run
        by (auto dest!: set_update_subset_insert [THEN subsetD])
    qed
  qed
  then show ?thesis by simp
qed

end

end
