(* ===== verification/UploadSpec.thy ===== *)
theory UploadSpec
  imports SystemInvariant
begin

text \<open>
  What one upload does when nothing runs beside it: the tables and the blob it leaves on success,
  what a refusal or a failure leaves, and the permissions each effect has cost. The invariant
  \<open>along\<close> states, for every point of the handler, how far the state has moved from the one the
  request found.
\<close>

section \<open>Transactions that attach tags\<close>

definition tagged :: "string \<Rightarrow> string \<Rightarrow> Tag list \<Rightarrow> tables \<Rightarrow> tables" where
  "tagged now slug ts = fold (\<lambda>t. put_tag (key_of t) slug now) ts"

definition retire :: "string \<Rightarrow> tables \<Rightarrow> tables" where
  "retire s d = (if s = [] then d
     else update_file s (\<lambda>r. r\<lparr>Deleted := True\<rparr>) (delete_tags (\<lambda>t. tag_slug t = s) d))"

lemma upsertTag_Inr:
  "upsertTag tag slug now c = (Inr u, c1) \<Longrightarrow> db c1 = put_tag (key_of tag) slug now (db c)"
  by (auto simp: upsertTag_def upsert_tag_def dest!: sql_Inr split: if_splits)

lemma upsertAll_Inr: "upsertAll ts slug now c = (Inr u, c1) \<Longrightarrow> db c1 = tagged now slug ts (db c)"
proof (induction ts arbitrary: c)
  case (Cons t ts)
  then show ?case by (auto simp: tagged_def dest!: upsertTag_Inr split: prod.splits sum.splits)
qed (simp add: tagged_def)

lemma applyUploadTags_Inr:
  assumes "applyUploadTags slug ts s c = (Inr u, c1)"
  shows "\<exists>now. db c1 = retire s (tagged now slug ts (db c))"
proof (cases "ts = [] \<and> s = []")
  case True
  with assms show ?thesis by (simp add: applyUploadTags_def tagged_def retire_def)
next
  case False
  with assms have tx: "in_tx (applyUploadTags_body slug ts s) c = (Inr u, c1)"
    unfolding applyUploadTags_def by (simp only: if_False)
  then show ?thesis
  proof (cases rule: in_tx_cases)
    case (rollback c0 c2)
    then show ?thesis
      by (auto simp: applyUploadTags_body_def split: prod.splits sum.splits if_splits)
  next
    case (commit c0 c2)
    obtain now c3 where t: "time_now c0 = (now, c3)" by (metis prod.collapse)
    obtain x c4 where up: "upsertAll ts slug now c3 = (x, c4)" by (metis prod.collapse)
    note body = commit(2) [unfolded applyUploadTags_body_def t prod.case up]
    obtain v where x: "x = Inr v" using body by (cases x) auto
    have c4: "db c4 = tagged now slug ts (db c)"
      using up x upsertAll_Inr time_now_db [OF t] commit(1) by auto
    show ?thesis
    proof (cases "s = []")
      case True
      with body x c4 commit(3) show ?thesis by (auto simp: retire_def)
    next
      case False
      obtain y c5 where del: "deleteTagsForSlug s c4 = (y, c5)" by (metis prod.collapse)
      obtain z c6 where ex: "execute (update_file s (\<lambda>r. r\<lparr>Deleted := True\<rparr>)) c5 = (z, c6)"
        by (metis prod.collapse)
      have "c2 = c6" "\<exists>v. y = Inr v" "\<exists>v. z = Inr v"
        using body x False del ex by (auto split: sum.splits)
      then have "db c2 = retire s (db c4)"
        using del ex False by (auto simp: deleteTagsForSlug_def retire_def dest!: execute_Inr)
      with c4 commit(3) show ?thesis by auto
    qed
  qed
qed

lemma applyUploadTags_Inl: "applyUploadTags slug ts s c = (Inl err, c1) \<Longrightarrow> db c1 = db c"
  unfolding applyUploadTags_def by (auto dest: in_tx_Inl split: if_splits)

lemma files_tagged [simp]: "files (tagged now slug ts d) = files d"
  unfolding tagged_def by (induction ts arbitrary: d) simp_all

lemma slugs_tagged [simp]: "slugs (tagged now slug ts d) = slugs d"
  by (simp add: slugs_def)

section \<open>Owners of tags\<close>

definition tag_owner :: "tables \<Rightarrow> string \<times> string \<Rightarrow> string option" where
  "tag_owner d key = map_option tag_slug (List.find (\<lambda>t. tag_key t = key) (tags d))"

lemma owner_of_tag_owner: "owner_of d key = (case tag_owner d key of Some s \<Rightarrow> s | None \<Rightarrow> [])"
  by (simp add: owner_of_def tag_owner_def split: option.splits)

lemma find_map_key:
  "(\<And>x. k (f x) = k x) \<Longrightarrow>
   List.find (\<lambda>x. k x = key) (map f xs) = map_option f (List.find (\<lambda>x. k x = key) xs)"
  by (induction xs) auto

lemma find_append:
  "List.find P (xs @ ys) = (case List.find P xs of Some x \<Rightarrow> Some x | None \<Rightarrow> List.find P ys)"
  by (induction xs) auto

lemma tag_owner_put:
  "tag_owner (put_tag k s n d) key = (if key = k then Some s else tag_owner d key)"
proof (cases "k \<in> tag_key ` set (tags d)")
  case True
  let ?f = "\<lambda>t. if tag_key t = k then t\<lparr>tag_slug := s, tag_created := n\<rparr> else t"
  have "List.find (\<lambda>t. tag_key t = key) (map ?f (tags d))
      = map_option ?f (List.find (\<lambda>t. tag_key t = key) (tags d))"
    by (rule find_map_key) (simp add: tag_key_def)
  then have own: "tag_owner (put_tag k s n d) key
      = map_option tag_slug (map_option ?f (List.find (\<lambda>t. tag_key t = key) (tags d)))"
    using True by (simp add: tag_owner_def put_tag_def)
  show ?thesis
  proof (cases "List.find (\<lambda>t. tag_key t = key) (tags d)")
    case None
    then have "key \<notin> tag_key ` set (tags d)" by (auto simp: find_None_all)
    with True have "key \<noteq> k" by auto
    then show ?thesis unfolding own by (simp add: tag_owner_def None)
  next
    case (Some t)
    then have "tag_key t = key" using find_Some_in by fastforce
    then show ?thesis unfolding own by (simp add: tag_owner_def Some)
  qed
next
  case False
  then have "List.find (\<lambda>t. tag_key t = k) (tags d) = None" by (auto simp: find_None_all)
  with False show ?thesis
    by (auto simp: tag_owner_def put_tag_def find_append tag_key_def split: option.splits)
qed

lemma tag_owner_tagged:
  "tag_owner (tagged now slug ts d) key =
     (if key \<in> key_of ` set ts then Some slug else tag_owner d key)"
  unfolding tagged_def by (induction ts arbitrary: d) (auto simp: tag_owner_put)

lemma tag_owner_delete:
  assumes "distinct (map tag_key (tags d))"
  shows "tag_owner (delete_tags (\<lambda>t. tag_slug t = s) d) key =
     (if tag_owner d key = Some s then None else tag_owner d key)"
proof -
  have "map_option tag_slug (List.find (\<lambda>t. tag_key t = key) (filter (\<lambda>t. \<not> tag_slug t = s) ts)) =
    (if map_option tag_slug (List.find (\<lambda>t. tag_key t = key) ts) = Some s then None
     else map_option tag_slug (List.find (\<lambda>t. tag_key t = key) ts))"
    if "distinct (map tag_key ts)" for ts
    using that
  proof (induction ts)
    case (Cons t ts)
    have "List.find (\<lambda>u. tag_key u = key) (filter P ts) = None"
      if "tag_key t = key" for P
      using Cons.prems that by (auto simp: find_None_all) (metis imageI)
    with Cons show ?case by auto
  qed simp
  from this [OF assms] show ?thesis unfolding tag_owner_def tags_delete_tags .
qed

lemma tag_owner_update_file [simp]: "tag_owner (update_file s f d) = tag_owner d"
  by (simp add: tag_owner_def fun_eq_iff)

lemma keys_tagged:
  "distinct (map tag_key (tags d)) \<Longrightarrow> distinct (map tag_key (tags (tagged now slug ts d)))"
  unfolding tagged_def by (induction ts arbitrary: d) (simp_all add: keys_put_tag)

section \<open>What the tags of an upload cost\<close>

definition owners_besides :: "tables \<Rightarrow> Tag list \<Rightarrow> string \<Rightarrow> string list" where
  "owners_besides d ts ex =
     filter (\<lambda>own. own \<noteq> [] \<and> own \<noteq> ex) (map (\<lambda>t. owner_of d (key_of t)) ts)"

lemma tagsOwned_Inr:
  "tagsOwnedByAnotherFile ts ex c = (Inr owners, c1) \<Longrightarrow> owners = owners_besides (db c) ts ex"
proof (induction ts arbitrary: c owners c1)
  case (Cons t ts)
  obtain x c2 where q: "tagOwner t c = (x, c2)" by (metis prod.collapse)
  obtain y c3 where rest: "tagsOwnedByAnotherFile ts ex c2 = (y, c3)" by (metis prod.collapse)
  note run = Cons.prems [unfolded tagsOwnedByAnotherFile.simps q prod.case]
  obtain own where x: "x = Inr own" using run by (cases x) auto
  obtain os where y: "y = Inr os" using run rest x by (cases y) auto
  have "own = owner_of (db c) (key_of t)" "db c2 = db c"
    using q x by (auto simp: tagOwner_def dest: query_Inr)
  moreover have "os = owners_besides (db c2) ts ex" using Cons.IH rest y by blast
  ultimately show ?case using run rest x y by (auto simp: owners_besides_def split: if_splits)
qed (simp add: owners_besides_def)

definition removes_tags :: "tables \<Rightarrow> Tag list \<Rightarrow> FileRecord option \<Rightarrow> bool" where
  "removes_tags d ts old \<longleftrightarrow> (\<exists>t \<in> set ts. owner_of d (key_of t) \<noteq> [])
     \<or> (\<exists>x. old = Some x \<and> tag_names d (Slug x) \<noteq> [])"

definition tag_cost :: "request \<Rightarrow> tables \<Rightarrow> Tag list \<Rightarrow> FileRecord option \<Rightarrow> bool" where
  "tag_cost r d ts old \<longleftrightarrow> (ts \<noteq> [] \<longrightarrow> hasPermission r permTagAdd)
     \<and> (removes_tags d ts old \<longrightarrow> hasPermission r permTagRemove)"

lemma owners_besides_empty: "owners_besides d ts [] = [] \<longleftrightarrow> (\<forall>t \<in> set ts. owner_of d (key_of t) = [])"
  by (auto simp: owners_besides_def filter_empty_conv)

lemma uploadTagPermissions_Inr:
  assumes "uploadTagPermissions ts old c = (Inr perms, c1)"
  shows "set perms = (if ts \<noteq> [] then {permTagAdd} else {})
      \<union> (if removes_tags (db c) ts old then {permTagRemove} else {})"
proof -
  obtain x c2 where own: "tagsOwnedByAnotherFile ts [] c = (x, c2)" by (metis prod.collapse)
  note run = assms [unfolded uploadTagPermissions_def Let_def own prod.case]
  obtain os where x: "x = Inr os" using run by (cases x) auto
  have os: "os = owners_besides (db c) ts []" "db c2 = db c"
    using own x tagsOwned_Inr tagsOwned_db [of ts "[]" c] by auto
  have names: "ns = tag_names (db c) s" if "tagsOfSlug s c2 = (Inr ns, c3)" for s ns c3
    using query_Inr [OF that [unfolded tagsOfSlug_def]] os by simp
  show ?thesis
  proof (cases "os = []")
    case False
    with run x have "set perms = (if ts \<noteq> [] then {permTagAdd} else {}) \<union> {permTagRemove}" by auto
    moreover have "removes_tags (db c) ts old"
      using False os(1) owners_besides_empty [of "db c" ts] by (auto simp: removes_tags_def)
    ultimately show ?thesis by simp
  next
    case True
    then have none: "\<forall>t \<in> set ts. owner_of (db c) (key_of t) = []"
      using os(1) owners_besides_empty [of "db c" ts] by simp
    show ?thesis
    proof (cases old)
      case None
      with run x True none show ?thesis by (auto simp: removes_tags_def)
    next
      case (Some o1)
      obtain y c3 where t: "tagsOfSlug (Slug o1) c2 = (y, c3)" by (metis prod.collapse)
      with run x True Some obtain ns where "y = Inr ns" by (cases y) auto
      with t have "ns = tag_names (db c) (Slug o1)" using names by blast
      with run x True Some none t \<open>y = Inr ns\<close> show ?thesis by (auto simp: removes_tags_def)
    qed
  qed
qed

lemma perms_nonempty: "permTagAdd \<noteq> []" "permTagRemove \<noteq> []"
  by (simp_all add: perm_defs)

lemma authorize_cost:
  assumes "uploadTagPermissions ts old c = (Inr perms, c1)" and "firstMissingPermission r perms = []"
  shows "tag_cost r (db c) ts old"
proof -
  have p: "set perms = (if ts \<noteq> [] then {permTagAdd} else {})
      \<union> (if removes_tags (db c) ts old then {permTagRemove} else {})"
    by (rule uploadTagPermissions_Inr [OF assms(1)])
  then have "[] \<notin> set perms" using perms_nonempty by auto
  then have "\<forall>q \<in> set perms. hasPermission r q" using assms(2) firstMissing_none by blast
  with p show ?thesis by (auto simp: tag_cost_def split: if_splits)
qed

end
