(* ===== verification/UploadRun.thy ===== *)
theory UploadRun
  imports UploadSpec
begin

text \<open>
  The invariant \<open>along\<close> of one upload that runs alone, and what it gives at the end of the
  handler. \<open>env\<close> names the request, the parsed form and the state the handler found.
\<close>

record env =
  e_cfg :: settings
  e_req :: request
  e_job :: upload_job
  e_tables :: tables
  e_blobs :: "string \<Rightarrow> bytes option"

definition superseded :: "env \<Rightarrow> FileRecord option" where
  "superseded e =
     (if appendOnly (e_cfg e) then None else live_by_name (job_name (e_job e)) (e_tables e))"

definition may_supersede :: "env \<Rightarrow> bool" where
  "may_supersede e \<longleftrightarrow> (superseded e \<noteq> None \<longrightarrow> hasPermission (e_req e) permFileDelete)"

definition with_file :: "FileRecord \<Rightarrow> tables \<Rightarrow> tables" where
  "with_file f d = d\<lparr>files := files d @ [f]\<rparr>"

definition fresh :: "env \<Rightarrow> FileRecord \<Rightarrow> bool" where
  "fresh e rec \<longleftrightarrow> slug_record rec \<and> Slug rec \<notin> set (slugs (e_tables e))
     \<and> DisplayName rec = job_name (e_job e) \<and> MimeType rec = job_mime (e_job e)
     \<and> Pending rec \<and> \<not> Deleted rec"

definition finished :: "FileRecord \<Rightarrow> int \<Rightarrow> string \<Rightarrow> FileRecord" where
  "finished rec n m = rec\<lparr>Size := n, Modified := m, Pending := False\<rparr>"

text \<open>The tags the form asked for, over both passes.\<close>

definition asked_tags :: "env \<Rightarrow> Tag list \<Rightarrow> bool" where
  "asked_tags e ts \<longleftrightarrow>
     (\<exists>raw. scan_rest (job_rest (e_job e)) (job_end (e_job e)) (job_tags (e_job e)) = Inr raw
        \<and> parseTagList raw = Inr ts)"

definition stored_bytes :: "env \<Rightarrow> FileRecord \<Rightarrow> int \<Rightarrow> (string \<Rightarrow> bytes option) \<Rightarrow> bool" where
  "stored_bytes e rec n b \<longleftrightarrow>
     b (StorageKey rec) = Some (reader_bytes (content (job_part (e_job e))))
     \<and> n = int (length (reader_bytes (content (job_part (e_job e))))) \<and> n \<le> maxContentLength (e_cfg e)"

definition blobs_besides :: "env \<Rightarrow> FileRecord \<Rightarrow> FileRecord option \<Rightarrow> (string \<Rightarrow> bytes option) \<Rightarrow> bool" where
  "blobs_besides e rec old b \<longleftrightarrow>
     (\<forall>s. slug_shape s \<longrightarrow> s \<noteq> Slug rec \<longrightarrow> (\<forall>x. old = Some x \<longrightarrow> s \<noteq> Slug x)
        \<longrightarrow> b (storageKeyForSlug s) = e_blobs e (storageKeyForSlug s))"

definition all_paid :: "env \<Rightarrow> Tag list \<Rightarrow> bool" where
  "all_paid e ts \<longleftrightarrow> may_supersede e \<and> tag_cost (e_req e) (e_tables e) ts (superseded e)"

definition upload_succeeded :: "env \<Rightarrow> response \<Rightarrow> tables \<Rightarrow> (string \<Rightarrow> bytes option) \<Rightarrow> bool" where
  "upload_succeeded e resp d b \<longleftrightarrow>
     (\<exists>rec n m now ts.
        fresh e rec \<and> asked_tags e ts \<and> all_paid e ts \<and> stored_bytes e rec n b
        \<and> blobs_besides e rec (superseded e) b
        \<and> d = retire (replacedSlug (superseded e))
                (tagged now (Slug rec) ts (with_file (finished rec n m) (e_tables e)))
        \<and> body resp = JUpload ''File uploaded successfully''
             (fileInfoFromRecord (finished rec n m) (tag_names d (Slug rec))) (superseded e \<noteq> None))"

text \<open>Nothing but dead rows has been added.\<close>

definition unharmed :: "env \<Rightarrow> tables \<Rightarrow> (string \<Rightarrow> bytes option) \<Rightarrow> bool" where
  "unharmed e d b \<longleftrightarrow> filter live (files d) = filter live (files (e_tables e))
     \<and> tags d = tags (e_tables e)
     \<and> (\<forall>s \<in> set (slugs (e_tables e)). slug_shape s
          \<longrightarrow> b (storageKeyForSlug s) = e_blobs e (storageKeyForSlug s))"

text \<open>
  Every live record is still there, or was superseded by a caller who may delete; every tag
  still points where it did, or the caller may take tags away.
\<close>

definition spared :: "env \<Rightarrow> tables \<Rightarrow> bool" where
  "spared e d \<longleftrightarrow>
     (\<forall>x \<in> set (files (e_tables e)). live x \<longrightarrow> x \<in> set (files d)
        \<or> (superseded e = Some x \<and> hasPermission (e_req e) permFileDelete))
     \<and> (hasPermission (e_req e) permTagRemove
        \<or> (\<forall>key s. tag_owner (e_tables e) key = Some s \<longrightarrow> tag_owner d key = Some s))"

fun along :: "env \<Rightarrow> upload_state \<Rightarrow> tables \<Rightarrow> (string \<Rightarrow> bytes option) \<Rightarrow> bool" where
  "along e (UCheck job) d b \<longleftrightarrow>
     job = e_job e \<and> \<not> appendOnly (e_cfg e) \<and> d = e_tables e \<and> b = e_blobs e"
| "along e (UReserve job) d b \<longleftrightarrow>
     job = e_job e \<and> may_supersede e \<and> d = e_tables e \<and> b = e_blobs e"
| "along e (UStore job rec old) d b \<longleftrightarrow>
     job = e_job e \<and> may_supersede e \<and> fresh e rec \<and> d = with_file rec (e_tables e)
     \<and> old = superseded e \<and> b = e_blobs e"
| "along e (UScan job rec old n) d b \<longleftrightarrow>
     job = e_job e \<and> may_supersede e \<and> fresh e rec \<and> d = with_file rec (e_tables e)
     \<and> old = superseded e \<and> stored_bytes e rec n b \<and> blobs_besides e rec None b"
| "along e (UAuthorize rec old n ts) d b \<longleftrightarrow>
     may_supersede e \<and> fresh e rec \<and> d = with_file rec (e_tables e)
     \<and> old = superseded e \<and> stored_bytes e rec n b \<and> blobs_besides e rec None b \<and> asked_tags e ts"
| "along e (UFinalize rec old n ts) d b \<longleftrightarrow>
     all_paid e ts \<and> fresh e rec \<and> d = with_file rec (e_tables e)
     \<and> old = superseded e \<and> stored_bytes e rec n b \<and> blobs_besides e rec None b \<and> asked_tags e ts"
| "along e (UApply f old ts) d b \<longleftrightarrow>
     all_paid e ts \<and> old = superseded e \<and> asked_tags e ts
     \<and> (\<exists>rec n m. fresh e rec \<and> f = finished rec n m \<and> d = with_file f (e_tables e)
          \<and> stored_bytes e rec n b \<and> blobs_besides e rec None b)"
| "along e (UReport f old) d b \<longleftrightarrow>
     old = superseded e
     \<and> (\<exists>rec n m now ts. all_paid e ts \<and> asked_tags e ts \<and> fresh e rec \<and> f = finished rec n m
          \<and> d = retire (replacedSlug old) (tagged now (Slug rec) ts (with_file f (e_tables e)))
          \<and> stored_bytes e rec n b \<and> blobs_besides e rec None b)"
| "along e (UReclaim old resp) d b \<longleftrightarrow>
     superseded e = Some old \<and> status resp = 201 \<and> upload_succeeded e resp d b"
| "along e (UDiscard rec resp) d b \<longleftrightarrow>
     fresh e rec \<and> d = with_file rec (e_tables e) \<and> blobs_besides e rec None b
     \<and> status resp \<in> {400, 403, 413, 500}"
| "along e (UAbort rec resp) d b \<longleftrightarrow>
     fresh e rec \<and> d = with_file rec (e_tables e) \<and> blobs_besides e rec None b
     \<and> status resp \<in> {400, 403, 413, 500}"
| "along e (UDone resp) d b \<longleftrightarrow>
     (status resp = 201 \<and> upload_succeeded e resp d b)
     \<or> (status resp \<in> {400, 403, 413} \<and> unharmed e d b)
     \<or> (status resp = 500 \<and> spared e d)"

section \<open>Dead rows do no harm\<close>

lemma unharmed_same: "unharmed e (e_tables e) (e_blobs e)"
  by (simp add: unharmed_def)

lemma filter_live_kill:
  assumes "Slug rec \<notin> Slug ` set rs"
  shows "filter live (map (\<lambda>r. if Slug r = Slug rec then f r else r) rs) = filter live rs"
  using assms by (induction rs) auto

lemma unharmed_abort:
  assumes "fresh e rec" and "blobs_besides e rec None b" and "db_wf (e_tables e)"
    and "d = with_file rec (e_tables e) \<or> d = apply_write (Abort (Slug rec)) (with_file rec (e_tables e))
       \<or> d = aborted (Slug rec) (with_file rec (e_tables e))"
  shows "unharmed e d b"
proof -
  have new: "Slug rec \<notin> Slug ` set (files (e_tables e))" using assms(1) by (simp add: fresh_def slugs_def)
  have "filter (\<lambda>t. tag_slug t \<noteq> Slug rec) (tags (e_tables e)) = tags (e_tables e)"
    using assms(1,3) by (auto simp: fresh_def db_wf_def filter_id_conv)
  with assms(1,2,4) new show ?thesis
    by (auto simp: unharmed_def aborted_def with_file_def update_file_def filter_live_kill live_def
        fresh_def blobs_besides_def)
qed

lemma spared_same [simp]: "spared e (e_tables e)"
  by (simp add: spared_def)

lemma spared_with_file [simp]: "spared e (with_file f (e_tables e))"
  by (simp add: spared_def with_file_def tag_owner_def)

lemma spared_unharmed: "unharmed e d b \<Longrightarrow> spared e d"
proof -
  assume "unharmed e d b"
  then have "filter live (files d) = filter live (files (e_tables e))" by (simp add: unharmed_def)
  then have "x \<in> set (files d)" if "x \<in> set (files (e_tables e))" "live x" for x
  proof -
    have "x \<in> set (filter live (files (e_tables e)))" using that by simp
    also have "\<dots> = set (filter live (files d))"
      using \<open>filter live (files d) = filter live (files (e_tables e))\<close> by simp
    finally show ?thesis by simp
  qed
  with \<open>unharmed e d b\<close> show ?thesis by (simp add: spared_def unharmed_def tag_owner_def)
qed

lemma files_retire_any:
  "x \<in> set (files d) \<Longrightarrow> (s \<noteq> [] \<Longrightarrow> Slug x \<noteq> s) \<Longrightarrow> x \<in> set (files (retire s d))"
  by (cases "s = []") (auto simp: retire_def set_files_update)

lemma tags_kept:
  assumes "\<not> removes_tags d ts old" and "db_wf d" and "tag_owner d key = Some s"
  shows "tag_owner (retire (replacedSlug old) (tagged now sl ts (with_file f d))) key = Some s"
proof -
  obtain t where t: "t \<in> set (tags d)" "tag_key t = key" "tag_slug t = s"
    using assms(3) by (auto simp: tag_owner_def dest!: find_Some_in)
  then have "slug_shape s" using assms(2) by (auto simp: db_wf_def slugs_def)
  then have "s \<noteq> []" by (auto simp: slug_shape_def shortSlugMinLen_def)
  then have "key \<notin> key_of ` set ts"
    using assms(1,3) by (auto simp: removes_tags_def owner_of_tag_owner)
  then have own: "tag_owner (tagged now sl ts (with_file f d)) key = Some s"
    using assms(3) by (simp add: tag_owner_tagged) (simp add: tag_owner_def with_file_def)
  show ?thesis
  proof (cases "replacedSlug old = []")
    case False
    then obtain x where x: "old = Some x" "replacedSlug old = Slug x"
      by (cases old) (auto simp: replacedSlug_def)
    have "canonical key \<in> set (tag_names d s)" using t by (auto simp: tag_names_def)
    then have "tag_names d (Slug x) \<noteq> []" if "s = Slug x" using that by auto
    with assms(1) x have "s \<noteq> Slug x" by (auto simp: removes_tags_def)
    moreover have "distinct (map tag_key (tags (tagged now sl ts (with_file f d))))"
      using assms(2) by (simp add: keys_tagged with_file_def db_wf_def)
    ultimately show ?thesis
      using own x False by (simp add: retire_def tag_owner_update_file tag_owner_delete)
  qed (use own in \<open>simp add: retire_def\<close>)
qed

lemma spared_retire:
  assumes "all_paid e ts" and "db_wf (e_tables e)"
  shows "spared e (retire (replacedSlug (superseded e)) (tagged now sl ts (with_file f (e_tables e))))"
    (is "spared e ?d")
proof -
  have "x \<in> set (files ?d) \<or> (superseded e = Some x \<and> hasPermission (e_req e) permFileDelete)"
    if x: "x \<in> set (files (e_tables e))" "live x" for x
  proof (cases "superseded e = Some x")
    case True
    with assms(1) show ?thesis by (simp add: all_paid_def may_supersede_def)
  next
    case False
    have "Slug x \<noteq> replacedSlug (superseded e)" if "replacedSlug (superseded e) \<noteq> []"
    proof (cases "superseded e")
      case (Some y)
      then have "y \<in> set (files (e_tables e))"
        by (auto simp: superseded_def split: if_splits dest: live_by_name_in)
      with False Some x row_unique [OF assms(2)] show ?thesis by (auto simp: replacedSlug_def)
    qed (use that in \<open>simp add: replacedSlug_def\<close>)
    then have "x \<in> set (files ?d)"
      by (intro files_retire_any) (use x in \<open>simp_all add: with_file_def\<close>)
    then show ?thesis ..
  qed
  moreover have "hasPermission (e_req e) permTagRemove \<or> \<not> removes_tags (e_tables e) ts (superseded e)"
    using assms(1) by (auto simp: all_paid_def tag_cost_def)
  ultimately show ?thesis using tags_kept assms(2) unfolding spared_def by blast
qed

section \<open>The steps keep it\<close>

lemma along_check:
  assumes "upload_check (e_req e) job srv = (st', srv1)"
    and "along e (UCheck job) (tables_of srv) b"
  shows "along e st' (tables_of srv1) b \<and> store srv1 = store srv"
proof -
  obtain x s1 where q: "on_db (liveRecordByName (job_name job)) srv = (x, s1)" by (metis prod.collapse)
  note c = on_db_conn [OF q]
  have s1: "tables_of s1 = tables_of srv"
    using c query_db [of "live_by_name (job_name job)" "conn srv" x "conn s1"]
    by (simp add: liveRecordByName_def findLiveRecordByName_def)
  show ?thesis
  proof (cases x)
    case (Inl err)
    with assms s1 c show ?thesis unfolding upload_check_def q by auto
  next
    case (Inr existing)
    then have "existing = live_by_name (job_name job) (tables_of srv)"
      using c query_Inr [of "live_by_name (job_name job)" "conn srv" existing "conn s1"]
      by (simp add: liveRecordByName_def findLiveRecordByName_def)
    with assms(2) have ex: "existing = superseded e" by (simp add: superseded_def)
    from assms Inr s1 c ex unharmed_same show ?thesis
      unfolding upload_check_def q
      by (auto simp: may_supersede_def inHandlerPermission_def writeForbidden_def split: if_splits)
  qed
qed

lemma reserved_fresh:
  "reserved (job_name (e_job e)) (job_mime (e_job e)) rec (e_tables e) d \<Longrightarrow>
     fresh e rec \<and> d = with_file rec (e_tables e)"
  by (drule reservedD) (simp add: fresh_def slug_record_def with_file_def)

lemma along_reserve:
  assumes "upload_reserve (e_cfg e) job srv = (st', srv1)"
    and "along e (UReserve job) (tables_of srv) b"
  shows "along e st' (tables_of srv1) b \<and> store srv1 = store srv"
proof -
  obtain x s1 where q: "on_db (reserveUpload (appendOnly (e_cfg e)) (job_name job) (job_mime job)) srv
      = (x, s1)" by (metis prod.collapse)
  note c = on_db_conn [OF q]
  show ?thesis
  proof (cases x)
    case (Inl err)
    with c have "tables_of s1 = tables_of srv"
      using reserveUpload_Inl [of "appendOnly (e_cfg e)" "job_name job" "job_mime job" "conn srv" err
          "conn s1"] by auto
    with assms c Inl show ?thesis unfolding upload_reserve_def q by auto
  next
    case (Inr p)
    obtain rec old where p: "p = (rec, old)" by (cases p)
    with Inr c have "reserved (job_name job) (job_mime job) rec (tables_of srv) (tables_of s1)"
      "old = (if appendOnly (e_cfg e) then None else live_by_name (job_name job) (tables_of srv))"
      using reserveUpload_Inr [of "appendOnly (e_cfg e)" "job_name job" "job_mime job" "conn srv"
          rec old "conn s1"] by simp_all
    with assms(2) have "fresh e rec" "tables_of s1 = with_file rec (e_tables e)" "old = superseded e"
      using reserved_fresh by (auto simp: superseded_def)
    with assms Inr p c show ?thesis unfolding upload_reserve_def q by auto
  qed
qed

lemma scan_rest_status: "scan_rest ps fin tgs = Inl resp \<Longrightarrow> status resp = 400"
  by (induction ps fin tgs rule: scan_rest.induct)
    (auto simp: bad_request_def form_error_def split: sum.splits option.splits)

lemma scan_file_status: "scan_file ps fin tgs = Inl resp \<Longrightarrow> status resp = 400"
  by (induction ps fin tgs rule: scan_file.induct)
    (auto simp: bad_request_def form_error_def split: sum.splits option.splits if_splits)

lemma along_scan:
  assumes "along e (UScan job rec old n) d b"
  shows "along e (upload_scan pf job rec old n) d b"
proof (cases "scan_rest (job_rest job) (job_end job) (job_tags job)")
  case (Inl resp)
  with assms show ?thesis by (auto simp: upload_scan_def dest: scan_rest_status)
next
  case (Inr raw)
  with assms show ?thesis
    by (cases "parseTagList raw") (auto simp: upload_scan_def bad_request_def asked_tags_def)
qed

lemma tag_cost_with_file: "tag_cost r (with_file rec d) ts old = tag_cost r d ts old"
  by (simp add: tag_cost_def removes_tags_def owner_of_def tag_names_def with_file_def)

lemma along_authorize:
  assumes "upload_authorize (e_req e) rec old n ts srv = (st', srv1)"
    and "along e (UAuthorize rec old n ts) (tables_of srv) b"
  shows "along e st' (tables_of srv1) b \<and> store srv1 = store srv"
proof -
  obtain x s1 where q: "on_db (uploadTagPermissions ts old) srv = (x, s1)" by (metis prod.collapse)
  note c = on_db_conn [OF q]
  have s1: "tables_of s1 = tables_of srv" using c uploadTagPermissions_db by blast
  show ?thesis
  proof (cases x)
    case (Inl err)
    with assms s1 c show ?thesis unfolding upload_authorize_def q by auto
  next
    case (Inr perms)
    show ?thesis
    proof (cases "firstMissingPermission (e_req e) perms = []")
      case True
      then have "tag_cost (e_req e) (tables_of srv) ts old"
        using authorize_cost [of ts old "conn srv" perms "conn s1"] c Inr by simp
      with assms(2) have "all_paid e ts" by (simp add: all_paid_def tag_cost_with_file)
      with assms Inr s1 c True show ?thesis unfolding upload_authorize_def q by auto
    next
      case False
      with assms Inr s1 c show ?thesis
        unfolding upload_authorize_def q by (auto simp: Let_def writeForbidden_def)
    qed
  qed
qed

lemma update_with_file:
  assumes "Slug rec \<notin> set (slugs d)"
  shows "apply_write (Finalize (Slug rec) n m) (with_file rec d) = with_file (finished rec n m) d"
proof -
  have "Slug x \<noteq> Slug rec" if "x \<in> set (files d)" for x
    using assms that slug_in by metis
  then have "map (\<lambda>r. if Slug r = Slug rec then g r else r) (files d) = files d" for g
    by (intro map_idI) simp
  then show ?thesis by (simp add: with_file_def update_file_def finished_def)
qed

lemma along_finalize:
  assumes "upload_finalize rec old n ts srv = (st', srv1)"
    and "along e (UFinalize rec old n ts) (tables_of srv) b"
  shows "along e st' (tables_of srv1) b \<and> store srv1 = store srv"
proof -
  obtain x s1 where q: "on_db (finalize_now (Slug rec) n) srv = (x, s1)" by (metis prod.collapse)
  note c = on_db_conn [OF q]
  show ?thesis
  proof (cases x)
    case (Inl err)
    have rec: "fresh e rec" "tables_of srv = with_file rec (e_tables e)" using assms(2) by auto
    then have new: "Slug rec \<notin> set (slugs (e_tables e))" by (simp add: fresh_def)
    have "spared e (tables_of s1)"
      using finalize_now_db [of "Slug rec" n "conn srv" x "conn s1"] c rec update_with_file [OF new]
      by auto
    with assms(1) c Inl show ?thesis unfolding upload_finalize_def q by auto
  next
    case (Inr f)
    have rec: "fresh e rec" "tables_of srv = with_file rec (e_tables e)" using assms(2) by auto
    then have new: "Slug rec \<notin> set (slugs (e_tables e))" by (simp add: fresh_def)
    have fin_run: "finalize_now (Slug rec) n (conn srv) = (Inr f, conn s1)" using c Inr by simp
    obtain m where s1: "tables_of s1 = apply_write (Finalize (Slug rec) n m) (tables_of srv)"
      and f: "Slug f = Slug rec" "f \<in> set (files (tables_of s1))"
      using finalize_now_db [OF fin_run] by blast
    have s1': "tables_of s1 = with_file (finished rec n m) (e_tables e)"
      using s1 rec update_with_file [OF new] by simp
    have "f \<notin> set (files (e_tables e))" using f(1) new slug_in by metis
    with f(2) s1' have fin: "f = finished rec n m" by (simp add: with_file_def)
    then have "along e (UApply f old ts) (tables_of s1) b"
      unfolding along.simps using assms(2) s1' rec(1) fin by (simp only: along.simps) blast
    with assms(1) Inr c show ?thesis unfolding upload_finalize_def q by auto
  qed
qed

lemma along_apply:
  assumes "upload_apply f old ts srv = (st', srv1)"
    and "along e (UApply f old ts) (tables_of srv) b"
  shows "along e st' (tables_of srv1) b \<and> store srv1 = store srv"
proof -
  obtain x s1 where q: "on_db (applyUploadTags (Slug f) ts (replacedSlug old)) srv = (x, s1)"
    by (metis prod.collapse)
  note c = on_db_conn [OF q]
  show ?thesis
  proof (cases x)
    case (Inl err)
    have "db (conn s1) = tables_of srv"
      using c Inl applyUploadTags_Inl [of "Slug f" ts "replacedSlug old" "conn srv" err "conn s1"]
      by auto
    with assms c Inl show ?thesis unfolding upload_apply_def q by auto
  next
    case (Inr u)
    obtain rec n m where rec: "fresh e rec" "f = finished rec n m"
      "tables_of srv = with_file f (e_tables e)" "stored_bytes e rec n b" "blobs_besides e rec None b"
      using assms(2) by auto
    have paid: "all_paid e ts" "old = superseded e" "asked_tags e ts" using assms(2) by auto
    obtain now where s1: "tables_of s1
        = retire (replacedSlug old) (tagged now (Slug f) ts (tables_of srv))"
      using applyUploadTags_Inr [of "Slug f" ts "replacedSlug old" "conn srv" u "conn s1"] c Inr by auto
    have "Slug f = Slug rec" using rec(2) by (simp add: finished_def)
    then have "tables_of s1 = retire (replacedSlug old) (tagged now (Slug rec) ts (with_file f (e_tables e)))"
      using s1 rec(3) by simp
    then have "along e (UReport f old) (tables_of s1) b"
      unfolding along.simps using rec paid by blast
    with assms(1) Inr c show ?thesis unfolding upload_apply_def q by auto
  qed
qed

lemma along_report:
  assumes "upload_report f old srv = (st', srv1)" and wf: "db_wf (e_tables e)"
    and "along e (UReport f old) (tables_of srv) b"
  shows "along e st' (tables_of srv1) b \<and> store srv1 = store srv"
proof -
  obtain x s1 where q: "on_db (tagsOfSlug (Slug f)) srv = (x, s1)" by (metis prod.collapse)
  note c = on_db_conn [OF q]
  have s1: "tables_of s1 = tables_of srv"
    using c query_db by (auto simp: tagsOfSlug_def)
  show ?thesis
  proof (cases x)
    case (Inl err)
    have "spared e (tables_of srv)"
      using assms(3) spared_retire wf by auto
    with assms(1) s1 c Inl show ?thesis unfolding upload_report_def q by auto
  next
    case (Inr applied)
    then have ap: "applied = tag_names (tables_of srv) (Slug f)"
      using c query_Inr [of "\<lambda>d. tag_names d (Slug f)" "conn srv" applied "conn s1"]
      by (simp add: tagsOfSlug_def)
    define resp where "resp = json 201 (JUpload ''File uploaded successfully''
        (fileInfoFromRecord f applied) (old \<noteq> None))"
    have old: "old = superseded e" using assms(3) by simp
    obtain rec n m now ts where run: "all_paid e ts" "asked_tags e ts" "fresh e rec" "f = finished rec n m"
      "tables_of srv = retire (replacedSlug old) (tagged now (Slug rec) ts (with_file f (e_tables e)))"
      "stored_bytes e rec n b" "blobs_besides e rec None b"
      using assms(3) by auto
    have "Slug f = Slug rec" using run(4) by (simp add: finished_def)
    then have "body resp = JUpload ''File uploaded successfully''
        (fileInfoFromRecord (finished rec n m) (tag_names (tables_of srv) (Slug rec)))
        (superseded e \<noteq> None)"
      using ap old run(4) by (simp add: resp_def)
    moreover have "blobs_besides e rec (superseded e) b" using run(7) by (auto simp: blobs_besides_def)
    ultimately have "upload_succeeded e resp (tables_of srv) b"
      unfolding upload_succeeded_def using run old by blast
    moreover have "status resp = 201" by (simp add: resp_def)
    moreover note assms(1) [unfolded upload_report_def q Inr prod.case sum.case Let_def,
        folded resp_def]
    ultimately show ?thesis using s1 c old by (auto split: option.splits)
  qed
qed

lemma along_abort:
  assumes "upload_abort rec resp srv = (st', srv1)" and "db_wf (e_tables e)"
    and "along e (UAbort rec resp) (tables_of srv) b"
  shows "along e st' (tables_of srv1) b \<and> store srv1 = store srv"
proof -
  obtain x s1 where q: "on_db (abortUpload (Slug rec)) srv = (x, s1)" by (metis prod.collapse)
  note c = on_db_conn [OF q]
  have "tables_of s1 = tables_of srv \<or> tables_of s1 = apply_write (Abort (Slug rec)) (tables_of srv)
      \<or> tables_of s1 = aborted (Slug rec) (tables_of srv)"
    using c abortUpload_Inl abortUpload_Inr by (cases x) blast+
  then have "unharmed e (tables_of s1) b"
    by (intro unharmed_abort [of e rec]) (use assms in auto)
  with assms c spared_unharmed show ?thesis unfolding upload_abort_def q by auto
qed

context served_store
begin

lemma along_store:
  assumes "upload_store (e_cfg e) pf job rec old srv = (st', srv1)"
    and al: "along e (UStore job rec old) (tables_of srv) (look (store srv))"
  shows "along e st' (tables_of srv1) (look (store srv1))"
proof -
  obtain x s1 where q: "on_store (Put pf (StorageKey rec) (content (job_part job))
      (maxContentLength (e_cfg e))) srv = (x, s1)" by (metis prod.collapse)
  note c = on_store_store [OF q]
  have rec: "slug_record rec" "job = e_job e" "look (store srv) = e_blobs e" "fresh e rec"
    "tables_of srv = with_file rec (e_tables e)"
    using al by (auto simp: fresh_def)
  have others: "blobs_besides e rec None (look (store s1))"
    using put_others [OF q rec(1)] rec(3) by (simp add: blobs_besides_def)
  show ?thesis
  proof (cases x)
    case (Inl err)
    with assms c others rec show ?thesis unfolding upload_store_def q by (cases err) auto
  next
    case (Inr n)
    have k: "good_key (StorageKey rec)" using rec(1) slug_keys by (simp add: slug_record_def)
    have p: "Put pf (StorageKey rec) (content (job_part job)) (maxContentLength (e_cfg e)) (store srv)
        = (Inr n, store s1)" using c Inr by simp
    have "stored_bytes e rec n (look (store s1))"
      using put_ok [OF k p k] put_size [OF k p] rec(2) by (simp add: stored_bytes_def)
    with assms c others rec Inr show ?thesis unfolding upload_store_def q by auto
  qed
qed

lemma along_discard:
  assumes "upload_discard pf rec resp srv = (st', srv1)"
    and al: "along e (UDiscard rec resp) (tables_of srv) (look (store srv))"
  shows "along e st' (tables_of srv1) (look (store srv1))"
proof -
  obtain x s1 where q: "on_store (Delete pf (StorageKey rec)) srv = (x, s1)" by (metis prod.collapse)
  note c = on_store_store [OF q]
  have rec: "slug_record rec" using al by (simp add: fresh_def)
  have "blobs_besides e rec None (look (store s1))"
    using al delete_others [OF q rec] by (simp add: blobs_besides_def)
  with assms c show ?thesis unfolding upload_discard_def q by auto
qed

lemma along_reclaim:
  assumes "upload_reclaim pf old resp srv = (st', srv1)" and wf: "db_wf (e_tables e)"
    and al: "along e (UReclaim old resp) (tables_of srv) (look (store srv))"
  shows "along e st' (tables_of srv1) (look (store srv1))"
proof -
  obtain x s1 where q: "on_store (Delete pf (StorageKey old)) srv = (x, s1)" by (metis prod.collapse)
  note c = on_store_store [OF q]
  have sup: "superseded e = Some old" using al by simp
  then have old: "old \<in> set (files (e_tables e))"
    by (auto simp: superseded_def split: if_splits dest: live_by_name_in)
  note rec = wf_slug_record [OF wf old]
  obtain f n m now ts where run: "fresh e f" "asked_tags e ts" "all_paid e ts"
    "stored_bytes e f n (look (store srv))" "blobs_besides e f (superseded e) (look (store srv))"
    "tables_of srv = retire (replacedSlug (superseded e))
       (tagged now (Slug f) ts (with_file (finished f n m) (e_tables e)))"
    "body resp = JUpload ''File uploaded successfully''
       (fileInfoFromRecord (finished f n m) (tag_names (tables_of srv) (Slug f))) (superseded e \<noteq> None)"
    using al by (auto simp: upload_succeeded_def)
  have other: "look (store s1) (storageKeyForSlug s) = look (store srv) (storageKeyForSlug s)"
    if "slug_shape s" "s \<noteq> Slug old" for s
    using delete_others [OF q rec that] .
  have "Slug f \<noteq> Slug old" using run(1) slug_in [OF old] by (auto simp: fresh_def)
  moreover have "slug_record f" using run(1) by (simp add: fresh_def)
  ultimately have "look (store s1) (StorageKey f) = look (store srv) (StorageKey f)"
    using other by (auto simp: slug_record_def)
  then have "stored_bytes e f n (look (store s1))" using run(4) by (simp add: stored_bytes_def)
  moreover have "blobs_besides e f (superseded e) (look (store s1))"
    using run(5) other by (auto simp: blobs_besides_def sup)
  ultimately have "upload_succeeded e resp (tables_of srv) (look (store s1))"
    unfolding upload_succeeded_def using run by blast
  with assms c show ?thesis unfolding upload_reclaim_def q by auto
qed

lemma along_step:
  assumes "upload_step (e_cfg e) pf (e_req e) st srv = (st', srv1)" and wf: "db_wf (e_tables e)"
    and al: "along e st (tables_of srv) (look (store srv))"
  shows "along e st' (tables_of srv1) (look (store srv1))"
proof (cases st)
  case (UCheck job)
  with assms along_check [of e job srv st' srv1 "look (store srv)"] show ?thesis by (simp del: along.simps)
next
  case (UReserve job)
  with assms along_reserve [of e job srv st' srv1 "look (store srv)"] show ?thesis by (simp del: along.simps)
next
  case (UStore job rec old)
  with assms along_store [of e job rec old srv st' srv1] show ?thesis by (simp del: along.simps)
next
  case (UScan job rec old n)
  with assms along_scan [of e job rec old n "tables_of srv" "look (store srv)" pf] show ?thesis by (auto simp del: along.simps)
next
  case (UAuthorize rec old n ts)
  with assms along_authorize [of e rec old n ts srv st' srv1 "look (store srv)"] show ?thesis by (simp del: along.simps)
next
  case (UFinalize rec old n ts)
  with assms along_finalize [of rec old n ts srv st' srv1 e "look (store srv)"] show ?thesis by (simp del: along.simps)
next
  case (UApply f old ts)
  with assms along_apply [of f old ts srv st' srv1 e "look (store srv)"] show ?thesis by (simp del: along.simps)
next
  case (UReport f old)
  with assms along_report [of f old srv st' srv1 e "look (store srv)"] show ?thesis by (simp del: along.simps)
next
  case (UReclaim old resp)
  with assms along_reclaim [of old resp srv st' srv1 e] show ?thesis by (simp del: along.simps)
next
  case (UDiscard rec resp)
  with assms along_discard [of rec resp srv st' srv1 e] show ?thesis by (simp del: along.simps)
next
  case (UAbort rec resp)
  with assms along_abort [of rec resp srv st' srv1 e "look (store srv)"] show ?thesis by (simp del: along.simps)
next
  case (UDone resp)
  with assms show ?thesis by auto
qed

lemma along_run:
  assumes "upload_run (e_cfg e) pf (e_req e) st srv = (resp, srv1)" and "db_wf (e_tables e)"
    and "along e st (tables_of srv) (look (store srv))"
  shows "along e (UDone resp) (tables_of srv1) (look (store srv1))"
  using assms(1,3)
proof (induction "upload_rank st" arbitrary: st srv rule: less_induct)
  case less
  show ?case
  proof (cases "upload_result st")
    case (Some resp')
    then have "st = UDone resp'" by (cases st) simp_all
    with less.prems show ?thesis by (auto simp del: along.simps)
  next
    case None
    obtain st' srv' where s: "upload_step (e_cfg e) pf (e_req e) st srv = (st', srv')"
      by (metis prod.collapse)
    with None less.prems(1) have "upload_run (e_cfg e) pf (e_req e) st' srv' = (resp, srv1)"
      by (simp add: upload_run.simps [of "e_cfg e" pf "e_req e" st srv])
    moreover have "along e st' (tables_of srv') (look (store srv'))"
      using along_step [OF s assms(2) less.prems(2)] .
    moreover have "upload_rank st' < upload_rank st"
      using upload_step_decreases [OF s] None by fastforce
    ultimately show ?thesis by (intro less.hyps)
  qed
qed

text \<open>The handler: refused before it starts, or one of the ends of \<open>along\<close>.\<close>

lemma uploadFileHandler_ends:
  assumes "uploadFileHandler cfg pf r srv = (resp, srv1)" and "db_wf (tables_of srv)"
  shows "(upload_start cfg pf r = UDone resp \<and> status resp = 400 \<and> srv1 = srv)
    \<or> (\<exists>job. upload_start cfg pf r = (if appendOnly cfg then UReserve job else UCheck job)
          \<and> along \<lparr>e_cfg = cfg, e_req = r, e_job = job, e_tables = tables_of srv,
              e_blobs = look (store srv)\<rparr> (UDone resp) (tables_of srv1) (look (store srv1)))"
proof -
  have "(\<exists>resp. upload_start cfg pf r = UDone resp \<and> status resp = 400)
      \<or> (\<exists>job. upload_start cfg pf r = (if appendOnly cfg then UReserve job else UCheck job))"
    unfolding upload_start_def Let_def
    by (auto simp: bad_request_def form_error_def dest: scan_file_status split: sum.splits)
  then show ?thesis
  proof
    assume "\<exists>resp. upload_start cfg pf r = UDone resp \<and> status resp = 400"
    with assms(1) show ?thesis by (auto simp: uploadFileHandler_def)
  next
    assume "\<exists>job. upload_start cfg pf r = (if appendOnly cfg then UReserve job else UCheck job)"
    then obtain job where job: "upload_start cfg pf r = (if appendOnly cfg then UReserve job else UCheck job)" ..
    let ?e = "\<lparr>e_cfg = cfg, e_req = r, e_job = job, e_tables = tables_of srv, e_blobs = look (store srv)\<rparr>"
    have "upload_run (e_cfg ?e) pf (e_req ?e) (upload_start cfg pf r) srv = (resp, srv1)"
      using assms(1) by (simp add: uploadFileHandler_def)
    moreover have "along ?e (upload_start cfg pf r) (tables_of srv) (look (store srv))"
      by (simp add: job may_supersede_def superseded_def)
    ultimately have "along ?e (UDone resp) (tables_of srv1) (look (store srv1))"
      using along_run [of ?e] assms(2) by fastforce
    with job show ?thesis by blast
  qed
qed

text \<open>Whatever the answer, only what the caller may remove is removed.\<close>

lemma upload_spares:
  assumes "uploadFileHandler cfg pf r srv = (resp, srv1)" and "db_wf (tables_of srv)"
  shows "\<exists>job. spared \<lparr>e_cfg = cfg, e_req = r, e_job = job, e_tables = tables_of srv,
     e_blobs = look (store srv)\<rparr> (tables_of srv1)"
proof -
  have "spared e d" if "along e (UDone resp) d b" "db_wf (e_tables e)" for e d b
    using that spared_unharmed spared_retire by (auto simp: upload_succeeded_def)
  moreover have "spared \<lparr>e_cfg = cfg, e_req = r, e_job = job, e_tables = tables_of srv,
     e_blobs = look (store srv)\<rparr> (tables_of srv)" for job
    by (simp add: spared_def)
  ultimately show ?thesis
    using uploadFileHandler_ends [OF assms] assms(2) by fastforce
qed

end

end
