(* ===== verification/Faults.thy ===== *)
theory Faults
  imports Reading
begin

text \<open>
  What the script of failures does to a call: one that finds it empty leaves it empty, and one that
  finds nothing but failures in it, as after the database has been closed, changes no table. Shown
  for the primitives of the connection and followed through every operation and every handler.
\<close>

section \<open>Operations\<close>

definition failing :: "dbconn \<Rightarrow> bool" where
  "failing c \<longleftrightarrow> faults c \<noteq> [] \<and> None \<notin> set (faults c)"

definition calm :: "dbconn \<Rightarrow> dbconn \<Rightarrow> bool" where
  "calm c d \<longleftrightarrow> (faults c = [] \<longrightarrow> faults d = [])
     \<and> (failing c \<longrightarrow> faults d = [] \<or> failing d \<and> db d = db c)"

interpretation cm: effect calm
  by unfold_locales (auto simp: calm_def failing_def)

lemma calm_sql: "calm c (snd (sql s c))"
  by (cases "faults c"; cases "hd (faults c)")
    (auto simp: calm_def failing_def sql_def take_fault_def split: prod.splits)

lemma calm_query: "calm c (snd (query q c))"
  by (simp add: query_def calm_sql)

lemma calm_execute: "calm c (snd (execute u c))"
  by (simp add: execute_def calm_sql)

lemma calm_time_now: "calm c (snd (time_now c))"
  by (simp add: calm_def failing_def time_now_def)

lemma calm_rand_read: "calm c (snd (rand_read n c))"
  by (cases "faults c"; cases "hd (faults c)") (auto simp: calm_def failing_def rand_read_def take_fault_def)

lemma calm_in_tx:
  assumes "\<And>c. calm c (snd (b c))"
  shows "calm c (snd (in_tx b c))"
proof (cases "faults c")
  case Nil
  have "faults (snd (b c)) = []" using assms [of c] Nil by (simp add: calm_def)
  with Nil show ?thesis
    by (auto simp: calm_def failing_def in_tx_def query_def sql_def take_fault_def split: prod.splits tx_end.splits)
next
  case (Cons f fs)
  show ?thesis
  proof (cases f)
    case None
    with Cons show ?thesis by (simp add: calm_def failing_def)
  next
    case (Some e)
    with Cons show ?thesis by (auto simp: calm_def failing_def in_tx_def query_def sql_def take_fault_def)
  qed
qed

lemmas calm_ops = calm_sql calm_query calm_execute calm_time_now calm_rand_read calm_in_tx

text \<open>An empty script: nothing fails.\<close>

lemma quiet_sql: "faults c = [] \<Longrightarrow> sql s c = (case s (db c) of (r, d) \<Rightarrow> (r, c\<lparr>db := d\<rparr>))"
  by (simp add: sql_def take_fault_def)

lemma quiet_query: "faults c = [] \<Longrightarrow> query q c = (Inr (q (db c)), c)"
  by (simp add: query_def quiet_sql)

lemma quiet_execute: "faults c = [] \<Longrightarrow> execute u c = (Inr (), c\<lparr>db := u (db c)\<rparr>)"
  by (simp add: execute_def quiet_sql)

lemma calm_randomSlug: "calm c (snd (randomSlug n c))"
  unfolding randomSlug_def by (intro cm.flow calm_ops)

lemma calm_insert_attempts: "calm c (snd (insert_attempts n len rec c))"
proof (induction n arbitrary: rec c)
  case (Suc n)
  show ?case
    unfolding insert_attempts.simps Let_def by (intro cm.flow calm_randomSlug calm_ops Suc.IH)
qed (simp add: cm.refl)

lemma calm_insert_lengths: "calm c (snd (insert_lengths lens rec c))"
proof (induction lens arbitrary: c)
  case (Cons len lens)
  obtain r c1 where q: "insert_attempts shortSlugAttemptsPerLen len rec c = (r, c1)" by (metis prod.collapse)
  then have "calm c c1" using calm_insert_attempts by (metis snd_conv)
  then show ?case using Cons [of c1] by (auto simp: q cm.trans split: sum.splits option.splits)
qed (simp add: cm.refl)

lemma calm_reserveUpload: "calm c (snd (reserveUpload ao name mime c))"
  unfolding reserveUpload_def reserveUpload_body_def insertUniqueRecord_def findLiveRecordByName_def
  by (intro cm.flow calm_insert_lengths calm_ops)

lemma calm_owned: "calm c (snd (tagsOwnedByAnotherFile ts x c))"
proof (induction ts arbitrary: c)
  case (Cons t ts)
  show ?case unfolding tagsOwnedByAnotherFile.simps tagOwner_def by (intro cm.flow calm_ops Cons.IH)
qed (simp add: cm.refl)

lemma calm_getFileRecord: "calm c (snd (getFileRecord slug c))"
proof -
  have "snd (getFileRecord slug c) = snd (query (\<lambda>d. List.find (\<lambda>r. Slug r = slug) (files d)) c)"
    by (auto simp: getFileRecord_def split: prod.splits sum.splits option.splits)
  then show ?thesis by (simp add: calm_query)
qed

lemma calm_finalize: "calm c (snd (finalize_now slug n c))"
  unfolding finalize_now_def finalizeUpload_def by (intro cm.flow calm_getFileRecord calm_ops)

lemma calm_abort: "calm c (snd (abortUpload slug c))"
  unfolding abortUpload_def deleteTagsForSlug_def by (intro cm.flow calm_ops)

lemma calm_upsertAll: "calm c (snd (upsertAll ts slug now c))"
proof (induction ts arbitrary: c)
  case (Cons t ts)
  show ?case unfolding upsertAll.simps upsertTag_def by (intro cm.flow calm_ops Cons.IH)
qed (simp add: cm.refl)

lemma calm_applyUploadTags: "calm c (snd (applyUploadTags slug ts old c))"
  unfolding applyUploadTags_def applyUploadTags_body_def deleteTagsForSlug_def
  by (intro cm.flow calm_upsertAll calm_ops)

lemma calm_tag_permissions: "calm c (snd (uploadTagPermissions ts old c))"
  unfolding uploadTagPermissions_def Let_def tagsOfSlug_def by (intro cm.flow calm_owned calm_ops)

lemma calm_softDelete: "calm c (snd (softDeleteBySlug slug c))"
proof -
  have "calm c (snd (softDeleteBySlug_body slug c))" for c
  proof -
    obtain r c1 where q: "query (\<lambda>d. List.find (\<lambda>r. Slug r = slug \<and> live r) (files d)) c = (r, c1)"
      by (metis prod.collapse)
    then have one: "calm c c1" using calm_query by (metis snd_conv)
    have "calm c1 (snd (softDeleteBySlug_body slug c))"
      unfolding softDeleteBySlug_body_def q prod.case deleteTagsForSlug_def by (intro cm.flow calm_ops)
    with one show ?thesis by (rule cm.trans)
  qed
  then show ?thesis unfolding softDeleteBySlug_def by (rule calm_in_tx)
qed

lemma calm_addTags: "calm c (snd (addTagsToSlug slug ts c))"
proof -
  have "calm c (snd (addTags_loop ts slug now moved c))" for now moved c
  proof (induction ts arbitrary: moved c)
    case (Cons t ts)
    show ?case unfolding addTags_loop.simps tagOwner_def upsertTag_def by (intro cm.flow calm_ops Cons.IH)
  qed (simp add: cm.refl)
  then show ?thesis
    unfolding addTagsToSlug_def addTagsToSlug_body_def tagsOfSlug_def by (intro cm.flow calm_ops)
qed

lemma calm_removeTag: "calm c (snd (removeTagFromSlug slug tag c))"
  unfolding removeTagFromSlug_def Let_def by (intro cm.flow calm_ops)

lemma calm_tagsForSlugs: "calm c (snd (tagsForSlugs page c))"
  unfolding tagsForSlugs_def by (intro cm.flow calm_ops)

lemmas calm_all = calm_ops calm_reserveUpload calm_owned calm_getFileRecord calm_finalize calm_abort
  calm_applyUploadTags calm_tag_permissions calm_softDelete calm_addTags calm_removeTag calm_tagsForSlugs

section \<open>Handlers\<close>

definition calm_conn :: "'s server \<Rightarrow> 's server \<Rightarrow> bool" where
  "calm_conn srv srv1 \<longleftrightarrow> calm (conn srv) (conn srv1)"

interpretation cs: effect calm_conn
  by unfold_locales (auto simp: calm_conn_def cm.refl intro: cm.trans)

lemma calm_on_db:
  assumes "\<And>c. calm c (snd (f c))"
  shows "calm_conn srv (snd (on_db f srv))"
  using assms [of "conn srv"] by (simp add: on_db_def calm_conn_def case_prod_beta)

lemma calm_on_store: "calm_conn srv (snd (on_store f srv))"
  by (auto simp: on_store_def calm_conn_def cm.refl split: prod.splits)

lemma cs_blob:
  "calm_conn s (snd a) \<Longrightarrow> calm_conn s (snd b) \<Longrightarrow> (\<And>x. calm_conn s (snd (f x))) \<Longrightarrow>
   calm_conn s (snd (case e of BlobTooLarge \<Rightarrow> a | BlobNotFound \<Rightarrow> b | BlobOther x \<Rightarrow> f x))"
  by (cases e) simp_all

lemma cs_lookup:
  "calm_conn s (snd a) \<Longrightarrow> (\<And>x. calm_conn s (snd (f x))) \<Longrightarrow>
   calm_conn s (snd (case e of RecordNotFound \<Rightarrow> a | LookupErr x \<Rightarrow> f x))"
  by (cases e) simp_all

lemmas calm_flow = cs.flow cs_blob cs_lookup calm_on_db calm_on_store calm_all

lemma calm_upload_step: "calm_conn srv (snd (upload_step cfg pf r st srv))"
  by (cases st; simp only: upload_step.simps upload_check_def upload_reserve_def upload_store_def
      upload_authorize_def upload_finalize_def upload_apply_def upload_report_def upload_reclaim_def
      upload_discard_def upload_abort_def liveRecordByName_def findLiveRecordByName_def tagsOfSlug_def;
      intro calm_flow)

lemma calm_serveFile: "calm_conn srv (snd (serveFileRecord pf rec r srv))"
  unfolding serveFileRecord_def
  by (rule cs.bind_prod [OF calm_on_store]) (auto simp: cs.refl split: sum.splits blob_error.splits)

lemma calm_guards:
  assumes "\<And>r. calm_conn srv (snd (h r srv))"
  shows "calm_conn srv (snd (requireToken cfg pf h r srv))" "calm_conn srv (snd (mayRequireToken cfg pf h r srv))"
    "calm_conn srv (snd (requirePermission perm h r srv))" "calm_conn srv (snd (rejectWhenReadOnly cfg h r srv))"
  using assms
  by (auto simp: requireToken_def mayRequireToken_def requirePermission_def rejectWhenReadOnly_def cs.refl
      split: option.splits)

lemma calm_upload_run: "calm_conn srv (snd (upload_run cfg pf r st srv))"
proof (induction "upload_rank st" arbitrary: st srv rule: less_induct)
  case less
  obtain st' srv' where s: "upload_step cfg pf r st srv = (st', srv')" by (metis prod.collapse)
  show ?case
  proof (cases "upload_result st")
    case None
    then have "upload_rank st' < upload_rank st" using upload_step_decreases [OF s] by fastforce
    then have "calm_conn srv' (snd (upload_run cfg pf r st' srv'))" by (rule less)
    moreover have "calm_conn srv srv'" using calm_upload_step [of srv cfg pf r st] s by simp
    ultimately show ?thesis using None s by (simp add: upload_run.simps [of cfg pf r st srv] cs.trans)
  qed (simp add: upload_run.simps [of cfg pf r st srv] cs.refl)
qed

lemma calm_fileStats: "calm c (snd (fileStats c))"
  by (simp add: fileStats_def calm_sql)

lemma calm_reading:
  "calm_conn srv (snd (listFilesHandler cfg r srv))" "calm_conn srv (snd (listAllTagsHandler cfg r srv))"
  "calm_conn srv (snd (listFileTagsHandler slug r srv))" "calm_conn srv (snd (statsHandler r srv))"
  "calm_conn srv (snd (shortLinkHandler pf slug r srv))" "calm_conn srv (snd (filenameURLHandler cfg pf name r srv))"
  "calm_conn srv (snd (tagDownloadHandler pf raw r srv))"
  unfolding listFilesHandler_def listAllTagsHandler_def listFileTagsHandler_def statsHandler_def shortLinkHandler_def
    filenameURLHandler_def tagDownloadHandler_def listLiveRecords_def listAllTags_def liveSlugExists_def tagsOfSlug_def
    latestLiveRecordByName_def liveRecordByTag_def Let_def
  by (intro calm_flow calm_serveFile calm_fileStats)+

lemma calm_add_tags: "calm_conn srv (snd (add_tags_check pf slug r srv))" "calm_conn srv (snd (add_tags_apply slug ts srv))"
  unfolding add_tags_check_def add_tags_apply_def liveSlugExists_def by (intro calm_flow)+

lemma calm_remove_tag: "calm_conn srv (snd (removeFileTagHandler pf slug raw r srv))"
  unfolding removeFileTagHandler_def tagsOfSlug_def by (intro calm_flow)

lemma calm_delete: "calm_conn srv (snd (delete_record cfg slug srv))" "calm_conn srv (snd (delete_blob pf rec srv))"
  unfolding delete_record_def delete_blob_def by (intro calm_flow)+

lemma calm_handlers:
  "calm_conn srv (snd (uploadFileHandler cfg pf r srv))" "calm_conn srv (snd (deleteFileHandler cfg pf slug r srv))"
  "calm_conn srv (snd (addFileTagsHandler pf slug r srv))"
  unfolding uploadFileHandler_def deleteFileHandler_def addFileTagsHandler_def
  by (intro calm_flow calm_upload_run calm_delete calm_add_tags)+

lemma calm_route: "calm_conn srv (snd (route cfg pf ep r srv))"
  by (cases ep; simp only: route.simps healthCheckHandler_def getConfigHandler_def staticHandler_def Let_def;
      intro calm_guards calm_flow calm_handlers calm_remove_tag calm_reading)

lemma calm_thread:
  assumes "thread_step cfg pf t srv = (t', srv1)"
  shows "calm_conn srv srv1"
proof -
  have "calm_conn srv (snd (thread_step cfg pf t srv))"
  proof (cases t)
    case (TUpload r st)
    show ?thesis unfolding TUpload thread_step_def thread.case by (intro calm_flow calm_upload_step)
  next
    case (TDelete slug)
    show ?thesis unfolding TDelete thread_step_def thread.case by (intro calm_flow calm_delete)
  next
    case (TDeleteBlob rec)
    show ?thesis unfolding TDeleteBlob thread_step_def thread.case by (intro calm_flow calm_delete)
  next
    case (TAddTags r slug)
    show ?thesis unfolding TAddTags thread_step_def thread.case by (intro calm_flow calm_add_tags)
  next
    case (TAttach slug ts)
    show ?thesis unfolding TAttach thread_step_def thread.case by (intro calm_flow calm_add_tags)
  next
    case (TServe r ep)
    show ?thesis
      unfolding TServe thread_step_def thread.case
      by (cases ep; simp only: endpoint.case; intro calm_flow calm_route calm_remove_tag)
  next
    case (TDone resp)
    then show ?thesis by (simp add: thread_step_def cs.refl)
  qed
  with assms show ?thesis by simp
qed

text \<open>The requests in flight, whatever order they run in.\<close>

lemma calm_sys:
  assumes "sys_step cfg pf (srv, ts) (srv1, ts1)"
  shows "calm_conn srv srv1"
  using assms
proof (cases rule: sys_step.cases)
  case (run i t)
  then show ?thesis using calm_thread by blast
qed (simp add: cs.refl)

end
