(* ===== verification/Downloads.thy ===== *)
theory Downloads
  imports UploadSpec Faults
begin

text \<open>
  What the three download routes answer when no call fails: by slug, by file name, by tag. \<open>healthy\<close>
  says that neither the database nor the file system has an error pending.
\<close>

definition healthy :: "fsys server \<Rightarrow> bool" where
  "healthy srv \<longleftrightarrow> faults (conn srv) = [] \<and> io_faults (store srv) = []"

lemma on_query_healthy:
  "faults (conn srv) = [] \<Longrightarrow> on_db (query q) srv = (Inr (q (tables_of srv)), srv)"
  by (simp add: on_db_def quiet_query)

lemma getFileRecord_healthy:
  "faults (conn srv) = [] \<Longrightarrow> on_db (getFileRecord slug) srv =
     (case List.find (\<lambda>r. Slug r = slug) (files (tables_of srv)) of
        None \<Rightarrow> Inl RecordNotFound | Some rec \<Rightarrow> Inr rec, srv)"
  by (simp add: on_db_def getFileRecord_def quiet_query split: option.splits)

lemma find_by_slug:
  assumes "db_wf d" and "x \<in> set (files d)"
  shows "List.find (\<lambda>r. Slug r = Slug x) (files d) = Some x"
proof -
  obtain y where y: "List.find (\<lambda>r. Slug r = Slug x) (files d) = Some y"
    using assms(2) by (cases "List.find (\<lambda>r. Slug r = Slug x) (files d)") (auto simp: find_None_all)
  then have "y \<in> set (files d)" "Slug y = Slug x" by (auto dest: find_Some_in)
  with assms y row_unique show ?thesis by metis
qed

lemma fs_Get_healthy:
  "io_faults s = [] \<Longrightarrow> fs_look dir s key = Some b \<Longrightarrow>
     \<exists>t. fs_Get dir key s = (Inr (b, \<lparr>BlobSize = int (length b), ModTime = t, ETag = []\<rparr>), s)"
  by (auto simp: fs_Get_def next_fault_def fs_look_def file_at_def split: option.splits fs_entry.splits)

lemma fs_Get_gone:
  "io_faults s = [] \<Longrightarrow> fs_look dir s key = None \<Longrightarrow> fs_Get dir key s = (Inl BlobNotFound, s)"
  by (auto simp: fs_Get_def next_fault_def fs_look_def file_at_def split: option.splits fs_entry.splits)

text \<open>The answer for a record whose blob is \<open>b\<close>.\<close>

definition delivered :: "'s platform \<Rightarrow> FileRecord \<Rightarrow> bytes \<Rightarrow> response \<Rightarrow> bool" where
  "delivered pf x b resp \<longleftrightarrow> status resp = 200 \<and> (\<exists>t. body resp = Content b t)
     \<and> headers resp = ServeContent_headers pf (DisplayName x) b
          (content_headers x (served_type pf x b) (int (length b)))"

lemma serveFileRecord_healthy:
  assumes "io_faults (store srv) = []" and "fs_look dir (store srv) (StorageKey x) = Some b"
  shows "\<exists>resp. serveFileRecord (fs_platform dir pf) x r srv = (resp, srv)
    \<and> delivered (fs_platform dir pf) x b resp"
proof -
  obtain t where "fs_Get dir (StorageKey x) (store srv)
      = (Inr (b, \<lparr>BlobSize = int (length b), ModTime = t, ETag = []\<rparr>), store srv)"
    using fs_Get_healthy [OF assms] by blast
  then show ?thesis
    by (simp add: serveFileRecord_def on_store_def fs_platform_def delivered_def)
qed

lemma shortLink_healthy:
  assumes "healthy srv" and "db_wf (tables_of srv)" and "x \<in> set (files (tables_of srv))" and "live x"
    and "fs_look dir (store srv) (StorageKey x) = Some b"
  shows "\<exists>resp. shortLinkHandler (fs_platform dir pf) (Slug x) r srv = (resp, srv)
    \<and> delivered (fs_platform dir pf) x b resp"
proof -
  have "on_db (getFileRecord (Slug x)) srv = (Inr x, srv)"
    using assms(1) by (simp add: healthy_def getFileRecord_healthy find_by_slug [OF assms(2,3)])
  moreover have "\<not> (Deleted x \<or> Pending x)" using assms(4) by (simp add: live_def)
  ultimately show ?thesis
    using serveFileRecord_healthy assms(1,5) by (simp add: shortLinkHandler_def healthy_def)
qed

text \<open>Anything else is answered with 404, and a failure never with the bytes.\<close>

lemma shortLink_none:
  assumes "healthy srv" and "\<forall>x \<in> set (files (tables_of srv)). Slug x = slug \<longrightarrow> \<not> live x"
  shows "shortLinkHandler pf slug r srv = (http_NotFound, srv)"
proof (cases "List.find (\<lambda>r. Slug r = slug) (files (tables_of srv))")
  case None
  with assms(1) show ?thesis by (simp add: shortLinkHandler_def getFileRecord_healthy healthy_def)
next
  case (Some y)
  with assms(2) have "Deleted y \<or> Pending y" by (auto simp: live_def dest!: find_Some_in)
  with Some assms(1) show ?thesis
    by (simp add: shortLinkHandler_def getFileRecord_healthy healthy_def)
qed

text \<open>By name: the newest live record of that name. By tag: the live record the tag points to.\<close>

lemma latest_by_name_newest:
  assumes "latest_by_name name d = Some x" and "y \<in> set (files d)" and "live y" and "DisplayName y = name"
  shows "Modified y \<le> Modified x"
proof -
  let ?rows = "sort_desc Modified (filter (\<lambda>r. DisplayName r = name \<and> live r) (files d))"
  obtain rs where rows: "?rows = x # rs"
    using assms(1) by (auto simp: latest_by_name_def split: list.splits)
  have "y \<in> set ?rows" using assms(2-4) by (simp add: set_sort_desc)
  moreover have "sorted_wrt (\<lambda>a b. Modified a \<ge> Modified b) (x # rs)"
    using sort_desc_sorted [of Modified "filter (\<lambda>r. DisplayName r = name \<and> live r) (files d)"]
    unfolding rows .
  ultimately show ?thesis unfolding rows by auto
qed

lemma latest_by_name_exists:
  assumes "y \<in> set (files d)" and "live y" and "DisplayName y = name"
  shows "\<exists>x. latest_by_name name d = Some x"
proof -
  have "y \<in> set (sort_desc Modified (filter (\<lambda>r. DisplayName r = name \<and> live r) (files d)))"
    using assms by (simp add: set_sort_desc)
  then show ?thesis by (auto simp: latest_by_name_def split: list.splits)
qed

lemma filenameURL_healthy:
  assumes "healthy srv" and "\<not> noFilenameURL cfg"
    and "latest_by_name (path_base (path_clean name)) (tables_of srv) = Some x"
    and "fs_look dir (store srv) (StorageKey x) = Some b"
  shows "\<exists>resp. filenameURLHandler cfg (fs_platform dir pf) name r srv = (resp, srv)
    \<and> delivered (fs_platform dir pf) x b resp"
  using assms serveFileRecord_healthy
  by (simp add: filenameURLHandler_def latestLiveRecordByName_def on_query_healthy healthy_def)

lemma tagDownload_healthy:
  assumes "healthy srv" and "parseTag raw = Inr t"
    and "record_by_tag (key_of t) (tables_of srv) = Some x"
    and "fs_look dir (store srv) (StorageKey x) = Some b"
  shows "\<exists>resp. tagDownloadHandler (fs_platform dir pf) raw r srv = (resp, srv)
    \<and> delivered (fs_platform dir pf) x b resp"
  using assms serveFileRecord_healthy
  by (simp add: tagDownloadHandler_def liveRecordByTag_def on_query_healthy healthy_def key_of_def)

lemma record_by_tag_owner:
  assumes "db_wf d" and "x \<in> set (files d)" and "live x" and "tag_owner d key = Some (Slug x)"
  shows "record_by_tag key d = Some x"
proof -
  obtain t where t: "List.find (\<lambda>t. tag_key t = key) (tags d) = Some t" "tag_slug t = Slug x"
    using assms(4) by (auto simp: tag_owner_def)
  obtain y where y: "List.find (\<lambda>r. Slug r = Slug x \<and> live r) (files d) = Some y"
    using assms(2,3) by (cases "List.find (\<lambda>r. Slug r = Slug x \<and> live r) (files d)") (auto simp: find_None_all)
  then have "y \<in> set (files d)" "Slug y = Slug x" by (auto dest: find_Some_in)
  with assms(1,2) have "y = x" by (metis row_unique)
  with t y show ?thesis by (simp add: record_by_tag_def)
qed

end
