(* ===== verification/Cleanup.thy ===== *)
theory Cleanup
  imports Downloads UploadRun
begin

text \<open>
  What an upload that fails leaves behind when nothing but the upload itself fails: the clean-up of
  the handler, \<open>discard\<close> with the blob first and the record second, followed along the run.
\<close>

section \<open>Statements that do not fail\<close>

lemma quiet_finalize:
  assumes "faults c = []" and "slug \<in> set (slugs (db c))"
  shows "\<exists>f c1. finalize_now slug n c = (Inr f, c1)"
proof -
  obtain now c0 where t: "time_now c = (now, c0)" by (metis prod.collapse)
  then have c0: "faults c0 = []" "db c0 = db c" by (auto simp: time_now_def assms(1))
  let ?d = "update_file slug (\<lambda>r. r\<lparr>Size := n, Modified := now, Pending := False\<rparr>) (db c)"
  have "slug \<in> set (slugs ?d)" using assms(2) by (simp add: slugs_update_file)
  then have "\<exists>f. List.find (\<lambda>r. Slug r = slug) (files ?d) = Some f"
    by (cases "List.find (\<lambda>r. Slug r = slug) (files ?d)") (auto simp: slugs_def find_None_all)
  then show ?thesis
    by (auto simp: finalize_now_def t finalizeUpload_def getFileRecord_def quiet_execute [OF c0(1)] quiet_query c0)
qed

lemma quiet_upsertAll:
  assumes "faults c = []" and "slug \<in> set (slugs (db c))"
  shows "\<exists>c1. upsertAll ts slug now c = (Inr (), c1) \<and> faults c1 = []"
  using assms
proof (induction ts arbitrary: c)
  case (Cons t ts)
  have "upsertTag t slug now c = (Inr (), c\<lparr>db := put_tag (key_of t) slug now (db c)\<rparr>)"
    using Cons.prems by (simp add: upsertTag_def quiet_sql upsert_tag_def)
  with Cons.IH [of "c\<lparr>db := put_tag (key_of t) slug now (db c)\<rparr>"] Cons.prems show ?case by simp
qed simp

lemma quiet_apply:
  assumes "faults c = []" and "slug \<in> set (slugs (db c))"
  shows "\<exists>c1. applyUploadTags slug ts old c = (Inr (), c1)"
proof -
  obtain now c0 where t: "time_now c = (now, c0)" by (metis prod.collapse)
  then have c0: "faults c0 = []" "slug \<in> set (slugs (db c0))" using assms by (auto simp: time_now_def)
  obtain c1 where c1: "upsertAll ts slug now c0 = (Inr (), c1)" "faults c1 = []" using quiet_upsertAll [OF c0] by blast
  show ?thesis
    by (auto simp: applyUploadTags_def applyUploadTags_body_def in_tx_def quiet_query assms(1) t c1
        deleteTagsForSlug_def quiet_execute)
qed

lemma quiet_abort:
  assumes "faults c = []"
  shows "db (snd (abortUpload slug c)) = aborted slug (db c)"
  using assms by (simp add: abortUpload_def deleteTagsForSlug_def quiet_execute aborted_def)

section \<open>A store on which nothing fails\<close>

locale tidy_store = served_store pf look good_key
  for pf :: "'s platform" and look and good_key +
  fixes quiet :: "'s \<Rightarrow> bool"
  assumes deletes: "quiet st \<Longrightarrow> look (snd (Delete pf key st)) key = None"
    and quiet_put: "quiet st \<Longrightarrow> quiet (snd (Put pf key rd mx st))"
    and quiet_delete: "quiet st \<Longrightarrow> quiet (snd (Delete pf key st))"

text \<open>Nothing at all, or the tombstone of a file that never was, without a blob.\<close>

definition left_clean :: "env \<Rightarrow> tables \<Rightarrow> (string \<Rightarrow> bytes option) \<Rightarrow> bool" where
  "left_clean e d b \<longleftrightarrow> d = e_tables e \<and> b = e_blobs e
     \<or> (\<exists>rec. fresh e rec \<and> d = with_file (rec\<lparr>Deleted := True, Pending := False\<rparr>) (e_tables e)
          \<and> b (StorageKey rec) = None \<and> blobs_besides e rec None b)"

lemma left_clean_cases:
  assumes "left_clean e d b"
  obtains "d = e_tables e" "b = e_blobs e"
  | rec where "fresh e rec" "d = with_file (rec\<lparr>Deleted := True, Pending := False\<rparr>) (e_tables e)"
      "b (StorageKey rec) = None" "blobs_besides e rec None b"
  using assms unfolding left_clean_def by blast

fun tidy :: "env \<Rightarrow> upload_state \<Rightarrow> tables \<Rightarrow> (string \<Rightarrow> bytes option) \<Rightarrow> bool" where
  "tidy e (UDone resp) d b \<longleftrightarrow> status resp = 201 \<or> left_clean e d b"
| "tidy e (UAbort rec resp) d b \<longleftrightarrow> b (StorageKey rec) = None"
| "tidy e st d b \<longleftrightarrow> True"

lemma aborted_clean:
  assumes "fresh e rec" and "db_wf (e_tables e)"
  shows "aborted (Slug rec) (with_file rec (e_tables e))
    = with_file (rec\<lparr>Deleted := True, Pending := False\<rparr>) (e_tables e)"
proof -
  have new: "\<And>x. x \<in> set (files (e_tables e)) \<Longrightarrow> Slug x \<noteq> Slug rec"
    using assms(1) unfolding fresh_def slugs_def by (metis imageI set_map)
  have "filter (\<lambda>t. tag_slug t \<noteq> Slug rec) (tags (e_tables e)) = tags (e_tables e)"
    using assms by (auto simp: fresh_def db_wf_def filter_id_conv)
  moreover have "map (\<lambda>r. if Slug r = Slug rec then r\<lparr>Deleted := True, Pending := False\<rparr> else r) (files (e_tables e))
      = files (e_tables e)" using new by (simp add: map_idI)
  ultimately show ?thesis by (simp add: aborted_def with_file_def update_file_def delete_tags_def)
qed

context tidy_store
begin

lemma tidy_step:
  assumes run: "upload_step (e_cfg e) pf (e_req e) st srv = (st', srv1)" and wf: "db_wf (e_tables e)"
    and al: "along e st (tables_of srv) (look (store srv))" and td: "tidy e st (tables_of srv) (look (store srv))"
    and q: "faults (conn srv) = []" and qs: "quiet (store srv)"
  shows "tidy e st' (tables_of srv1) (look (store srv1)) \<and> faults (conn srv1) = [] \<and> quiet (store srv1)"
proof -
  have f1: "faults (conn srv1) = []"
    using calm_upload_step [of srv "e_cfg e" pf "e_req e" st] run q by (simp add: calm_conn_def calm_def)
  have "tidy e st' (tables_of srv1) (look (store srv1)) \<and> quiet (store srv1)"
  proof (cases st)
    case (UCheck job)
    have "on_db (liveRecordByName (job_name job)) srv = (Inr (live_by_name (job_name job) (tables_of srv)), srv)"
      by (simp add: liveRecordByName_def findLiveRecordByName_def on_query_healthy q)
    with run UCheck al qs show ?thesis
      by (auto simp: upload_check_def left_clean_def split: option.splits if_splits)
  next
    case (UReserve job)
    obtain x s1 where d: "on_db (reserveUpload (appendOnly (e_cfg e)) (job_name job) (job_mime job)) srv = (x, s1)"
      by (metis prod.collapse)
    note c = on_db_conn [OF d]
    show ?thesis
    proof (cases x)
      case (Inl err)
      with c reserveUpload_Inl have "tables_of s1 = tables_of srv" by blast
      with run UReserve al qs c d Inl show ?thesis by (auto simp: upload_reserve_def left_clean_def)
    next
      case (Inr p)
      with run UReserve qs c d show ?thesis by (auto simp: upload_reserve_def split: prod.splits)
    qed
  next
    case (UStore job rec old)
    obtain x s1 where d: "on_store (Put pf (StorageKey rec) (content (job_part job)) (maxContentLength (e_cfg e))) srv = (x, s1)"
      by (metis prod.collapse)
    have "quiet (store s1)" using quiet_put [OF qs] on_store_store [OF d] by (metis snd_conv)
    with run UStore d show ?thesis
      by (auto simp: upload_store_def split: sum.splits blob_error.splits)
  next
    case (UScan job rec old n)
    with run qs show ?thesis by (auto simp: upload_scan_def split: sum.splits)
  next
    case (UAuthorize rec old n ts)
    obtain x s1 where d: "on_db (uploadTagPermissions ts old) srv = (x, s1)" by (metis prod.collapse)
    with run UAuthorize qs on_db_conn [OF d] show ?thesis
      by (auto simp: upload_authorize_def Let_def split: sum.splits if_splits)
  next
    case (UFinalize rec old n ts)
    then have "Slug rec \<in> set (slugs (tables_of srv))" using al by (auto simp: with_file_def slugs_def)
    then obtain f c1 where "finalize_now (Slug rec) n (conn srv) = (Inr f, c1)" using quiet_finalize [OF q] by blast
    with run UFinalize qs show ?thesis by (auto simp: upload_finalize_def on_db_def)
  next
    case (UApply f old ts)
    then have "Slug f \<in> set (slugs (tables_of srv))" using al by (auto simp: with_file_def slugs_def)
    then obtain c1 where "applyUploadTags (Slug f) ts (replacedSlug old) (conn srv) = (Inr (), c1)"
      using quiet_apply [OF q] by blast
    with run UApply qs show ?thesis by (auto simp: upload_apply_def on_db_def)
  next
    case (UReport f old)
    have "on_db (tagsOfSlug (Slug f)) srv = (Inr (tag_names (tables_of srv) (Slug f)), srv)"
      by (simp add: tagsOfSlug_def on_query_healthy q)
    with run UReport qs show ?thesis by (auto simp: upload_report_def Let_def split: option.splits)
  next
    case (UReclaim old resp)
    obtain x s1 where d: "on_store (Delete pf (StorageKey old)) srv = (x, s1)" by (metis prod.collapse)
    have "quiet (store s1)" using quiet_delete [OF qs] on_store_store [OF d] by (metis snd_conv)
    with run UReclaim al d show ?thesis by (auto simp: upload_reclaim_def)
  next
    case (UDiscard rec resp)
    obtain x s1 where d: "on_store (Delete pf (StorageKey rec)) srv = (x, s1)" by (metis prod.collapse)
    have "quiet (store s1)" "look (store s1) (StorageKey rec) = None"
      using quiet_delete [OF qs] deletes [OF qs] on_store_store [OF d] by (metis snd_conv)+
    with run UDiscard d show ?thesis by (auto simp: upload_discard_def)
  next
    case (UAbort rec resp)
    obtain x s1 where d: "on_db (abortUpload (Slug rec)) srv = (x, s1)" by (metis prod.collapse)
    note c = on_db_conn [OF d]
    have "tables_of s1 = aborted (Slug rec) (tables_of srv)" using quiet_abort [OF q] c by (metis snd_conv)
    with al UAbort aborted_clean [OF _ wf] have "tables_of s1 = with_file (rec\<lparr>Deleted := True, Pending := False\<rparr>) (e_tables e)"
      by simp
    moreover have "st' = UDone resp" "srv1 = s1" using run UAbort d by (simp_all add: upload_abort_def)
    ultimately show ?thesis using al td UAbort c qs by (auto simp: left_clean_def)
  next
    case (UDone resp)
    with run td qs show ?thesis by auto
  qed
  with f1 show ?thesis by simp
qed

lemma tidy_run:
  assumes "upload_run (e_cfg e) pf (e_req e) st srv = (resp, srv1)" and wf: "db_wf (e_tables e)"
    and "along e st (tables_of srv) (look (store srv))" and "tidy e st (tables_of srv) (look (store srv))"
    and "faults (conn srv) = []" and "quiet (store srv)"
  shows "status resp = 201 \<or> left_clean e (tables_of srv1) (look (store srv1))"
  using assms(1,3-)
proof (induction "upload_rank st" arbitrary: st srv rule: less_induct)
  case less
  show ?case
  proof (cases "upload_result st")
    case (Some resp')
    then have "st = UDone resp'" by (cases st) simp_all
    with less.prems show ?thesis by auto
  next
    case None
    obtain st' srv' where s: "upload_step (e_cfg e) pf (e_req e) st srv = (st', srv')" by (metis prod.collapse)
    have "upload_run (e_cfg e) pf (e_req e) st' srv' = (resp, srv1)"
      using None less.prems(1) s by (simp add: upload_run.simps [of "e_cfg e" pf "e_req e" st srv])
    moreover have "upload_rank st' < upload_rank st" using upload_step_decreases [OF s] None by fastforce
    ultimately show ?thesis
      using less.hyps along_step [OF s wf less.prems(2)] tidy_step [OF s wf less.prems(2-5)] by blast
  qed
qed

lemma uploadFileHandler_clean:
  assumes "uploadFileHandler cfg pf r srv = (resp, srv1)" and "db_wf (tables_of srv)" and "status resp \<noteq> 201"
    and "faults (conn srv) = []" and "quiet (store srv)"
  shows "\<exists>job. left_clean \<lparr>e_cfg = cfg, e_req = r, e_job = job, e_tables = tables_of srv,
    e_blobs = look (store srv)\<rparr> (tables_of srv1) (look (store srv1))"
  using uploadFileHandler_ends [OF assms(1,2)]
proof
  assume "upload_start cfg pf r = UDone resp \<and> status resp = 400 \<and> srv1 = srv"
  then show ?thesis by (simp add: left_clean_def)
next
  assume "\<exists>job. upload_start cfg pf r = (if appendOnly cfg then UReserve job else UCheck job)
    \<and> along \<lparr>e_cfg = cfg, e_req = r, e_job = job, e_tables = tables_of srv, e_blobs = look (store srv)\<rparr>
        (UDone resp) (tables_of srv1) (look (store srv1))"
  then obtain job where job: "upload_start cfg pf r = (if appendOnly cfg then UReserve job else UCheck job)" by blast
  let ?e = "\<lparr>e_cfg = cfg, e_req = r, e_job = job, e_tables = tables_of srv, e_blobs = look (store srv)\<rparr>"
  have "upload_run (e_cfg ?e) pf (e_req ?e) (upload_start cfg pf r) srv = (resp, srv1)"
    using assms(1) by (simp add: uploadFileHandler_def)
  moreover have "along ?e (upload_start cfg pf r) (tables_of srv) (look (store srv))"
    by (simp add: job may_supersede_def superseded_def)
  moreover have "tidy ?e (upload_start cfg pf r) (tables_of srv) (look (store srv))" by (simp add: job)
  ultimately have "status resp = 201 \<or> left_clean ?e (tables_of srv1) (look (store srv1))"
    using tidy_run [of ?e] assms(2,4,5) by fastforce
  with assms(3) show ?thesis by blast
qed

end

section \<open>The filesystem\<close>

lemma fs_quiet_delete:
  assumes "io_faults st = []"
  shows "fs_look dir (snd (fs_Delete dir key st)) key = None" and "io_faults (snd (fs_Delete dir key st)) = []"
  using assms
  by (auto simp: fs_Delete_def os_Remove_def next_fault_def fs_look_def file_at_delete file_at_absent
      split: option.splits fs_entry.splits if_splits)

interpretation quiet_io: effect "\<lambda>s t. io_faults s = [] \<longrightarrow> io_faults t = []"
  by unfold_locales simp_all

lemma quiet_calls:
  "io_faults st = [] \<longrightarrow> io_faults (snd (os_MkdirAll d st)) = []" "io_faults st = [] \<longrightarrow> io_faults (snd (os_Create p st)) = []"
  "io_faults st = [] \<longrightarrow> io_faults (snd (os_Write p x st)) = []" "io_faults st = [] \<longrightarrow> io_faults (snd (os_Close st)) = []"
  "io_faults st = [] \<longrightarrow> io_faults (snd (os_Remove p st)) = []"
  by (auto simp: os_MkdirAll_def os_Create_def os_Write_def os_Close_def os_Remove_def next_fault_def set_entry_def
      split: option.splits fs_entry.splits)

lemma quiet_removed:
  "io_faults st = [] \<longrightarrow> io_faults (snd (y, snd (os_Remove p (snd (os_Close st))))) = []"
  "io_faults st = [] \<longrightarrow> io_faults (snd (y, snd (os_Remove p st))) = []"
  using quiet_calls(4,5) by simp_all

lemma fs_quiet_put: "io_faults st = [] \<longrightarrow> io_faults (snd (fs_Put dir key rd mx st)) = []"
  unfolding fs_Put_def Let_def by (intro quiet_removed quiet_io.flow quiet_calls)

interpretation tidy_fs: tidy_store "fs_platform dir pf" "fs_look dir" clean_key "\<lambda>st. io_faults st = []" for dir pf
  by unfold_locales (simp_all add: fs_platform_def fs_quiet_delete fs_quiet_put)

end
