(* ===== verification/Examples.thy ===== *)
theory Examples
  imports Downloads "HOL-Library.Code_Target_Nat" "HOL-Library.Code_Target_Int"
begin

text \<open>
  A small deployment that runs: a filesystem store under \<open>/d\<close>, a static API token, a session key,
  and requests against it. The witnesses of the properties and the race scenarios are runs of it.
\<close>

definition ex_claims :: sessionClaims where
  "ex_claims =
     \<lparr>c_Issuer = sessionIssuer, c_Subject = ''ann'', c_Audience = [sessionAudience],
      c_ExpiresAt = Some (60 * 10 ^ 9), c_IssuedAt = Some 0, c_Via = ''mint'', c_Email = [],
      c_Name = [], c_PreferredUsername = [], c_Perms = [permFileCreate]\<rparr>"

definition ex_key :: bytes where
  "ex_key = ''0123456789abcdef0123456789abcdef''"

text \<open>A JWT library that knows one token.\<close>

definition ex_jwt :: jwt_lib where
  "ex_jwt =
     \<lparr>NewNumericDate = (\<lambda>t. t div 10 ^ 9 * 10 ^ 9),
      SignedString = (\<lambda>alg c key. if alg = ''HS256'' \<and> c = ex_claims \<and> key = ex_key
        then Inr ''tok'' else Inl ''no such key''),
      ParseWithClaims = (\<lambda>opts raw.
        if raw = ''tok'' \<and> ''HS256'' \<in> set (o_methods opts) \<and> o_key opts = ex_key
           \<and> claims_valid opts ex_claims
        then Inr (ex_claims, True) else Inl ''invalid'')\<rparr>"

lemma ex_jwt_documented: "jwt_documented ex_jwt"
  by (auto simp: jwt_documented_def ex_jwt_def split: if_splits)

definition ex_pf :: "fsys platform" where
  "ex_pf = fs_platform ''/d''
     \<lparr>Put = fs_Put ''/d'', Get = fs_Get ''/d'', Delete = fs_Delete ''/d'', jwt = ex_jwt,
      TypeByExtension = (\<lambda>ext. if ext = ''.html'' then ''text/html; charset=utf-8'' else ''text/plain''),
      DetectContentType = (\<lambda>_. ''application/octet-stream''), unicodeLower = (\<lambda>s. s),
      goQuote = (\<lambda>s. s), fileServer = None, oidcHandler = (\<lambda>_ _. http_NotFound),
      databaseHealth = \<lparr>SchemaVersion = 1, Snapshot = [], Generation = 0, AgeNanos = None\<rparr>\<rparr>"

definition ex_cfg :: settings where
  "ex_cfg =
     \<lparr>maxContentLength = 100, apiToken = ''secret'', webPortal = True, noListing = False,
      appendOnly = False, noFilenameURL = False, maxListLimit = 500, readOnly = False,
      session = \<lparr>sessionSecret = ex_key, sessionTTL = defaultSessionTTL\<rparr>, oidcEnabled = False\<rparr>"

definition ex_part :: "string \<Rightarrow> string \<Rightarrow> string \<Rightarrow> part" where
  "ex_part field filename text =
     \<lparr>FormName = field, filename_param = filename,
      content = \<lparr>blocks = [text], last_block = [], ending = EOF\<rparr>\<rparr>"

definition ex_auth :: "string list \<Rightarrow> requestAuth" where
  "ex_auth ps = \<lparr>Kind = SessionKind, auth_Subject = ''ann'', auth_Via = ''mint'',
     Perms = permissionSetFrom ps\<rparr>"

definition ex_request :: "string \<Rightarrow> string \<Rightarrow> part list \<Rightarrow> string list \<Rightarrow> request" where
  "ex_request meth auth ps perms =
     \<lparr>req_method = meth, authorization = auth, wall = 0, query_param = (\<lambda>_. []),
      form = Inr \<lparr>parts = ps, stream_end = EOF\<rparr>, json_tags = Inr [''x:1''],
      context_auth = Some (ex_auth perms)\<rparr>"

text \<open>Uploads of \<open>a.txt\<close>: with a tag by a caller who may do everything, and without.\<close>

definition ex_upload :: request where
  "ex_upload = ex_request ''POST'' ''Bearer secret''
     [ex_part ''file'' ''a.txt'' ''hi'', ex_part ''tags'' [] ''x:1''] allPermissions"

definition ex_plain :: "string list \<Rightarrow> request" where
  "ex_plain perms = ex_request ''POST'' ''Bearer tok'' [ex_part ''file'' ''a.txt'' ''hi''] perms"

definition ex_entropy :: "nat \<Rightarrow> char" where
  "ex_entropy i = (if i < 5 then CHR ''A'' else if i < 10 then CHR ''B'' else CHR ''C'')"

definition ex_srv :: "fsys server" where
  "ex_srv =
     \<lparr>conn = \<lparr>db = tables_init, faults = [], entropy = ex_entropy, clock = (\<lambda>_. ''2024'')\<rparr>,
      store = \<lparr>entries = [], io_faults = [], fs_now = 0\<rparr>\<rparr>"

text \<open>The server after one upload, and the record it holds.\<close>

definition ex_used :: "fsys server" where
  "ex_used = snd (uploadFileHandler ex_cfg ex_pf ex_upload ex_srv)"

text \<open>It is evaluated once; later runs start from its value.\<close>

definition ex_tables :: tables where
  "ex_tables = \<lparr>files =
         [\<lparr>Slug = ''DDDDD'', DisplayName = ''a.txt'', StorageKey = ''DD/DDD'', Size = 2, Modified = ''2024'',
           MimeType = ''text/plain'', Deleted = False, Pending = False\<rparr>],
       tags = [\<lparr>tag_name = ''x'', tag_suffix = ''1'', tag_slug = ''DDDDD'', tag_created = ''2024''\<rparr>]\<rparr>"

lemma ex_used_parts:
  "tables_of ex_used = ex_tables \<and> faults (conn ex_used) = [] \<and> clock (conn ex_used) i = ''2024''
   \<and> entropy (conn ex_used) i = ex_entropy (i + 5)
   \<and> store ex_used = \<lparr>entries = [(''/d/DD'', FDir), (''/d/DD/DDD'', FFile ''hi'' 0)], io_faults = [], fs_now = 0\<rparr>"
  by code_simp

lemma ex_used_eval [code]:
  "ex_used = \<lparr>conn = \<lparr>db = ex_tables, faults = [], entropy = (\<lambda>i. ex_entropy (i + 5)), clock = (\<lambda>_. ''2024'')\<rparr>,
    store = \<lparr>entries = [(''/d/DD'', FDir), (''/d/DD/DDD'', FFile ''hi'' 0)], io_faults = [], fs_now = 0\<rparr>\<rparr>"
  using ex_used_parts by (intro server.equality dbconn.equality) (auto simp: ex_used_parts)


lemma ex_used_facts:
  "healthy ex_used" "fs_platform ''/d'' ex_pf = ex_pf"
  "hd (files (tables_of ex_used)) \<in> set (files (tables_of ex_used))"
  "live (hd (files (tables_of ex_used)))"
proof -
  show "fs_platform ''/d'' ex_pf = ex_pf" by (simp add: ex_pf_def fs_platform_def)
  have "length (faults (conn ex_used)) = 0 \<and> length (io_faults (store ex_used)) = 0" by code_simp
  then show "healthy ex_used" by (simp add: healthy_def)
  show "hd (files (tables_of ex_used)) \<in> set (files (tables_of ex_used))" by (rule hd_in_set) code_simp
  show "live (hd (files (tables_of ex_used)))" by code_simp
qed

lemma ex_used_sound:
  "db_wf (tables_of ex_used)" "live_stored (tables_of ex_used) (fs_look ''/d'' (store ex_used))"
proof -
  have "distinct (slugs (tables_of ex_used)) \<and> distinct (map tag_key (tags (tables_of ex_used)))" by code_simp
  moreover have "list_all (\<lambda>r. slug_shape (Slug r) \<and> StorageKey r = storageKeyForSlug (Slug r)
      \<and> fs_look ''/d'' (store ex_used) (StorageKey r) = Some ''hi'' \<and> Size r = 2)
      (files (tables_of ex_used))" by code_simp
  moreover have "list_all (\<lambda>t. tag_slug t \<in> set (slugs (tables_of ex_used))) (tags (tables_of ex_used))"
    by code_simp
  ultimately show "db_wf (tables_of ex_used)"
    "live_stored (tables_of ex_used) (fs_look ''/d'' (store ex_used))"
    by (auto simp: db_wf_def list_all_iff live_stored_def has_blob_def)
qed

end
