(* ===== verification/Search.thy ===== *)
theory Search
  imports Handlers "HOL-Library.Multiset"
begin

text \<open>
  Searching and listing: what the \<open>LIKE\<close> pattern of a search term matches, that decorating a page
  of records with one query gives each record its own tags, and what the pages of a listing add up
  to.
\<close>

section \<open>Search terms match literally\<close>

definition esc :: "char \<Rightarrow> string" where
  "esc x = (if x = CHR 0x5C \<or> x = CHR ''%'' \<or> x = CHR ''_'' then [CHR 0x5C, x] else [x])"

lemma replace_all_simps [simp]:
  "replace_all c w [] = []"
  "replace_all c w (x # xs) = (if x = c then w else [x]) @ replace_all c w xs"
  "replace_all c w (xs @ ys) = replace_all c w xs @ replace_all c w ys"
  by (simp_all add: replace_all_def)

lemma escape_esc: "escapeLikePattern s = concat (map esc s)"
  unfolding escapeLikePattern_def by (induction s) (auto simp: esc_def)

lemma like_esc:
  "like (esc x @ p) t = (case t of [] \<Rightarrow> False | c # u \<Rightarrow> lower_char c = lower_char x \<and> like p u)"
  by (cases t) (auto simp: esc_def)

lemma split_Cons:
  "(\<exists>mid post. c # u = mid @ post \<and> map f mid = f x # ys \<and> P post) \<longleftrightarrow>
     f c = f x \<and> (\<exists>mid post. u = mid @ post \<and> map f mid = ys \<and> P post)"
  (is "?l \<longleftrightarrow> ?r")
proof
  assume ?l
  then obtain mid post where mid: "c # u = mid @ post" "map f mid = f x # ys" "P post" by metis
  then obtain m ms where "mid = m # ms" by (cases mid) simp_all
  with mid have "f c = f x" "u = ms @ post" "map f ms = ys" by simp_all
  with mid(3) show ?r by (intro conjI exI [of _ ms] exI [of _ post])
next
  assume ?r
  then obtain mid post where "u = mid @ post" "f c = f x" "map f mid = ys" "P post" by metis
  then show ?l by (intro exI [of _ "c # mid"] exI [of _ post]) simp
qed

lemma like_literal:
  "like (concat (map esc s) @ p) t \<longleftrightarrow>
     (\<exists>mid post. t = mid @ post \<and> map lower_char mid = map lower_char s \<and> like p post)"
proof (induction s arbitrary: t)
  case (Cons x s)
  show ?case
  proof (cases t)
    case (Cons c u)
    with Cons.IH show ?thesis by (simp add: like_esc split_Cons)
  qed (simp add: like_esc)
qed simp

lemma like_percent: "like (CHR ''%'' # p) t \<longleftrightarrow> (\<exists>pre post. t = pre @ post \<and> like p post)"
proof (induction t)
  case (Cons c t)
  have "(\<exists>pre post. c # t = pre @ post \<and> like p post)
    \<longleftrightarrow> like p (c # t) \<or> (\<exists>pre post. t = pre @ post \<and> like p post)"
    by (simp add: Cons_eq_append_conv ex_disj_distrib conj_disj_distribR) blast
  with Cons.IH show ?case by simp
qed simp

lemma like_contains:
  "like (contains_pattern s) t \<longleftrightarrow>
     (\<exists>pre mid post. t = pre @ mid @ post \<and> map lower_char mid = map lower_char s)"
proof -
  have "like ''%'' post" for post by (simp add: like_percent [of "[]"])
  then show ?thesis
    unfolding contains_pattern_def escape_esc append_Cons like_percent like_literal by auto
qed

section \<open>One query for the tags of a page\<close>

lemma group_rows_spec:
  "group_rows ts m s = m s @ map (\<lambda>t. canonical (tag_key t)) (filter (\<lambda>t. tag_slug t = s) ts)"
  by (induction ts arbitrary: m) auto

lemma tagsForSlugs_healthy:
  assumes "faults c = []"
  shows "\<exists>m. tagsForSlugs page c = (Inr m, c) \<and> (\<forall>s \<in> set page. m s = tag_names (db c) s)"
proof (cases "page = []")
  case False
  let ?rows = "sort_key tag_key (filter (\<lambda>t. tag_slug t \<in> set page) (tags (db c)))"
  have "group_rows ?rows (\<lambda>_. []) s = tag_names (db c) s" if "s \<in> set page" for s
  proof -
    have "filter (\<lambda>t. tag_slug t = s) ?rows = sort_key tag_key (filter (\<lambda>t. tag_slug t = s) (tags (db c)))"
      using that by (simp add: filter_sort) (metis (mono_tags, lifting))
    then show ?thesis by (simp add: group_rows_spec tag_names_def)
  qed
  with False assms show ?thesis
    by (simp add: tagsForSlugs_def query_def sql_def take_fault_def)
qed (simp add: tagsForSlugs_def)

lemma listLiveRecords_healthy:
  "faults c = [] \<Longrightarrow> listLiveRecords n k search order c =
     (Inr (window n k (orderByClause order (matching search (files (db c))))), c)"
  by (simp add: listLiveRecords_def query_def sql_def take_fault_def)

definition page_records :: "settings \<Rightarrow> request \<Rightarrow> tables \<Rightarrow> FileRecord list" where
  "page_records cfg r d =
     window (page_offset r) (page_limit cfg r)
       (orderByClause (query_param r ''order'') (matching (query_param r ''search'') (files d)))"

lemma listFilesHandler_healthy:
  assumes "faults (conn srv) = []"
  shows "listFilesHandler cfg r srv =
    (json 200 (JFiles (map (\<lambda>x. fileInfoFromRecord x (tag_names (tables_of srv) (Slug x)))
        (page_records cfg r (tables_of srv))) (length (page_records cfg r (tables_of srv)))), srv)"
proof -
  let ?rs = "page_records cfg r (tables_of srv)"
  obtain m where m: "tagsForSlugs (map Slug ?rs) (conn srv) = (Inr m, conn srv)"
    and own: "\<forall>s \<in> set (map Slug ?rs). m s = tag_names (tables_of srv) s"
    using tagsForSlugs_healthy [OF assms] by blast
  have "on_db (listLiveRecords (page_offset r) (page_limit cfg r) (query_param r ''search'')
      (query_param r ''order'')) srv = (Inr ?rs, srv)"
    using assms by (simp add: on_db_def listLiveRecords_healthy page_records_def)
  moreover have "on_db (tagsForSlugs (map Slug ?rs)) srv = (Inr m, srv)"
    using m by (simp add: on_db_def)
  moreover have "map (\<lambda>x. fileInfoFromRecord x (m (Slug x))) ?rs
      = map (\<lambda>x. fileInfoFromRecord x (tag_names (tables_of srv) (Slug x))) ?rs"
    using own by simp
  ultimately show ?thesis by (simp add: listFilesHandler_def Let_def del: map_eq_conv)
qed

lemma page_limit_bounds:
  "0 < maxListLimit cfg \<Longrightarrow> 0 < page_limit cfg r \<and> int (page_limit cfg r) \<le> maxListLimit cfg"
  by (auto simp: page_limit_def Let_def)

section \<open>Pages\<close>

lemma pages_take: "concat (map (\<lambda>k. window (k * n) n xs) [0..<m]) = take (m * n) xs"
proof (induction m)
  case (Suc m)
  have "take (Suc m * n) xs = take (m * n) xs @ take n (drop (m * n) xs)"
    by (metis add.commute mult_Suc take_add)
  with Suc show ?case by (simp add: window_def)
qed simp

lemma orderByClause_mset: "mset (orderByClause order xs) = mset xs"
  by (simp add: orderByClause_def sort_desc_def)

lemma length_orderBy: "length (orderByClause order xs) = length xs"
  by (metis mset_eq_length orderByClause_mset)

lemma pages_complete:
  assumes "faults c = []" and "length (matching search (files (db c))) \<le> m * n"
  shows "mset (concat (map (\<lambda>k. case fst (listLiveRecords (k * n) n search order c) of
      Inl e \<Rightarrow> [] | Inr rs \<Rightarrow> rs) [0..<m])) = mset (matching search (files (db c)))"
proof -
  have "(\<lambda>k. case fst (listLiveRecords (k * n) n search order c) of Inl e \<Rightarrow> [] | Inr rs \<Rightarrow> rs)
      = (\<lambda>k. window (k * n) n (orderByClause order (matching search (files (db c)))))"
    using assms(1) by (simp add: listLiveRecords_healthy)
  then show ?thesis using assms(2)
    by (simp only: pages_take) (simp add: length_orderBy orderByClause_mset)
qed

end
