(* ===== verification/StorageS3.thy ===== *)
theory StorageS3
  imports Storage
begin

text \<open>
  The S3 backend of \<open>server/storage_s3.go\<close>. The S3 client and its transfer manager are the record
  \<open>s3_client\<close>, acting on a state of the bucket; \<open>s3_documented\<close> says what the calls promise, \<open>obj\<close>
  reading the objects of a state. The transfer manager gets the capped reader and gives it back
  as far as it has been read.
\<close>

section \<open>The client\<close>

text \<open>An SDK error, as far as \<open>isS3NotFound\<close> looks into it.\<close>

record s3_error =
  is_NotFound :: bool
  is_NoSuchKey :: bool
  ErrorCode :: "string option"
  HTTPStatusCode :: "nat option"
  error_text :: string

definition isS3NotFound :: "s3_error \<Rightarrow> bool" where
  "isS3NotFound e =
     (if is_NotFound e then True
      else if is_NoSuchKey e then True
      else if (case ErrorCode e of None \<Rightarrow> False
               | Some code \<Rightarrow> code \<in> {''NotFound'', ''NoSuchKey'', ''404''}) then True
      else (case HTTPStatusCode e of None \<Rightarrow> False | Some st \<Rightarrow> st = 404))"

record s3_head =
  ContentLength :: "int option"
  head_ETag :: "string option"
  LastModified :: "int option"

record 's s3_client =
  HeadObject :: "string \<Rightarrow> string \<Rightarrow> 's \<Rightarrow> (s3_error + s3_head) \<times> 's"
  GetObject :: "string \<Rightarrow> string \<Rightarrow> int option \<Rightarrow> 's \<Rightarrow> (s3_error + reader) \<times> 's"
  DeleteObject :: "string \<Rightarrow> string \<Rightarrow> 's \<Rightarrow> s3_error option \<times> 's"
  UploadObject :: "string \<Rightarrow> string \<Rightarrow> capReader \<Rightarrow> 's \<Rightarrow> (s3_error option \<times> capReader) \<times> 's"

record 's s3Storage =
  client :: "'s s3_client"
  bucket :: string
  prefix_of :: string

definition trim_slashes :: "string \<Rightarrow> string" where
  "trim_slashes s =
     (let t = dropWhile (\<lambda>c. c = CHR ''/'') s in rev (dropWhile (\<lambda>c. c = CHR ''/'') (rev t)))"

definition normaliseS3Prefix :: "string \<Rightarrow> string" where
  "normaliseS3Prefix prefix0 =
     (let prefix1 = trim_slashes (trim_space prefix0) in
      if prefix1 = [] then [] else prefix1 @ ''/'')"

definition newS3StorageWithClient :: "'s s3_client \<Rightarrow> string \<Rightarrow> string \<Rightarrow> 's s3Storage" where
  "newS3StorageWithClient c s3Bucket prefix0 =
     \<lparr>client = c, bucket = s3Bucket, prefix_of = normaliseS3Prefix prefix0\<rparr>"

definition objectKey :: "'s s3Storage \<Rightarrow> string \<Rightarrow> string" where
  "objectKey st key = prefix_of st @ key"

section \<open>Put, Get, Delete\<close>

definition s3_Delete :: "'s s3Storage \<Rightarrow> string \<Rightarrow> 's \<Rightarrow> blob_error option \<times> 's" where
  "s3_Delete st key s =
     (case DeleteObject (client st) (bucket st) (objectKey st key) s of
        (None, s1) \<Rightarrow> (None, s1)
      | (Some e, s1) \<Rightarrow> (Some (BlobOther (error_text e)), s1))"

definition s3_Put ::
  "'s s3Storage \<Rightarrow> string \<Rightarrow> reader \<Rightarrow> int \<Rightarrow> 's \<Rightarrow> (blob_error + int) \<times> 's" where
  "s3_Put st key r maxBytes s =
     (case UploadObject (client st) (bucket st) (objectKey st key) (newCapReader r maxBytes) s of
        ((Some e, rd), s1) \<Rightarrow>
          if overflowed rd then (Inl BlobTooLarge, snd (s3_Delete st key s1))
          else (Inl (BlobOther (error_text e)), s1)
      | ((None, rd), s1) \<Rightarrow>
          if n_read rd > maxBytes then (Inl BlobTooLarge, snd (s3_Delete st key s1))
          else (Inr (n_read rd), s1))"

record s3ReadSeeker =
  sk_bucket :: string
  sk_key :: string
  sk_size :: int
  sk_pos :: int
  sk_body :: "reader option"

definition aws_ToInt64 :: "int option \<Rightarrow> int" where
  "aws_ToInt64 x = (case x of None \<Rightarrow> 0 | Some n \<Rightarrow> n)"

definition s3_Get ::
  "'s s3Storage \<Rightarrow> string \<Rightarrow> 's \<Rightarrow> (blob_error + s3ReadSeeker \<times> BlobInfo) \<times> 's" where
  "s3_Get st key s =
     (case HeadObject (client st) (bucket st) (objectKey st key) s of
        (Inl e, s1) \<Rightarrow>
          (Inl (if isS3NotFound e then BlobNotFound else BlobOther (error_text e)), s1)
      | (Inr head, s1) \<Rightarrow>
          let info = \<lparr>BlobSize = aws_ToInt64 (ContentLength head),
                      ModTime = (case LastModified head of None \<Rightarrow> 0 | Some t \<Rightarrow> t),
                      ETag = (case head_ETag head of None \<Rightarrow> [] | Some t \<Rightarrow> t)\<rparr>
          in (Inr (\<lparr>sk_bucket = bucket st, sk_key = objectKey st key, sk_size = BlobSize info,
                   sk_pos = 0, sk_body = None\<rparr>, info), s1))"

section \<open>The ranged reader\<close>

definition openAt :: "'s s3_client \<Rightarrow> s3ReadSeeker \<Rightarrow> 's \<Rightarrow> string option \<times> s3ReadSeeker \<times> 's" where
  "openAt c sk s =
     (case GetObject c (sk_bucket sk) (sk_key sk) (if sk_pos sk > 0 then Some (sk_pos sk) else None) s of
        (Inl e, s1) \<Rightarrow> (Some (error_text e), sk, s1)
      | (Inr rd, s1) \<Rightarrow> (None, sk\<lparr>sk_body := Some rd\<rparr>, s1))"

definition closeBody :: "s3ReadSeeker \<Rightarrow> s3ReadSeeker" where
  "closeBody sk = sk\<lparr>sk_body := None\<rparr>"

definition ErrUnexpectedEOF :: read_end where
  "ErrUnexpectedEOF = ReadErr ''unexpected EOF''"

text \<open>The read once a body is open; \<open>len\<close> is the length of the buffer.\<close>

definition body_Read :: "nat \<Rightarrow> s3ReadSeeker \<Rightarrow> reader \<Rightarrow> (bytes \<times> read_end option) \<times> s3ReadSeeker" where
  "body_Read len sk rd =
     (case reader_read len rd of
        ((b, err), rd1) \<Rightarrow>
          let sk1 = sk\<lparr>sk_pos := int64 (sk_pos sk + int (length b)), sk_body := Some rd1\<rparr> in
          if err = Some EOF then
            (if sk_pos sk1 < sk_size sk1 then ((b, Some ErrUnexpectedEOF), closeBody sk1)
             else ((b, err), closeBody sk1))
          else ((b, err), sk1))"

definition s3_Read ::
  "'s s3_client \<Rightarrow> nat \<Rightarrow> s3ReadSeeker \<Rightarrow> 's \<Rightarrow> (bytes \<times> read_end option) \<times> s3ReadSeeker \<times> 's" where
  "s3_Read c len sk s =
     (if sk_pos sk \<ge> sk_size sk then (([], Some EOF), sk, s)
      else
        (case sk_body sk of
           Some rd \<Rightarrow> (case body_Read len sk rd of (r, sk1) \<Rightarrow> (r, sk1, s))
         | None \<Rightarrow>
             (case openAt c sk s of
                (Some e, sk1, s1) \<Rightarrow> (([], Some (ReadErr e)), sk1, s1)
              | (None, sk1, s1) \<Rightarrow>
                  (case body_Read len sk1 (the (sk_body sk1)) of (r, sk2) \<Rightarrow> (r, sk2, s1)))))"

datatype whence = SeekStart | SeekCurrent | SeekEnd | OtherOrigin

definition s3_Seek :: "int \<Rightarrow> whence \<Rightarrow> s3ReadSeeker \<Rightarrow> int result \<times> s3ReadSeeker" where
  "s3_Seek offset wh sk =
     (case (case wh of
              SeekStart \<Rightarrow> Some offset
            | SeekCurrent \<Rightarrow> Some (int64 (sk_pos sk + offset))
            | SeekEnd \<Rightarrow> Some (int64 (sk_size sk + offset))
            | OtherOrigin \<Rightarrow> None) of
        None \<Rightarrow> (Inl ''s3 storage: invalid seek origin'', sk)
      | Some target \<Rightarrow>
          if target < 0 then (Inl ''s3 storage: negative seek position'', sk)
          else
            (Inr target,
             (if target \<noteq> sk_pos sk then closeBody sk else sk)\<lparr>sk_pos := target\<rparr>))"

definition s3_Close :: "s3ReadSeeker \<Rightarrow> s3ReadSeeker" where
  "s3_Close sk = closeBody sk"

section \<open>Reading to the end\<close>

text \<open>\<open>io.Copy\<close> from the reader with a buffer of \<open>k + 1\<close> bytes.\<close>

lemma body_Read_continues:
  assumes "body_Read (Suc k) sk rd = ((b, None), sk1)"
  shows "\<exists>rd1. sk_body sk1 = Some rd1 \<and> rest_size rd1 < rest_size rd"
proof -
  obtain b1 err rd1 where r: "reader_read (Suc k) rd = ((b1, err), rd1)" by (metis prod.collapse)
  with assms have "err = None" "sk_body sk1 = Some rd1"
    by (auto simp: body_Read_def Let_def split: if_splits)
  with r reader_read_continues show ?thesis by blast
qed

lemma s3_Read_continues:
  assumes "s3_Read c (Suc k) sk s = ((b, None), sk1, s1)"
  shows "\<exists>rd1. sk_body sk1 = Some rd1 \<and> (\<forall>rd. sk_body sk = Some rd \<longrightarrow> rest_size rd1 < rest_size rd)"
  using assms body_Read_continues
  by (fastforce simp: s3_Read_def split: if_splits option.splits prod.splits)

function s3_drain ::
  "'s s3_client \<Rightarrow> nat \<Rightarrow> s3ReadSeeker \<Rightarrow> bytes \<Rightarrow> 's \<Rightarrow> read_end \<times> bytes \<times> s3ReadSeeker \<times> 's" where
  "s3_drain c k sk acc s =
     (case s3_Read c (Suc k) sk s of
        ((b, Some e), sk1, s1) \<Rightarrow> (e, acc @ b, sk1, s1)
      | ((b, None), sk1, s1) \<Rightarrow> s3_drain c k sk1 (acc @ b) s1)"
  by pat_completeness auto
termination
proof (relation "measures [\<lambda>(c, k, sk, acc, s). (if sk_body sk = None then 1 else 0),
    \<lambda>(c, k, sk, acc, s). (case sk_body sk of None \<Rightarrow> 0 | Some rd \<Rightarrow> rest_size rd)]", goal_cases)
  case (2 c k sk acc s p q b e sk1 s1)
  then have "s3_Read c (Suc k) sk s = ((b, None), sk1, s1)" by simp
  from s3_Read_continues [OF this] show ?case by (cases "sk_body sk") auto
qed simp

declare s3_drain.simps [simp del]

section \<open>What the client promises\<close>

text \<open>
  \<open>obj\<close> reads the objects of a state by bucket and key. A read may come back short, with or
  without an error; an upload that reports success has read its body to the end and stored what
  it read, one that fails may have left anything under its own key.
\<close>

definition s3_documented :: "'s s3_client \<Rightarrow> ('s \<Rightarrow> string \<times> string \<Rightarrow> bytes option) \<Rightarrow> bool" where
  "s3_documented c obj \<longleftrightarrow>
     (\<forall>b k s r s1. HeadObject c b k s = (r, s1) \<longrightarrow> obj s1 = obj s
        \<and> (case r of Inl e \<Rightarrow> isS3NotFound e \<longrightarrow> obj s (b, k) = None
           | Inr h \<Rightarrow> \<exists>x. obj s (b, k) = Some x \<and> ContentLength h = Some (int (length x))
               \<and> int (length x) \<le> max_int64))
   \<and> (\<forall>b k start s r s1. GetObject c b k start s = (r, s1) \<longrightarrow> obj s1 = obj s
        \<and> (case r of Inl e \<Rightarrow> True
           | Inr rd \<Rightarrow> \<exists>x. obj s (b, k) = Some x
               \<and> prefix (reader_bytes rd) (drop (nat (aws_ToInt64 start)) x)))
   \<and> (\<forall>b k s e s1. DeleteObject c b k s = (e, s1) \<longrightarrow>
        (\<forall>q. q \<noteq> (b, k) \<longrightarrow> obj s1 q = obj s q) \<and> (e = None \<longrightarrow> obj s1 (b, k) = None))
   \<and> (\<forall>b k rd s e rd1 s1. UploadObject c b k rd s = ((e, rd1), s1) \<longrightarrow>
        (\<forall>q. q \<noteq> (b, k) \<longrightarrow> obj s1 q = obj s q)
        \<and> (e = None \<longrightarrow> (\<exists>n out. copy_capped n rd [] = (CapEOF, out, rd1) \<and> obj s1 (b, k) = Some out)))"

lemma head_documented:
  assumes "s3_documented c obj" and "HeadObject c b k s = (r, s1)"
  shows "obj s1 = obj s \<and> (case r of Inl e \<Rightarrow> isS3NotFound e \<longrightarrow> obj s (b, k) = None
    | Inr h \<Rightarrow> \<exists>x. obj s (b, k) = Some x \<and> ContentLength h = Some (int (length x))
        \<and> int (length x) \<le> max_int64)"
  by (rule assms(1) [unfolded s3_documented_def, THEN conjunct1, rule_format, OF assms(2)])

lemma get_documented:
  assumes "s3_documented c obj" and "GetObject c b k start s = (r, s1)"
  shows "obj s1 = obj s \<and> (case r of Inl e \<Rightarrow> True
    | Inr rd \<Rightarrow> \<exists>x. obj s (b, k) = Some x \<and> prefix (reader_bytes rd) (drop (nat (aws_ToInt64 start)) x))"
  by (rule assms(1) [unfolded s3_documented_def, THEN conjunct2, THEN conjunct1, rule_format, OF assms(2)])

lemma delete_documented:
  assumes "s3_documented c obj" and "DeleteObject c b k s = (e, s1)"
  shows "(\<forall>q. q \<noteq> (b, k) \<longrightarrow> obj s1 q = obj s q) \<and> (e = None \<longrightarrow> obj s1 (b, k) = None)"
  by (rule assms(1) [unfolded s3_documented_def, THEN conjunct2, THEN conjunct2, THEN conjunct1,
      THEN spec, THEN spec, THEN spec, THEN spec, THEN spec, THEN mp, OF assms(2)])

lemma upload_documented:
  assumes "s3_documented c obj" and "UploadObject c b k rd s = ((e, rd1), s1)"
  shows "(\<forall>q. q \<noteq> (b, k) \<longrightarrow> obj s1 q = obj s q)
    \<and> (e = None \<longrightarrow> (\<exists>n out. copy_capped n rd [] = (CapEOF, out, rd1) \<and> obj s1 (b, k) = Some out))"
  by (rule assms(1) [unfolded s3_documented_def, THEN conjunct2, THEN conjunct2, THEN conjunct2,
      THEN spec, THEN spec, THEN spec, THEN spec, THEN spec, THEN spec, THEN spec, THEN mp, OF assms(2)])

section \<open>The reader delivers the object\<close>

definition sk_ok :: "bytes \<Rightarrow> s3ReadSeeker \<Rightarrow> bool" where
  "sk_ok x sk \<longleftrightarrow> sk_size sk = int (length x) \<and> int (length x) \<le> max_int64 \<and> 0 \<le> sk_pos sk
     \<and> (\<forall>rd. sk_body sk = Some rd \<longrightarrow> prefix (reader_bytes rd) (drop (nat (sk_pos sk)) x))"

lemma body_Read_ok:
  assumes "sk_ok x sk" and "sk_pos sk < sk_size sk" and "prefix (reader_bytes rd) (drop (nat (sk_pos sk)) x)"
    and "body_Read len sk rd = ((b, e), sk1)"
  shows "sk_ok x sk1 \<and> drop (nat (sk_pos sk)) x = b @ drop (nat (sk_pos sk1)) x
    \<and> sk_pos sk1 = sk_pos sk + int (length b) \<and> sk_pos sk1 \<le> sk_size sk1
    \<and> (e = Some EOF \<longrightarrow> sk_pos sk1 = sk_size sk1)
    \<and> sk_bucket sk1 = sk_bucket sk \<and> sk_key sk1 = sk_key sk"
proof -
  obtain b1 err rd1 where r: "reader_read len rd = ((b1, err), rd1)" by (metis prod.collapse)
  have b1: "b = b1" using assms(4) r by (auto simp: body_Read_def Let_def split: if_splits)
  have "reader_bytes rd = b @ reader_bytes rd1" using reader_read_bytes [OF r] b1 by simp
  with assms(3) obtain z where z: "drop (nat (sk_pos sk)) x = b @ reader_bytes rd1 @ z"
    by (auto simp: prefix_def)
  have size: "sk_size sk = int (length x)" "int (length x) \<le> max_int64" "0 \<le> sk_pos sk"
    using assms(1) by (simp_all add: sk_ok_def)
  have "length (drop (nat (sk_pos sk)) x) = length b + length (reader_bytes rd1 @ z)"
    using z by simp
  then have len: "sk_pos sk + int (length b) \<le> int (length x)"
    using size assms(2) by simp
  define p1 where "p1 = sk_pos sk + int (length b)"
  have p1: "int64 p1 = p1"
    using len size by (intro int64_id) (simp add: in_int64_def p1_def max_int64_def)
  have "nat p1 = length b + nat (sk_pos sk)" using size by (simp add: p1_def)
  then have drop1: "drop (nat p1) x = reader_bytes rd1 @ z"
    by (metis append_eq_conv_conj drop_drop z)
  have pos: "sk_pos sk1 = p1" "sk_size sk1 = sk_size sk" "sk_bucket sk1 = sk_bucket sk" "sk_key sk1 = sk_key sk"
    "sk_body sk1 = None \<or> sk_body sk1 = Some rd1"
    using assms(4) r p1 b1 unfolding p1_def
    by (auto simp: body_Read_def Let_def closeBody_def split: if_splits)
  have "p1 = int (length x)" if "e = Some EOF"
    using that assms(4) r p1 b1 len size unfolding p1_def
    by (auto simp: body_Read_def Let_def closeBody_def ErrUnexpectedEOF_def split: if_splits)
  with pos size len drop1 z show ?thesis
    by (auto simp: sk_ok_def p1_def)
qed

lemma s3_Read_ok:
  assumes "s3_documented c obj" and "sk_ok x sk" and "obj s (sk_bucket sk, sk_key sk) = Some x"
    and "s3_Read c len sk s = ((b, e), sk1, s1)" and "sk_pos sk \<le> sk_size sk"
  shows "sk_ok x sk1 \<and> obj s1 = obj s \<and> drop (nat (sk_pos sk)) x = b @ drop (nat (sk_pos sk1)) x
    \<and> sk_pos sk1 \<le> sk_size sk1 \<and> (e = Some EOF \<longrightarrow> sk_pos sk1 = sk_size sk1)
    \<and> sk_bucket sk1 = sk_bucket sk \<and> sk_key sk1 = sk_key sk"
proof (cases "sk_pos sk \<ge> sk_size sk")
  case True
  with assms show ?thesis by (auto simp: s3_Read_def)
next
  case False
  then have lt: "sk_pos sk < sk_size sk" by simp
  show ?thesis
  proof (cases "sk_body sk")
    case (Some rd)
    then have "prefix (reader_bytes rd) (drop (nat (sk_pos sk)) x)" using assms(2) by (simp add: sk_ok_def)
    moreover have "body_Read len sk rd = ((b, e), sk1)" "s1 = s"
      using assms(4) Some lt by (auto simp: s3_Read_def split: prod.splits)
    ultimately show ?thesis using body_Read_ok [OF assms(2) lt] by blast
  next
    case None
    define start where "start = (if sk_pos sk > 0 then Some (sk_pos sk) else None)"
    obtain r s2 where g: "GetObject c (sk_bucket sk) (sk_key sk) start s = (r, s2)" by (metis prod.collapse)
    have start: "aws_ToInt64 start = sk_pos sk"
      using assms(2) by (simp add: start_def aws_ToInt64_def sk_ok_def)
    note doc = get_documented [OF assms(1) g]
    show ?thesis
    proof (cases r)
      case (Inl err)
      with assms None lt g doc show ?thesis
        by (auto simp: s3_Read_def openAt_def start_def [symmetric])
    next
      case (Inr rd)
      let ?sk = "sk\<lparr>sk_body := Some rd\<rparr>"
      have p: "prefix (reader_bytes rd) (drop (nat (sk_pos sk)) x)"
        using doc Inr assms(3) start by auto
      with assms(2) have "sk_ok x ?sk" by (simp add: sk_ok_def)
      moreover have "body_Read len ?sk rd = ((b, e), sk1)" "s1 = s2"
        using assms(4) None lt g Inr
        by (auto simp: s3_Read_def openAt_def start_def [symmetric] split: prod.splits)
      ultimately show ?thesis using body_Read_ok [of x ?sk rd len b e sk1] lt p doc by auto
    qed
  qed
qed

lemma s3_drain_prefix:
  assumes "s3_documented c obj" and "sk_ok x sk" and "obj s (sk_bucket sk, sk_key sk) = Some x"
    and "sk_pos sk \<le> sk_size sk" and "s3_drain c k sk acc s = (e, out, sk1, s1)"
  shows "obj s1 = obj s \<and> (\<exists>got. out = acc @ got \<and> prefix got (drop (nat (sk_pos sk)) x)
    \<and> (e = EOF \<longrightarrow> got = drop (nat (sk_pos sk)) x))"
  using assms
proof (induction c k sk acc s rule: s3_drain.induct)
  case (1 c k sk acc s)
  obtain b en sk2 s2 where r: "s3_Read c (Suc k) sk s = ((b, en), sk2, s2)" by (metis prod.collapse)
  note ok = s3_Read_ok [OF "1.prems"(1-3) r "1.prems"(4)]
  show ?case
  proof (cases en)
    case (Some e1)
    with r "1.prems"(5) have "e = e1" "out = acc @ b" "s1 = s2"
      by (simp_all add: s3_drain.simps [of c k sk acc s])
    moreover have "drop (nat (sk_pos sk2)) x = []" if "e1 = EOF"
      using ok that Some by (simp add: sk_ok_def)
    ultimately show ?thesis using ok by auto
  next
    case None
    with r "1.prems"(5) have "s3_drain c k sk2 (acc @ b) s2 = (e, out, sk1, s1)"
      by (simp add: s3_drain.simps [of c k sk acc s])
    moreover have "obj s2 (sk_bucket sk2, sk_key sk2) = Some x" using ok "1.prems"(3) by simp
    ultimately obtain got where "obj s1 = obj s2" "out = acc @ b @ got"
      "prefix got (drop (nat (sk_pos sk2)) x)" "e = EOF \<longrightarrow> got = drop (nat (sk_pos sk2)) x"
      using "1.IH" [of "(b, en)" "(sk2, s2)" b en sk2 s2] r None ok "1.prems"(1) by auto
    with ok show ?thesis by auto
  qed
qed

lemma s3_Seek_ok: "sk_ok x sk \<Longrightarrow> s3_Seek offset wh sk = (r, sk1) \<Longrightarrow> sk_ok x sk1
    \<and> sk_bucket sk1 = sk_bucket sk \<and> sk_key sk1 = sk_key sk \<and> (\<forall>t. r = Inr t \<longrightarrow> sk_pos sk1 = t)"
  by (auto simp: s3_Seek_def sk_ok_def closeBody_def split: whence.splits if_splits)

lemma s3_Get_ok:
  assumes "s3_documented (client st) obj" and "s3_Get st key s = (Inr (sk, info), s1)"
  shows "\<exists>x. obj s (bucket st, objectKey st key) = Some x \<and> obj s1 = obj s
    \<and> BlobSize info = int (length x) \<and> sk_pos sk = 0 \<and> sk_size sk = int (length x)
    \<and> sk_bucket sk = bucket st \<and> sk_key sk = objectKey st key
    \<and> sk_ok x sk"
proof -
  obtain r s2 where h: "HeadObject (client st) (bucket st) (objectKey st key) s = (r, s2)"
    by (metis prod.collapse)
  note doc = head_documented [OF assms(1) h]
  obtain hd where r: "r = Inr hd" using assms(2) h by (cases r) (auto simp: s3_Get_def)
  with doc obtain x where "obj s (bucket st, objectKey st key) = Some x"
    "ContentLength hd = Some (int (length x))" "int (length x) \<le> max_int64" "obj s2 = obj s" by auto
  with assms(2) h r show ?thesis
    by (auto simp: s3_Get_def Let_def aws_ToInt64_def sk_ok_def)
qed

text \<open>
  Any seek and any read to the end that reports no error deliver the object from that offset on:
  a truncated transfer never looks complete.
\<close>

lemma s3_ranged_read:
  assumes "s3_documented (client st) obj" and "s3_Get st key s = (Inr (sk, info), s1)"
    and "obj s (bucket st, objectKey st key) = Some x"
    and "s3_Seek offset wh sk = (Inr t, sk1)" and "t \<le> int (length x)"
    and "s3_drain (client st) k sk1 [] s1 = (e, out, sk2, s2)"
  shows "prefix out (drop (nat t) x) \<and> (e = EOF \<longrightarrow> out = drop (nat t) x) \<and> obj s2 = obj s"
proof -
  have sk: "sk_ok x sk" "obj s1 = obj s" "sk_bucket sk = bucket st" "sk_key sk = objectKey st key"
    using s3_Get_ok [OF assms(1,2)] assms(3) by auto
  note seek = s3_Seek_ok [OF sk(1) assms(4)]
  have "sk_pos sk1 \<le> sk_size sk1" using seek assms(5) by (simp add: sk_ok_def)
  moreover have "obj s1 (sk_bucket sk1, sk_key sk1) = Some x" using sk seek assms(3) by simp
  ultimately show ?thesis using s3_drain_prefix [OF assms(1) _ _ _ assms(6)] seek sk by auto
qed

section \<open>A lawful blob store\<close>

lemma copy_capped_n_read:
  assumes "copy_capped k c acc = (e, out, c')" and "in_int64 (n_read c)"
  shows "\<exists>got. out = acc @ got \<and> n_read c' = int64 (n_read c + int (length got))"
  using assms
proof (induction k c acc arbitrary: rule: copy_capped.induct)
  case (1 k c acc)
  obtain b en c1 where rd: "capReader_Read (Suc k) c = ((b, en), c1)" by (metis prod.collapse)
  have n: "n_read c1 = int64 (n_read c + int (length b))"
    using rd "1.prems"(2) int64_id
    by (auto simp: capReader_Read_def Let_def split: if_splits prod.splits)
  show ?case
  proof (cases en)
    case (Some e1)
    with rd "1.prems" n show ?thesis by (auto simp: copy_capped.simps [of k c acc])
  next
    case None
    with rd "1.prems"(1) have "copy_capped k c1 (acc @ b) = (e, out, c')"
      by (simp add: copy_capped.simps [of k c acc])
    moreover have "in_int64 (n_read c1)" using n int64_range by simp
    ultimately obtain got where "out = (acc @ b) @ got" "n_read c' = int64 (n_read c1 + int (length got))"
      using "1.IH" rd None by (metis prod.inject)
    then show ?thesis using n int64_add_left by (auto simp: add.assoc)
  qed
qed

text \<open>Get and read to the end, as the store that the handlers see.\<close>

definition s3_fetch ::
  "nat \<Rightarrow> 's s3Storage \<Rightarrow> string \<Rightarrow> 's \<Rightarrow> (blob_error + bytes \<times> BlobInfo) \<times> 's" where
  "s3_fetch k st key s =
     (case s3_Get st key s of
        (Inl e, s1) \<Rightarrow> (Inl e, s1)
      | (Inr (sk, info), s1) \<Rightarrow>
          (case s3_drain (client st) k sk [] s1 of
             (EOF, out, sk1, s2) \<Rightarrow> (Inr (out, info), s2)
           | (ReadErr e, out, sk1, s2) \<Rightarrow> (Inl (BlobOther e), s2)))"

definition s3_look :: "('s \<Rightarrow> string \<times> string \<Rightarrow> bytes option) \<Rightarrow> 's s3Storage \<Rightarrow> 's \<Rightarrow> string \<Rightarrow> bytes option" where
  "s3_look obj st s key = obj s (bucket st, objectKey st key)"

lemma objectKey_inj: "objectKey st k = objectKey st k' \<longleftrightarrow> k = k'"
  by (simp add: objectKey_def)

lemma s3_Delete_look:
  assumes "s3_documented (client st) obj" and "s3_Delete st k s = (e, s1)"
  shows "(k' \<noteq> k \<longrightarrow> s3_look obj st s1 k' = s3_look obj st s k')
    \<and> (e = None \<longrightarrow> s3_look obj st s1 k = None)"
proof -
  obtain e2 s2 where d: "DeleteObject (client st) (bucket st) (objectKey st k) s = (e2, s2)"
    by (metis prod.collapse)
  show ?thesis using delete_documented [OF assms(1) d] assms(2) d
    by (cases e2) (auto simp: s3_Delete_def s3_look_def objectKey_inj)
qed

lemma s3_Put_look:
  assumes "s3_documented (client st) obj" and "s3_Put st k r mx s = (res, s1)"
  shows "(k' \<noteq> k \<longrightarrow> s3_look obj st s1 k' = s3_look obj st s k')
    \<and> (\<forall>n. res = Inr n \<longrightarrow> s3_look obj st s1 k = Some (reader_bytes r)
          \<and> n = int (length (reader_bytes r)) \<and> n \<le> mx \<and> ending r = EOF)"
proof -
  let ?new = "newCapReader r mx"
  obtain e rd s2 where u: "UploadObject (client st) (bucket st) (objectKey st k) ?new s = ((e, rd), s2)"
    by (metis prod.collapse)
  note doc = upload_documented [OF assms(1) u]
  have keep: "k' \<noteq> k \<Longrightarrow> s3_look obj st s2 k' = s3_look obj st s k'"
    using doc by (simp add: s3_look_def objectKey_inj)
  have clean: "k' \<noteq> k \<Longrightarrow> s3_look obj st (snd (s3_Delete st k s2)) k' = s3_look obj st s k'"
    using s3_Delete_look [OF assms(1), of k s2 "fst (s3_Delete st k s2)" "snd (s3_Delete st k s2)"] keep
    by simp
  show ?thesis
  proof (cases "e = None \<and> n_read rd \<le> mx")
    case True
    then obtain n out where cp: "copy_capped n ?new [] = (CapEOF, out, rd)"
      and at: "obj s2 (bucket st, objectKey st k) = Some out" using doc by auto
    have out: "out = reader_bytes r" "ending r = EOF" "int (length out) \<le> max_int64"
      using copy_new_capped [OF cp] by blast+
    have "in_int64 (n_read ?new)" by (simp add: newCapReader_def in_int64_def max_int64_def)
    then have "n_read rd = int64 (int (length out))"
      using copy_capped_n_read [OF cp] by (simp add: newCapReader_def)
    with out have "n_read rd = int (length (reader_bytes r))"
      by (simp add: int64_id in_int64_def)
    with True out at keep u assms(2) show ?thesis by (auto simp: s3_Put_def s3_look_def)
  next
    case False
    with u assms(2) keep clean show ?thesis
      by (auto simp: s3_Put_def split: if_splits option.splits)
  qed
qed

lemma s3_fetch_look:
  assumes "s3_documented (client st) obj" and "s3_fetch n st k s = (res, s1)"
  shows "obj s1 = obj s \<and> s3_look obj st s1 = s3_look obj st s
    \<and> (\<forall>b info. res = Inr (b, info) \<longrightarrow> s3_look obj st s k = Some b \<and> BlobSize info = int (length b))
    \<and> (res = Inl BlobNotFound \<longrightarrow> s3_look obj st s k = None)"
proof -
  obtain g s2 where g: "s3_Get st k s = (g, s2)" by (metis prod.collapse)
  show ?thesis
  proof (cases g)
    case (Inl e)
    obtain h s3 where h: "HeadObject (client st) (bucket st) (objectKey st k) s = (h, s3)"
      by (metis prod.collapse)
    with g Inl assms(2) head_documented [OF assms(1) h] show ?thesis
      by (auto simp: s3_fetch_def s3_Get_def s3_look_def fun_eq_iff Let_def split: sum.splits if_splits)
  next
    case (Inr p)
    obtain sk info where p: "p = (sk, info)" by (cases p)
    obtain x where x: "obj s (bucket st, objectKey st k) = Some x" "obj s2 = obj s"
      "BlobSize info = int (length x)" "sk_pos sk = 0" "sk_size sk = int (length x)"
      "sk_bucket sk = bucket st" "sk_key sk = objectKey st k" "sk_ok x sk"
      using s3_Get_ok [OF assms(1)] g Inr p by blast
    obtain e out sk1 s3 where d: "s3_drain (client st) n sk [] s2 = (e, out, sk1, s3)"
      by (metis prod.collapse)
    have "obj s3 = obj s" "e = EOF \<Longrightarrow> out = x"
      using s3_drain_prefix [OF assms(1) x(8) _ _ d] x by auto
    with g Inr p d x assms(2) show ?thesis
      by (cases e) (auto simp: s3_fetch_def s3_look_def fun_eq_iff)
  qed
qed

lemma s3_blob_store:
  assumes "s3_documented (client st) obj"
  shows "blob_store (s3_Put st) (s3_fetch n st) (s3_Delete st) (s3_look obj st) (\<lambda>_. True)"
proof (unfold_locales, goal_cases)
  case (1 k r mx s m s' k')
  then show ?case using s3_Put_look [OF assms 1(2), of k'] by auto
next
  case (2 k r mx s m s')
  then show ?case using s3_Put_look [OF assms 2(2)] by blast
next
  case (3 k r mx s res s' k')
  then show ?case using s3_Put_look [OF assms 3(2), of k'] by blast
next
  case (4 k s b info s')
  then show ?case using s3_fetch_look [OF assms 4(2)] by blast
next
  case (5 k s s')
  then show ?case using s3_fetch_look [OF assms 5(2)] by blast
next
  case (6 k s g s')
  then show ?case using s3_fetch_look [OF assms 6(2)] by blast
next
  case (7 k s s' k')
  then show ?case using s3_Delete_look [OF assms 7(2), of k'] by auto
next
  case (8 k s d s' k')
  then show ?case using s3_Delete_look [OF assms 8(2), of k'] by blast
qed

end
