(* ===== verification/Base64.thy ===== *)
theory Base64
  imports Prelude
begin

text \<open>
  \<open>base64.RawURLEncoding\<close> of the Go library: the URL-safe alphabet without padding. Decoding skips
  line breaks and ignores the unused bits of the last digit, as the library does.
\<close>

definition b64_alphabet :: string where
  "b64_alphabet = ''ABCDEFGHIJKLMNOPQRSTUVWXYZabcdefghijklmnopqrstuvwxyz0123456789-_''"

definition b64_char :: "nat \<Rightarrow> char" where
  "b64_char n = b64_alphabet ! n"

definition b64_digit :: "char \<Rightarrow> nat option" where
  "b64_digit c =
     (if c \<in> set b64_alphabet then Some (length (takeWhile (\<lambda>x. x \<noteq> c) b64_alphabet)) else None)"

definition byte :: "char \<Rightarrow> nat" where
  "byte c = of_char c"

fun b64_digits :: "bytes \<Rightarrow> nat list" where
  "b64_digits [] = []"
| "b64_digits [a] = [byte a div 4, byte a mod 4 * 16]"
| "b64_digits [a, b] = [byte a div 4, byte a mod 4 * 16 + byte b div 16, byte b mod 16 * 4]"
| "b64_digits (a # b # c # r) =
     [byte a div 4, byte a mod 4 * 16 + byte b div 16, byte b mod 16 * 4 + byte c div 64, byte c mod 64]
     @ b64_digits r"

fun b64_bytes :: "nat list \<Rightarrow> bytes option" where
  "b64_bytes [] = Some []"
| "b64_bytes [w] = None"
| "b64_bytes [w, x] = Some [char_of (w * 4 + x div 16)]"
| "b64_bytes [w, x, y] = Some [char_of (w * 4 + x div 16), char_of (x mod 16 * 16 + y div 4)]"
| "b64_bytes (w # x # y # z # r) =
     map_option (\<lambda>bs. char_of (w * 4 + x div 16) # char_of (x mod 16 * 16 + y div 4)
        # char_of (y mod 4 * 64 + z) # bs) (b64_bytes r)"

definition EncodeToString :: "bytes \<Rightarrow> string" where
  "EncodeToString b = map b64_char (b64_digits b)"

definition DecodeString :: "string \<Rightarrow> bytes option" where
  "DecodeString s =
     (case those (map b64_digit (filter (\<lambda>c. c \<noteq> CHR 0x0A \<and> c \<noteq> CHR 0x0D) s)) of
        None \<Rightarrow> None | Some ds \<Rightarrow> b64_bytes ds)"

section \<open>Round trip\<close>

lemma byte_less: "byte a < 256"
  by (cases a) (simp add: byte_def of_char_def)

lemma char_of_byte [simp]: "char_of (byte a) = a"
  by (simp add: byte_def)

lemma b64_digits_less: "d \<in> set (b64_digits b) \<Longrightarrow> d < 64"
proof (induction b rule: b64_digits.induct)
  case (2 a)
  then show ?case using byte_less [of a] by auto
next
  case (3 a b)
  then show ?case using byte_less [of a] byte_less [of b] by auto
next
  case (4 a b c r)
  then show ?case using byte_less [of a] byte_less [of b] byte_less [of c] by auto
qed simp

lemma b64_bytes_digits: "b64_bytes (b64_digits b) = Some b"
proof (induction b rule: b64_digits.induct)
  case (2 a)
  have "byte a div 4 * 4 + byte a mod 4 = byte a" by simp
  then show ?case by simp
next
  case (3 a b)
  have "byte b div 16 < 16" using byte_less [of b] by simp
  then have "byte a div 4 * 4 + (byte a mod 4 * 16 + byte b div 16) div 16 = byte a"
    "(byte a mod 4 * 16 + byte b div 16) mod 16 * 16 + byte b mod 16 = byte b" by simp_all
  then show ?case by simp
next
  case (4 a b c r)
  have "byte b div 16 < 16" "byte c div 64 < 4" using byte_less [of b] byte_less [of c] by simp_all
  then have "byte a div 4 * 4 + (byte a mod 4 * 16 + byte b div 16) div 16 = byte a"
    "(byte a mod 4 * 16 + byte b div 16) mod 16 * 16 + (byte b mod 16 * 4 + byte c div 64) div 4 = byte b"
    "(byte b mod 16 * 4 + byte c div 64) mod 4 * 64 + byte c mod 64 = byte c" by simp_all
  with 4 show ?case by simp
qed simp

lemma b64_char_digit: "n < 64 \<Longrightarrow> b64_digit (b64_char n) = Some n \<and> b64_char n \<in> set b64_alphabet"
proof -
  have "list_all (\<lambda>n. b64_digit (b64_char n) = Some n \<and> b64_char n \<in> set b64_alphabet) [0..<64]"
    by code_simp
  then show "n < 64 \<Longrightarrow> ?thesis" by (simp add: list_all_iff)
qed

lemma encode_alphabet: "set (EncodeToString b) \<subseteq> set b64_alphabet"
  using b64_digits_less b64_char_digit by (auto simp: EncodeToString_def)

lemma alphabet_plain: "CHR ''.'' \<notin> set b64_alphabet" "CHR 0x0A \<notin> set b64_alphabet"
  "CHR 0x0D \<notin> set b64_alphabet"
  by code_simp+

lemma those_digits: "(\<And>d. d \<in> set ds \<Longrightarrow> d < 64) \<Longrightarrow> those (map b64_digit (map b64_char ds)) = Some ds"
  by (induction ds) (simp_all add: b64_char_digit)

lemma encode_nonempty: "b \<noteq> [] \<Longrightarrow> EncodeToString b \<noteq> []"
  by (cases b rule: b64_digits.cases) (simp_all add: EncodeToString_def)

lemma decode_encode: "DecodeString (EncodeToString b) = Some b"
proof -
  have "c \<noteq> CHR 0x0A \<and> c \<noteq> CHR 0x0D" if "c \<in> set (EncodeToString b)" for c
    using that encode_alphabet [of b] alphabet_plain by auto
  then have "filter (\<lambda>c. c \<noteq> CHR 0x0A \<and> c \<noteq> CHR 0x0D) (EncodeToString b) = EncodeToString b"
    by (simp add: filter_id_conv)
  moreover have "those (map b64_digit (EncodeToString b)) = Some (b64_digits b)"
    unfolding EncodeToString_def by (rule those_digits) (rule b64_digits_less)
  ultimately show ?thesis by (simp add: DecodeString_def b64_bytes_digits)
qed

end
