(* ===== verification/Oidc.thy ===== *)
theory Oidc
  imports Auth Base64
begin

text \<open>
  The OIDC client configuration and the provider lookup of \<open>server/oidc.go\<close>. Discovery is a
  parameter: \<open>outcome\<close> is what the provider library would answer now.
\<close>

section \<open>Configuration\<close>

record oidc_cfg =
  oidcIssuer :: string
  oidcClientID :: string
  oidcClientSecret :: string
  oidcScopes :: "string list"
  oidcRedirectURL :: string
  oidcGroupsClaim :: string

definition defaultOIDCScopes :: string where "defaultOIDCScopes = ''openid profile''"
definition oidcProviderRetryInterval :: int where "oidcProviderRetryInterval = 30 * 10 ^ 9"

definition oidc_enabled :: "oidc_cfg \<Rightarrow> bool" where
  "oidc_enabled oc \<longleftrightarrow> oidcIssuer oc \<noteq> [] \<and> oidcClientID oc \<noteq> []"

fun hasString :: "string list \<Rightarrow> string \<Rightarrow> bool" where
  "hasString [] want = False"
| "hasString (v # vs) want = (if v = want then True else hasString vs want)"

definition trim_right_slashes :: "string \<Rightarrow> string" where
  "trim_right_slashes s = rev (dropWhile (\<lambda>c. c = CHR ''/'') (rev s))"

definition initOIDCConfig :: "bool \<Rightarrow> session_cfg \<Rightarrow> (string \<Rightarrow> string) \<Rightarrow> oidc_cfg result" where
  "initOIDCConfig groupsConfigured0 sess getenv =
     (let claim = (if getenv ''ART_OIDC_GROUPS_CLAIM'' = [] then groupsClaimDefault
                   else getenv ''ART_OIDC_GROUPS_CLAIM'');
          scopes = (if getenv ''ART_OIDC_SCOPES'' = [] then defaultOIDCScopes
                    else getenv ''ART_OIDC_SCOPES'');
          scopeList = go_Fields scopes;
          scopeList = (if groupsConfigured0 \<and> \<not> hasString scopeList ''groups''
                       then scopeList @ [''groups''] else scopeList);
          oc = \<lparr>oidcIssuer = trim_right_slashes (getenv ''ART_OIDC_ISSUER''),
                oidcClientID = getenv ''ART_OIDC_CLIENT_ID'',
                oidcClientSecret = getenv ''ART_OIDC_CLIENT_SECRET'',
                oidcScopes = scopeList, oidcRedirectURL = getenv ''ART_OIDC_REDIRECT_URL'',
                oidcGroupsClaim = claim\<rparr>
      in if \<not> oidc_enabled oc then Inr oc
         else if \<not> sessionAuthEnabled sess then
           Inl ''ART_OIDC_ISSUER/ART_OIDC_CLIENT_ID are set but ART_SESSION_SECRET is not: OIDC login needs a signing key to issue session tokens''
         else Inr oc)"

section \<open>The provider\<close>

record 'p provider_memo =
  oidcProvider :: "'p option"
  oidcProviderErr :: string
  oidcLastDiscovered :: "int option"

definition memo_init :: "'p provider_memo" where
  "memo_init = \<lparr>oidcProvider = None, oidcProviderErr = [], oidcLastDiscovered = None\<rparr>"

text \<open>The second result tells whether the provider has been asked.\<close>

definition getOIDCProvider ::
  "oidc_cfg \<Rightarrow> int \<Rightarrow> 'p result \<Rightarrow> 'p provider_memo \<Rightarrow> 'p result \<times> bool \<times> 'p provider_memo" where
  "getOIDCProvider oc now outcome m =
     (if \<not> oidc_enabled oc then (Inl ''OIDC is not configured'', False, m)
      else
        (case oidcProvider m of
           Some p \<Rightarrow> (Inr p, False, m)
         | None \<Rightarrow>
             if (case oidcLastDiscovered m of None \<Rightarrow> False
                 | Some t \<Rightarrow> now - t < oidcProviderRetryInterval)
             then (Inl (oidcProviderErr m), False, m)
             else
               let m1 = m\<lparr>oidcLastDiscovered := Some now\<rparr> in
               (case outcome of
                  Inl e \<Rightarrow>
                    let err = ''OIDC provider is unavailable: '' @ e in
                    (Inl err, True, m1\<lparr>oidcProviderErr := err\<rparr>)
                | Inr p \<Rightarrow> (Inr p, True, m1\<lparr>oidcProvider := Some p, oidcProviderErr := []\<rparr>))))"

text \<open>A sequence of lookups: the instant of each and what the provider would answer then.\<close>

fun lookups :: "oidc_cfg \<Rightarrow> (int \<times> 'p result) list \<Rightarrow> 'p provider_memo \<Rightarrow> ('p result \<times> bool) list" where
  "lookups oc [] m = []"
| "lookups oc ((now, outcome) # rest) m =
     (case getOIDCProvider oc now outcome m of (r, asked, m1) \<Rightarrow> (r, asked) # lookups oc rest m1)"

section \<open>Where the browser came from\<close>

record auth_request =
  X_Forwarded_Proto :: string
  X_Forwarded_Host :: string
  Host :: string
  TLS :: bool
  state_cookie :: "string option"
  auth_query :: "string \<Rightarrow> string"

definition first_value :: "string \<Rightarrow> string" where
  "first_value s = trim_space (hd (split_on CHR '','' s))"

text \<open>\<open>strings.EqualFold\<close> with \<open>https\<close>; the long s folds to the letter.\<close>

definition equal_fold_https :: "string \<Rightarrow> bool" where
  "equal_fold_https s \<longleftrightarrow> map lower_char s = ''https''
     \<or> map lower_char s = ''http'' @ [CHR 0xC5, CHR 0xBF]"

definition requestIsHTTPS :: "auth_request \<Rightarrow> bool" where
  "requestIsHTTPS r =
     (if X_Forwarded_Proto r \<noteq> [] then equal_fold_https (first_value (X_Forwarded_Proto r)) else TLS r)"

definition oidcCallbackURL :: "oidc_cfg \<Rightarrow> auth_request \<Rightarrow> string" where
  "oidcCallbackURL oc r =
     (if oidcRedirectURL oc \<noteq> [] then oidcRedirectURL oc
      else
        let scheme = (if requestIsHTTPS r then ''https'' else ''http'');
            host = (if X_Forwarded_Host r \<noteq> [] then first_value (X_Forwarded_Host r) else Host r)
        in scheme @ ''://'' @ host @ ''/api/auth/callback'')"

definition randomURLToken :: "(nat \<Rightarrow> bytes result) \<Rightarrow> nat \<Rightarrow> string result" where
  "randomURLToken read n =
     (case read n of Inl e \<Rightarrow> Inl e | Inr buf \<Rightarrow> Inr (EncodeToString buf))"

section \<open>Discovery is rare\<close>

definition asked_at :: "oidc_cfg \<Rightarrow> (int \<times> 'p result) list \<Rightarrow> 'p provider_memo \<Rightarrow> int list" where
  "asked_at oc evs m = map fst (filter (\<lambda>(t, r, asked). asked) (zip (map fst evs) (lookups oc evs m)))"

lemma asked_at_simps:
  "asked_at oc [] m = []"
  "asked_at oc ((now, outcome) # rest) m =
     (case getOIDCProvider oc now outcome m of
        (r, asked, m1) \<Rightarrow> (if asked then [now] else []) @ asked_at oc rest m1)"
  by (simp_all add: asked_at_def split: prod.splits)

lemma asked_spaced:
  "sorted_wrt (\<lambda>s t. s + oidcProviderRetryInterval \<le> t) (asked_at oc evs m)
   \<and> (\<forall>t0 t. oidcLastDiscovered m = Some t0 \<longrightarrow> t \<in> set (asked_at oc evs m)
        \<longrightarrow> t0 + oidcProviderRetryInterval \<le> t)"
proof (induction evs arbitrary: m)
  case (Cons ev evs)
  obtain now outcome where ev: "ev = (now, outcome)" by (cases ev)
  obtain r asked m1 where g: "getOIDCProvider oc now outcome m = (r, asked, m1)" by (metis prod.collapse)
  show ?case
  proof (cases asked)
    case True
    then have last: "oidcLastDiscovered m1 = Some now"
      and due: "\<forall>t0. oidcLastDiscovered m = Some t0 \<longrightarrow> t0 + oidcProviderRetryInterval \<le> now"
      using g by (auto simp: getOIDCProvider_def Let_def split: if_splits option.splits sum.splits)
    have "now + oidcProviderRetryInterval \<le> t" if "t \<in> set (asked_at oc evs m1)" for t
      using Cons.IH [of m1] last that by blast
    moreover have "t0 + oidcProviderRetryInterval \<le> t"
      if "oidcLastDiscovered m = Some t0" "t \<in> set (asked_at oc evs m1)" for t0 t
      using due that calculation [OF that(2)] by (fastforce simp: oidcProviderRetryInterval_def)
    ultimately show ?thesis using True g ev due Cons.IH [of m1] by (auto simp: asked_at_simps)
  next
    case False
    then have "m1 = m"
      using g by (auto simp: getOIDCProvider_def Let_def split: if_splits option.splits sum.splits)
    with False g ev Cons.IH [of m] show ?thesis by (simp add: asked_at_simps)
  qed
qed (simp add: asked_at_simps)

end
