(* ===== verification/Login.thy ===== *)
theory Login
  imports Oidc
begin

text \<open>
  The OIDC login of \<open>server/auth_handlers.go\<close>: the signed state cookie, the two handlers and the
  claims of an id token. HMAC, JSON and the OIDC library are the record \<open>oidc_lib\<close>;
  \<open>state_documented\<close> says that a JSON payload decodes to what was encoded.
\<close>

section \<open>Library\<close>

record oidcState =
  State :: string
  Nonce :: string
  Verifier :: string
  Expires :: int

record id_token =
  tok_Subject :: string
  tok_Nonce :: string
  tok_Claims :: "(string \<Rightarrow> bytes option) result"

record ('p, 't) oidc_lib =
  hmac_sha256 :: "bytes \<Rightarrow> bytes \<Rightarrow> bytes"
  Marshal :: "oidcState \<Rightarrow> bytes result"
  Unmarshal :: "bytes \<Rightarrow> oidcState result"
  json_string :: "bytes \<Rightarrow> string option"
  json_strings :: "bytes \<Rightarrow> string list option"
  AuthCodeURL :: "'p \<Rightarrow> oidc_cfg \<Rightarrow> string \<Rightarrow> string \<Rightarrow> string \<Rightarrow> string \<Rightarrow> string"
  Exchange :: "'p \<Rightarrow> oidc_cfg \<Rightarrow> string \<Rightarrow> string \<Rightarrow> string \<Rightarrow> 't result"
  id_token_of :: "'t \<Rightarrow> string option"
  VerifyIDToken :: "'p \<Rightarrow> string \<Rightarrow> string \<Rightarrow> id_token result"

definition state_documented :: "('p, 't) oidc_lib \<Rightarrow> bool" where
  "state_documented lib \<longleftrightarrow> (\<forall>st b. Marshal lib st = Inr b \<longrightarrow> Unmarshal lib b = Inr st)"

section \<open>The state cookie\<close>

definition oidcStateCookieName :: string where "oidcStateCookieName = ''art_oidc_state''"
definition oidcStateCookieTTL :: int where "oidcStateCookieTTL = 10 * 60 * 10 ^ 9"

definition signOIDCState :: "('p, 't) oidc_lib \<Rightarrow> session_cfg \<Rightarrow> bytes \<Rightarrow> string" where
  "signOIDCState lib sess payload =
     EncodeToString payload @ ''.'' @ EncodeToString (hmac_sha256 lib (sessionSecret sess) payload)"

definition verifyOIDCState :: "('p, 't) oidc_lib \<Rightarrow> session_cfg \<Rightarrow> string \<Rightarrow> bytes result" where
  "verifyOIDCState lib sess raw =
     (case cut CHR ''.'' raw of
        None \<Rightarrow> Inl ''invalid OIDC state cookie''
      | Some (encodedPayload, encodedMAC) \<Rightarrow>
     (case DecodeString encodedPayload of
        None \<Rightarrow> Inl ''invalid OIDC state cookie''
      | Some payload \<Rightarrow>
     (case DecodeString encodedMAC of
        None \<Rightarrow> Inl ''invalid OIDC state cookie''
      | Some signature \<Rightarrow>
          if signature \<noteq> hmac_sha256 lib (sessionSecret sess) payload
          then Inl ''invalid OIDC state cookie'' else Inr payload)))"

definition parseOIDCState :: "('p, 't) oidc_lib \<Rightarrow> session_cfg \<Rightarrow> string \<Rightarrow> oidcState result" where
  "parseOIDCState lib sess raw =
     (case verifyOIDCState lib sess raw of
        Inl e \<Rightarrow> Inl e
      | Inr payload \<Rightarrow>
     (case Unmarshal lib payload of
        Inl e \<Rightarrow> Inl ''invalid OIDC state cookie''
      | Inr state \<Rightarrow>
          if State state = [] \<or> Nonce state = [] \<or> Verifier state = []
          then Inl ''invalid OIDC state cookie'' else Inr state))"

datatype same_site = SameSiteLaxMode

record cookie =
  cookie_Name :: string
  Value :: string
  cookie_Path :: string
  MaxAge :: int
  HttpOnly :: bool
  Secure :: bool
  SameSite :: same_site

definition setOIDCStateCookie :: "auth_request \<Rightarrow> string \<Rightarrow> cookie" where
  "setOIDCStateCookie r v =
     \<lparr>cookie_Name = oidcStateCookieName, Value = v, cookie_Path = ''/'',
      MaxAge = oidcStateCookieTTL div 10 ^ 9, HttpOnly = True, Secure = requestIsHTTPS r,
      SameSite = SameSiteLaxMode\<rparr>"

definition clearOIDCStateCookie :: "auth_request \<Rightarrow> cookie" where
  "clearOIDCStateCookie r =
     \<lparr>cookie_Name = oidcStateCookieName, Value = [], cookie_Path = ''/'', MaxAge = -1,
      HttpOnly = True, Secure = requestIsHTTPS r, SameSite = SameSiteLaxMode\<rparr>"

section \<open>Answers\<close>

text \<open>A redirect with 302, or an error page.\<close>

datatype auth_answer = Redirect string | ErrorPage string nat

record auth_response =
  answer :: auth_answer
  cookies :: "cookie list"

definition hex_digit :: "nat \<Rightarrow> char" where
  "hex_digit n = ''0123456789ABCDEF'' ! n"

definition queryEscape :: "string \<Rightarrow> string" where
  "queryEscape s =
     concat (map (\<lambda>c.
       if c \<in> set ''ABCDEFGHIJKLMNOPQRSTUVWXYZabcdefghijklmnopqrstuvwxyz0123456789-_.~'' then [c]
       else if c = CHR '' '' then ''+''
       else [CHR ''%'', hex_digit (of_char c div 16), hex_digit (of_char c mod 16)]) s)"

definition oidcFailRedirect :: "string \<Rightarrow> auth_answer" where
  "oidcFailRedirect reason = Redirect (''/#auth_error='' @ queryEscape reason)"

section \<open>Login\<close>

text \<open>\<open>read1\<close> and \<open>read2\<close> are the two reads of \<open>crypto/rand\<close>, \<open>verifier\<close> the PKCE verifier.\<close>

definition oidcLoginHandler ::
  "('p, 't) oidc_lib \<Rightarrow> oidc_cfg \<Rightarrow> session_cfg \<Rightarrow> int \<Rightarrow> 'p result \<Rightarrow> (nat \<Rightarrow> bytes result)
     \<Rightarrow> (nat \<Rightarrow> bytes result) \<Rightarrow> string \<Rightarrow> auth_request \<Rightarrow> 'p provider_memo
     \<Rightarrow> auth_response \<times> 'p provider_memo" where
  "oidcLoginHandler lib oc sess now outcome read1 read2 verifier r m =
     (if \<not> oidc_enabled oc then
        (\<lparr>answer = ErrorPage ''OIDC is not configured on this server'' 503, cookies = []\<rparr>, m)
      else
     (case getOIDCProvider oc now outcome m of
        (Inl e, asked, m1) \<Rightarrow>
          (\<lparr>answer = ErrorPage ''OIDC provider is unavailable'' 503, cookies = []\<rparr>, m1)
      | (Inr provider, asked, m1) \<Rightarrow>
     (let failed = \<lparr>answer = ErrorPage ''Failed to start login'' 500, cookies = []\<rparr> in
      case randomURLToken read1 32 of
        Inl e \<Rightarrow> (failed, m1)
      | Inr state \<Rightarrow>
     (case randomURLToken read2 32 of
        Inl e \<Rightarrow> (failed, m1)
      | Inr nonce \<Rightarrow>
     (case Marshal lib \<lparr>State = state, Nonce = nonce, Verifier = verifier,
             Expires = (now + oidcStateCookieTTL) div 10 ^ 9\<rparr> of
        Inl e \<Rightarrow> (failed, m1)
      | Inr payload \<Rightarrow>
          (\<lparr>answer = Redirect (AuthCodeURL lib provider oc (oidcCallbackURL oc r) state nonce verifier),
            cookies = [setOIDCStateCookie r (signOIDCState lib sess payload)]\<rparr>, m1))))))"

section \<open>Claims\<close>

definition claimString :: "('p, 't) oidc_lib \<Rightarrow> (string \<Rightarrow> bytes option) \<Rightarrow> string \<Rightarrow> string" where
  "claimString lib claims name =
     (case claims name of
        None \<Rightarrow> []
      | Some raw \<Rightarrow> (case json_string lib raw of None \<Rightarrow> [] | Some v \<Rightarrow> v))"

text \<open>\<open>strings.FieldsFunc\<close> at blanks and commas.\<close>

definition group_fields :: "string \<Rightarrow> string list" where
  "group_fields s =
     filter (\<lambda>w. w \<noteq> []) (concat (map (split_on CHR '' '') (split_on CHR '','' s)))"

definition claimGroups :: "('p, 't) oidc_lib \<Rightarrow> (string \<Rightarrow> bytes option) \<Rightarrow> string \<Rightarrow> string list" where
  "claimGroups lib claims name =
     (case claims name of
        None \<Rightarrow> []
      | Some raw \<Rightarrow>
          if length raw = 0 then []
          else (case json_strings lib raw of
                  Some list \<Rightarrow> list
                | None \<Rightarrow>
                    (case json_string lib raw of Some joined \<Rightarrow> group_fields joined | None \<Rightarrow> [])))"

definition oidcClaimsFromIDToken ::
  "('p, 't) oidc_lib \<Rightarrow> oidc_cfg \<Rightarrow> id_token \<Rightarrow> sessionIdentity \<times> string list" where
  "oidcClaimsFromIDToken lib oc t =
     (case tok_Claims t of
        Inl e \<Rightarrow> (\<lparr>Subject = tok_Subject t, Email = [], id_Name = [], PreferredUsername = []\<rparr>, [])
      | Inr claims \<Rightarrow>
          (\<lparr>Subject = tok_Subject t, Email = claimString lib claims ''email'',
            id_Name = claimString lib claims ''name'',
            PreferredUsername = claimString lib claims ''preferred_username''\<rparr>,
           claimGroups lib claims (oidcGroupsClaim oc)))"

section \<open>Callback\<close>

text \<open>The exchange of the code and the checks of the id token; the reason of a refusal.\<close>

definition callback_exchange ::
  "('p, 't) oidc_lib \<Rightarrow> oidc_cfg \<Rightarrow> auth_request \<Rightarrow> 'p \<Rightarrow> oidcState \<Rightarrow> id_token result" where
  "callback_exchange lib oc r provider state =
     (case Exchange lib provider oc (oidcCallbackURL oc r) (auth_query r ''code'') (Verifier state) of
        Inl e \<Rightarrow> Inl ''exchange_failed''
      | Inr token \<Rightarrow>
     (case id_token_of lib token of
        None \<Rightarrow> Inl ''missing_id_token''
      | Some rawIDToken \<Rightarrow>
     (case VerifyIDToken lib provider (oidcClientID oc) rawIDToken of
        Inl e \<Rightarrow> Inl ''invalid_id_token''
      | Inr idToken \<Rightarrow>
          if tok_Nonce idToken \<noteq> Nonce state then Inl ''nonce_mismatch'' else Inr idToken)))"

text \<open>What the callback asks of the request once the state is known, and everything it decides once the provider is.\<close>

definition callback_checked ::
  "('p, 't) oidc_lib \<Rightarrow> oidc_cfg \<Rightarrow> int \<Rightarrow> auth_request \<Rightarrow> 'p \<Rightarrow> oidcState \<Rightarrow> id_token result" where
  "callback_checked lib oc now r provider state =
     (if now > Expires state * 10 ^ 9 then Inl ''state_expired''
      else if auth_query r ''state'' \<noteq> State state then Inl ''state_mismatch''
      else if auth_query r ''error'' \<noteq> [] then Inl ''provider_error''
      else if auth_query r ''code'' = [] then Inl ''missing_code''
      else callback_exchange lib oc r provider state)"

definition callback_verified ::
  "('p, 't) oidc_lib \<Rightarrow> oidc_cfg \<Rightarrow> session_cfg \<Rightarrow> int \<Rightarrow> string \<Rightarrow> auth_request \<Rightarrow> 'p \<Rightarrow> id_token result" where
  "callback_verified lib oc sess now cookie r provider =
     (case parseOIDCState lib sess cookie of
        Inl e \<Rightarrow> Inl ''state_invalid''
      | Inr state \<Rightarrow> callback_checked lib oc now r provider state)"

definition oidcCallbackHandler ::
  "('p, 't) oidc_lib \<Rightarrow> jwt_lib \<Rightarrow> oidc_cfg \<Rightarrow> session_cfg \<Rightarrow> authz \<Rightarrow> int \<Rightarrow> 'p result \<Rightarrow> auth_request
     \<Rightarrow> 'p provider_memo \<Rightarrow> auth_response \<times> 'p provider_memo" where
  "oidcCallbackHandler lib jlib oc sess az now outcome r m =
     (let respond = (\<lambda>a. \<lparr>answer = a, cookies = [clearOIDCStateCookie r]\<rparr>) in
      if \<not> oidc_enabled oc then
        (respond (ErrorPage ''OIDC is not configured on this server'' 503), m)
      else
     (case state_cookie r of
        None \<Rightarrow> (respond (oidcFailRedirect ''state_missing''), m)
      | Some cookie \<Rightarrow>
     (case getOIDCProvider oc now outcome m of
        (Inl e, asked, m1) \<Rightarrow> (respond (oidcFailRedirect ''provider_unavailable''), m1)
      | (Inr provider, asked, m1) \<Rightarrow>
     (case callback_verified lib oc sess now cookie r provider of
        Inl reason \<Rightarrow> (respond (oidcFailRedirect reason), m1)
      | Inr idToken \<Rightarrow>
          (case oidcClaimsFromIDToken lib oc idToken of
             (ident, groups) \<Rightarrow>
               (case mintSessionToken jlib sess ''oidc'' ident (resolvePermissions az groups)
                       (sessionTTL sess) now of
                  Inl e \<Rightarrow> (respond (ErrorPage ''Failed to complete login'' 500), m1)
                | Inr sessionToken \<Rightarrow> (respond (Redirect (''/#token='' @ sessionToken)), m1)))))))"

section \<open>The cookie\<close>

lemma verify_signed: "verifyOIDCState lib sess (signOIDCState lib sess payload) = Inr payload"
proof -
  have "CHR ''.'' \<notin> set (EncodeToString payload)" using encode_alphabet alphabet_plain by blast
  then show ?thesis by (simp add: verifyOIDCState_def signOIDCState_def cut_append decode_encode)
qed

lemma parse_signed:
  assumes "state_documented lib" and "Marshal lib st = Inr payload"
  shows "parseOIDCState lib sess (signOIDCState lib sess payload) =
    (if State st = [] \<or> Nonce st = [] \<or> Verifier st = [] then Inl ''invalid OIDC state cookie'' else Inr st)"
  using assms by (simp add: parseOIDCState_def verify_signed state_documented_def)

text \<open>A login that redirects has asked the provider with a state and a nonce and put both, signed, into the cookie.\<close>

lemma login_redirects:
  assumes "oidcLoginHandler lib oc sess now outcome read1 read2 verifier r m = (resp, m1)"
    and "answer resp = Redirect url"
  shows "\<exists>provider state nonce payload. fst (getOIDCProvider oc now outcome m) = Inr provider
    \<and> randomURLToken read1 32 = Inr state \<and> randomURLToken read2 32 = Inr nonce
    \<and> Marshal lib \<lparr>State = state, Nonce = nonce, Verifier = verifier,
         Expires = (now + oidcStateCookieTTL) div 10 ^ 9\<rparr> = Inr payload
    \<and> url = AuthCodeURL lib provider oc (oidcCallbackURL oc r) state nonce verifier
    \<and> cookies resp = [setOIDCStateCookie r (signOIDCState lib sess payload)]"
  using assms unfolding oidcLoginHandler_def Let_def
  by (auto split: if_splits prod.splits sum.splits)

lemma login_enabled:
  "oidcLoginHandler lib oc sess now outcome read1 read2 verifier r m = (resp, m1) \<Longrightarrow> answer resp = Redirect url
     \<Longrightarrow> oidc_enabled oc"
  by (auto simp: oidcLoginHandler_def split: if_splits)

lemma random_token_nonempty:
  "randomURLToken read n = Inr t \<Longrightarrow> (\<And>b. read n = Inr b \<Longrightarrow> b \<noteq> []) \<Longrightarrow> t \<noteq> []"
  using encode_nonempty by (auto simp: randomURLToken_def split: sum.splits)

text \<open>An accepted cookie carries the MAC of its payload under the session key.\<close>

lemma verify_authentic:
  "verifyOIDCState lib sess raw = Inr payload \<Longrightarrow>
     \<exists>p s. raw = p @ ''.'' @ s \<and> DecodeString p = Some payload
       \<and> DecodeString s = Some (hmac_sha256 lib (sessionSecret sess) payload)"
  by (auto simp: verifyOIDCState_def split: option.splits prod.splits if_splits dest!: cut_Some)

lemma parse_authentic:
  assumes "parseOIDCState lib sess raw = Inr st"
  shows "\<exists>p s payload. raw = p @ ''.'' @ s \<and> DecodeString p = Some payload
    \<and> DecodeString s = Some (hmac_sha256 lib (sessionSecret sess) payload) \<and> Unmarshal lib payload = Inr st"
proof -
  obtain payload where "verifyOIDCState lib sess raw = Inr payload" "Unmarshal lib payload = Inr st"
    using assms by (auto simp: parseOIDCState_def split: sum.splits if_splits)
  with verify_authentic show ?thesis by blast
qed

section \<open>What a login grants\<close>

lemma fail_is_not_token: "oidcFailRedirect reason \<noteq> Redirect (''/#token='' @ t)"
  by (simp add: oidcFailRedirect_def)

lemma callback_mints:
  assumes "oidcCallbackHandler lib jlib oc sess az now outcome r m = (resp, m1)"
    and "answer resp = Redirect (''/#token='' @ tok)"
  shows "\<exists>provider raw idToken ident groups. state_cookie r = Some raw
    \<and> fst (getOIDCProvider oc now outcome m) = Inr provider
    \<and> callback_verified lib oc sess now raw r provider = Inr idToken
    \<and> oidcClaimsFromIDToken lib oc idToken = (ident, groups)
    \<and> mintSessionToken jlib sess ''oidc'' ident (resolvePermissions az groups) (sessionTTL sess) now = Inr tok"
proof -
  note run = assms(1) [unfolded oidcCallbackHandler_def Let_def]
  have en: "oidc_enabled oc" using run assms(2) by (auto split: if_splits)
  obtain raw where raw: "state_cookie r = Some raw"
    using run assms(2) en fail_is_not_token by (cases "state_cookie r") auto
  obtain x asked m2 where g: "getOIDCProvider oc now outcome m = (x, asked, m2)" by (metis prod.collapse)
  obtain provider where x: "x = Inr provider"
    using run assms(2) en raw g fail_is_not_token by (cases x) auto
  obtain idToken where v: "callback_verified lib oc sess now raw r provider = Inr idToken"
    using run assms(2) en raw g x fail_is_not_token
    by (cases "callback_verified lib oc sess now raw r provider") auto
  obtain ident groups where c: "oidcClaimsFromIDToken lib oc idToken = (ident, groups)"
    by (metis prod.collapse)
  have "mintSessionToken jlib sess ''oidc'' ident (resolvePermissions az groups) (sessionTTL sess) now = Inr tok"
    using run assms(2) en raw g x v c by (auto split: sum.splits)
  with raw g x v c show ?thesis by simp
qed

lemma callback_verified_checks:
  assumes "callback_verified lib oc sess now raw r provider = Inr idToken"
  shows "\<exists>st token rawid. parseOIDCState lib sess raw = Inr st \<and> now \<le> Expires st * 10 ^ 9
    \<and> auth_query r ''state'' = State st \<and> tok_Nonce idToken = Nonce st
    \<and> Exchange lib provider oc (oidcCallbackURL oc r) (auth_query r ''code'') (Verifier st) = Inr token
    \<and> id_token_of lib token = Some rawid
    \<and> VerifyIDToken lib provider (oidcClientID oc) rawid = Inr idToken"
  using assms unfolding callback_verified_def callback_checked_def callback_exchange_def
  by (auto split: sum.splits option.splits if_splits)

text \<open>With a cookie that parses the callback completes the login exactly when every check passes.\<close>

lemma callback_exchange_iff:
  "callback_exchange lib oc r provider st = Inr idToken \<longleftrightarrow>
     (\<exists>token rawid. Exchange lib provider oc (oidcCallbackURL oc r) (auth_query r ''code'') (Verifier st) = Inr token
        \<and> id_token_of lib token = Some rawid \<and> VerifyIDToken lib provider (oidcClientID oc) rawid = Inr idToken
        \<and> tok_Nonce idToken = Nonce st)"
  by (auto simp: callback_exchange_def split: sum.splits option.splits)

lemma callback_checked_iff:
  "callback_checked lib oc now r provider st = Inr idToken \<longleftrightarrow>
     now \<le> Expires st * 10 ^ 9 \<and> auth_query r ''state'' = State st \<and> auth_query r ''error'' = []
     \<and> auth_query r ''code'' \<noteq> [] \<and> callback_exchange lib oc r provider st = Inr idToken"
  by (auto simp: callback_checked_def)

lemma callback_completes:
  assumes "oidc_enabled oc" and "state_cookie r = Some v"
    and "fst (getOIDCProvider oc now outcome m) = Inr provider" and "parseOIDCState lib sess v = Inr st"
  shows "answer (fst (oidcCallbackHandler lib jlib oc sess az now outcome r m)) = Redirect (''/#token='' @ tok)
    \<longleftrightarrow> now \<le> Expires st * 10 ^ 9 \<and> auth_query r ''state'' = State st \<and> auth_query r ''error'' = []
     \<and> auth_query r ''code'' \<noteq> []
     \<and> (\<exists>token rawid idToken ident groups.
          Exchange lib provider oc (oidcCallbackURL oc r) (auth_query r ''code'') (Verifier st) = Inr token
        \<and> id_token_of lib token = Some rawid \<and> VerifyIDToken lib provider (oidcClientID oc) rawid = Inr idToken
        \<and> tok_Nonce idToken = Nonce st \<and> oidcClaimsFromIDToken lib oc idToken = (ident, groups)
        \<and> mintSessionToken jlib sess ''oidc'' ident (resolvePermissions az groups) (sessionTTL sess) now = Inr tok)"
    (is "?token \<longleftrightarrow> ?checks")
proof -
  have "?token \<longleftrightarrow> (\<exists>idToken ident groups. callback_verified lib oc sess now v r provider = Inr idToken
      \<and> oidcClaimsFromIDToken lib oc idToken = (ident, groups)
      \<and> mintSessionToken jlib sess ''oidc'' ident (resolvePermissions az groups) (sessionTTL sess) now = Inr tok)"
    using assms(1-3) fail_is_not_token
    by (auto simp: oidcCallbackHandler_def Let_def split: prod.splits sum.splits)
  moreover have "callback_verified lib oc sess now v r provider = callback_checked lib oc now r provider st"
    using assms(4) by (simp add: callback_verified_def)
  ultimately show ?thesis by (simp only: callback_checked_iff callback_exchange_iff) blast
qed

text \<open>The token that comes out of a login is a session with the permissions of the groups' roles.\<close>

lemma session_grants:
  assumes "jwt_documented (jwt pf)" and "mintSessionToken (jwt pf) (session cfg) via ident perms ttl now = Inr tok"
    and "unexpired ttl now (wall req)" and "authorization req = ''Bearer '' @ tok"
    and "tok \<noteq> []" and "tok \<noteq> apiToken cfg"
  shows "resolveAuth cfg pf req = Some \<lparr>Kind = SessionKind, auth_Subject = Subject ident,
    auth_Via = via, Perms = set perms\<rparr>"
proof -
  have "bearerToken req = tok" using assms(4) by (simp add: bearerToken_def)
  moreover have "verifySessionTokenAt (jwt pf) (session cfg) tok (wall req)
      = Inr (minted_claims (jwt pf) via ident perms ttl now)"
    using verify_minted [OF assms(1,2), of "wall req"] assms(3) by simp
  ultimately show ?thesis using assms(5,6)
    by (simp add: resolveAuth_def minted_claims_def permissionSetFrom_set)
qed

end
