(* ===== verification/Config.thy ===== *)
theory Config
  imports Oidc StorageS3
begin

text \<open>
  The start of \<open>main\<close> in \<open>server/main.go\<close>: the choice of a command, the configuration read from the
  environment, and the selection of the blob store. \<open>parsers\<close> collects what the readers of the
  settings take from the Go library.
\<close>

section \<open>Commands\<close>

datatype command =
    TokenCommand "string list"
  | HelpCommand
  | RestoreCommand "string list"
  | ServeCommand
  | UnknownCommand string

text \<open>The arguments after the program name.\<close>

definition main_command :: "string list \<Rightarrow> command" where
  "main_command args =
     (case args of
        [] \<Rightarrow> ServeCommand
      | cmd # rest \<Rightarrow>
          if cmd = ''token'' then TokenCommand rest
          else if cmd \<in> {''help'', ''-h'', ''--help''} then HelpCommand
          else if cmd = [] then ServeCommand
          else if cmd = ''restore-db'' then RestoreCommand rest
          else UnknownCommand cmd)"

section \<open>Settings\<close>

definition defaultMaxFileSize :: int where "defaultMaxFileSize = 100 * 1024 * 1024"
definition defaultMaxListLimit :: int where "defaultMaxListLimit = 500"
definition dbFileName :: string where "dbFileName = ''artifact.db''"
definition storageFilesystem :: string where "storageFilesystem = ''fs''"
definition storageS3 :: string where "storageS3 = ''s3''"
definition dbRestoreAuto :: string where "dbRestoreAuto = ''auto''"
definition dbRestoreIgnore :: string where "dbRestoreIgnore = ''ignore''"
definition defaultDBBackupPrefix :: string where "defaultDBBackupPrefix = ''_backup''"
definition defaultDBPollInterval :: int where "defaultDBPollInterval = 60 * 10 ^ 9"

record config =
  uploadFolder :: string
  staticFolder :: string
  storageKind :: string
  s3Bucket :: string
  s3Prefix :: string
  s3Region :: string
  s3Endpoint :: string
  s3PathStyle :: bool
  dbReplica :: bool
  dbRestoreMode :: string
  dbBackupPrefix :: string
  dbBackupDelay :: int
  dbPollInterval :: int
  serving :: settings
  authz_of :: authz
  oidc_of :: oidc_cfg

record parsers =
  unicode_lower :: "string \<Rightarrow> string"
  unicode_upper :: "string \<Rightarrow> string"
  float_scaled :: "string \<Rightarrow> int \<Rightarrow> int option"
  float_negative :: "string \<Rightarrow> bool"
  go_duration :: "string \<Rightarrow> int option"
  decode_roles :: "string \<Rightarrow> string + roleRegistry"
  decode_groups :: "string \<Rightarrow> string + groupBindings"

datatype startup_error = Fatal string | FatalRoles fatal

definition env_duration :: "parsers \<Rightarrow> (string \<Rightarrow> string) \<Rightarrow> string \<Rightarrow> int \<Rightarrow> int result" where
  "env_duration ps = durationEnv (float_scaled ps) (float_negative ps) (go_duration ps)"

text \<open>The part that decides who may do what.\<close>

definition load_access ::
  "parsers \<Rightarrow> (string \<Rightarrow> string) \<Rightarrow> startup_error + session_cfg \<times> authz \<times> oidc_cfg" where
  "load_access ps getenv =
     (case initSessionConfig (parseDuration (float_scaled ps) (float_negative ps) (go_duration ps)) getenv of
        Inl e \<Rightarrow> Inl (Fatal e)
      | Inr sess \<Rightarrow>
     (case initRolesConfig (decode_roles ps) (decode_groups ps) (getenv ''ART_ROLES'') (getenv ''ART_OIDC_GROUPS'') of
        Inl e \<Rightarrow> Inl (FatalRoles e)
      | Inr az \<Rightarrow>
     (case initOIDCConfig (groupsConfigured az) sess getenv of
        Inl e \<Rightarrow> Inl (Fatal e)
      | Inr oc \<Rightarrow> Inr (sess, az, oc))))"

definition or_default :: "string \<Rightarrow> string \<Rightarrow> string" where
  "or_default df v = (if v = [] then df else v)"

lemma or_default_empty: "or_default df v = [] \<longleftrightarrow> df = [] \<and> v = []"
  by (simp add: or_default_def)

text \<open>The settings, once the choices that can be refused have been made.\<close>

definition config_of ::
  "parsers \<Rightarrow> (string \<Rightarrow> string) \<Rightarrow> session_cfg \<Rightarrow> authz \<Rightarrow> oidc_cfg \<Rightarrow> string \<Rightarrow> bool \<Rightarrow> bool \<Rightarrow> string \<Rightarrow> int \<Rightarrow> int
     \<Rightarrow> config" where
  "config_of ps getenv sess az oc kind replica ro restore delay poll =
     (let limit = parseInt (getenv ''ART_MAX_LIST_LIMIT'') defaultMaxListLimit in
      \<lparr>uploadFolder = or_default ''/var/uploads'' (getenv ''ART_UPLOAD_FOLDER''),
       staticFolder = or_default ''./static'' (getenv ''ART_STATIC_FOLDER''),
       storageKind = kind, s3Bucket = getenv ''ART_S3_BUCKET'', s3Prefix = getenv ''ART_S3_PREFIX'',
       s3Region = getenv ''ART_S3_REGION'', s3Endpoint = getenv ''ART_S3_ENDPOINT'',
       s3PathStyle = parseBool (getenv ''ART_S3_PATH_STYLE'') (getenv ''ART_S3_ENDPOINT'' \<noteq> []),
       dbReplica = replica, dbRestoreMode = restore,
       dbBackupPrefix = or_default defaultDBBackupPrefix
         (trim_slashes (trim_space (getenv ''ART_DB_BACKUP_PREFIX''))),
       dbBackupDelay = delay, dbPollInterval = poll,
       serving =
         \<lparr>maxContentLength = parseSize (unicode_upper ps) (float_scaled ps) size_units
            (getenv ''ART_MAX_FILE_SIZE'') defaultMaxFileSize,
          apiToken = getenv ''ART_API_TOKEN'',
          webPortal = parseBool (getenv ''ART_WEB_PORTAL'') True,
          noListing = parseBool (getenv ''ART_NO_LISTING'') False,
          appendOnly = parseBool (getenv ''ART_APPEND_ONLY'') False,
          noFilenameURL = parseBool (getenv ''ART_NO_FILENAME_URL'') False,
          maxListLimit = (if limit \<le> 0 then defaultMaxListLimit else limit),
          readOnly = ro, session = sess, oidcEnabled = oidc_enabled oc\<rparr>,
       authz_of = az, oidc_of = oc\<rparr>)"

definition load_config :: "parsers \<Rightarrow> (string \<Rightarrow> string) \<Rightarrow> startup_error + config" where
  "load_config ps getenv =
     (case load_access ps getenv of
        Inl e \<Rightarrow> Inl e
      | Inr (sess, az, oc) \<Rightarrow>
      let kind = or_default storageFilesystem (to_lower (unicode_lower ps) (trim_space (getenv ''ART_STORAGE''))) in
      if kind \<noteq> storageFilesystem \<and> kind \<noteq> storageS3 then
        Inl (Fatal ''ART_STORAGE must be fs or s3'')
      else
      let replica = parseBool (getenv ''ART_DB_REPLICA'') False;
          ro = (if replica then True else parseBool (getenv ''ART_READ_ONLY'') False) in
      if replica \<and> kind \<noteq> storageS3 then
        Inl (Fatal ''ART_DB_REPLICA needs ART_STORAGE=s3: a replica has no local blobs to serve'')
      else
      let restore = to_lower (unicode_lower ps) (trim_space (getenv ''ART_DB_RESTORE'')) in
      if restore \<notin> {[], dbRestoreAuto, dbRestoreIgnore} then
        Inl (Fatal ''ART_DB_RESTORE must be auto or ignore'')
      else
     (case env_duration ps getenv ''ART_DB_BACKUP_DELAY'' 0 of
        Inl e \<Rightarrow> Inl (Fatal e)
      | Inr delay \<Rightarrow>
     (case env_duration ps getenv ''ART_DB_POLL_INTERVAL'' defaultDBPollInterval of
        Inl e \<Rightarrow> Inl (Fatal e)
      | Inr poll \<Rightarrow> Inr (config_of ps getenv sess az oc kind replica ro restore delay poll))))"

section \<open>What a loaded configuration guarantees\<close>

definition config_ok :: "config \<Rightarrow> bool" where
  "config_ok c \<longleftrightarrow> 0 < maxListLimit (serving c)
     \<and> (dbReplica c \<longrightarrow> readOnly (serving c) \<and> storageKind c = storageS3)
     \<and> storageKind c \<in> {storageFilesystem, storageS3}
     \<and> dbRestoreMode c \<in> {[], dbRestoreAuto, dbRestoreIgnore}
     \<and> dbBackupPrefix c \<noteq> []
     \<and> (oidc_enabled (oidc_of c) \<longrightarrow> sessionAuthEnabled (session (serving c)))
     \<and> oidcEnabled (serving c) = oidc_enabled (oidc_of c)
     \<and> (sessionSecret (session (serving c)) = []
        \<or> minSessionSecretLength \<le> length (sessionSecret (session (serving c))))
     \<and> roles_ok (roles (authz_of c)) \<and> bindings_ok (roles (authz_of c)) (groupRoles (authz_of c))"

lemma initSession_secret:
  "initSessionConfig dur getenv = Inr sess \<Longrightarrow>
     sessionSecret sess = [] \<or> minSessionSecretLength \<le> length (sessionSecret sess)"
  by (auto simp: initSessionConfig_def Let_def split: if_splits sum.splits)

lemma initOIDC_session:
  "initOIDCConfig g sess getenv = Inr oc \<Longrightarrow> oidc_enabled oc \<Longrightarrow> sessionAuthEnabled sess"
  by (auto simp: initOIDCConfig_def Let_def split: if_splits)

lemma load_access_ok:
  assumes "load_access ps getenv = Inr (sess, az, oc)"
  shows "(sessionSecret sess = [] \<or> minSessionSecretLength \<le> length (sessionSecret sess))
    \<and> roles_ok (roles az) \<and> bindings_ok (roles az) (groupRoles az)
    \<and> (oidc_enabled oc \<longrightarrow> sessionAuthEnabled sess)"
proof -
  have "initSessionConfig (parseDuration (float_scaled ps) (float_negative ps) (go_duration ps)) getenv = Inr sess"
    "initRolesConfig (decode_roles ps) (decode_groups ps) (getenv ''ART_ROLES'') (getenv ''ART_OIDC_GROUPS'') = Inr az"
    "initOIDCConfig (groupsConfigured az) sess getenv = Inr oc"
    using assms by (auto simp: load_access_def split: sum.splits)
  then show ?thesis using initSession_secret initRolesConfig_ok initOIDC_session by blast
qed

lemma load_config_Inr:
  assumes "load_config ps getenv = Inr c"
  shows "\<exists>sess az oc kind replica ro restore delay poll. load_access ps getenv = Inr (sess, az, oc)
    \<and> c = config_of ps getenv sess az oc kind replica ro restore delay poll
    \<and> kind \<in> {storageFilesystem, storageS3} \<and> (replica \<longrightarrow> ro \<and> kind = storageS3)
    \<and> restore \<in> {[], dbRestoreAuto, dbRestoreIgnore}"
proof -
  obtain sess az oc where a: "load_access ps getenv = Inr (sess, az, oc)"
    using assms by (cases "load_access ps getenv") (auto simp: load_config_def)
  from assms show ?thesis unfolding load_config_def a sum.case prod.case Let_def
    by (simp only: split: if_split_asm sum.split_asm) fastforce+
qed

lemma load_config_ok:
  assumes "load_config ps getenv = Inr c"
  shows "config_ok c"
proof -
  obtain sess az oc kind replica ro restore delay poll where a: "load_access ps getenv = Inr (sess, az, oc)"
    and c: "c = config_of ps getenv sess az oc kind replica ro restore delay poll"
    and ok: "kind \<in> {storageFilesystem, storageS3}" "replica \<longrightarrow> ro \<and> kind = storageS3"
      "restore \<in> {[], dbRestoreAuto, dbRestoreIgnore}"
    using load_config_Inr [OF assms] by blast
  have lim: "0 < maxListLimit (serving c)" and pre: "dbBackupPrefix c \<noteq> []"
    by (simp_all add: c config_of_def Let_def defaultMaxListLimit_def or_default_empty defaultDBBackupPrefix_def)
  have eqs: "storageKind c = kind" "dbReplica c = replica" "readOnly (serving c) = ro" "dbRestoreMode c = restore"
    "session (serving c) = sess" "oidc_of c = oc" "authz_of c = az" "oidcEnabled (serving c) = oidc_enabled oc"
    by (simp_all add: c config_of_def Let_def)
  show ?thesis unfolding config_ok_def eqs using lim pre ok load_access_ok [OF a] by blast
qed

section \<open>The blob store\<close>

datatype 'c backend = FsBackend string | S3Backend 'c string

record client_options =
  aws_region :: "string option"
  base_endpoint :: "string option"
  path_style :: bool

definition s3ClientOptions :: "string option \<Rightarrow> string \<Rightarrow> bool \<Rightarrow> client_options" where
  "s3ClientOptions region endpoint pathStyle =
     \<lparr>aws_region = region, base_endpoint = (if endpoint \<noteq> [] then Some endpoint else None),
      path_style = pathStyle\<rparr>"

text \<open>\<open>build\<close> loads the AWS configuration for a region, if one is given, and makes the client.\<close>

definition newS3Client :: "(client_options \<Rightarrow> 'c result) \<Rightarrow> config \<Rightarrow> 'c result" where
  "newS3Client build c =
     (if s3Bucket c = [] then Inl ''ART_S3_BUCKET is required when ART_STORAGE=s3''
      else
        let region = (if s3Region c \<noteq> [] then Some (s3Region c)
                      else if s3Endpoint c \<noteq> [] then Some ''us-east-1'' else None) in
        (case build (s3ClientOptions region (s3Endpoint c) (s3PathStyle c)) of
           Inl e \<Rightarrow> Inl (''loading aws configuration: '' @ e)
         | Inr cl \<Rightarrow> Inr cl))"

text \<open>The memo of \<open>sync.Once\<close>: the first outcome is the outcome for good.\<close>

definition sharedS3Client ::
  "(client_options \<Rightarrow> 'c result) \<Rightarrow> config \<Rightarrow> 'c result option \<Rightarrow> 'c result \<times> 'c result option" where
  "sharedS3Client build c memo =
     (case memo of
        Some r \<Rightarrow> (r, memo)
      | None \<Rightarrow> let r = newS3Client build c in (r, Some r))"

definition newStorage ::
  "(client_options \<Rightarrow> 'c result) \<Rightarrow> config \<Rightarrow> 'c result option \<Rightarrow> 'c backend result \<times> 'c result option" where
  "newStorage build c memo =
     (if storageKind c = storageFilesystem then (Inr (FsBackend (uploadFolder c)), memo)
      else if storageKind c = storageS3 then
        (case sharedS3Client build c memo of
           (Inl e, memo1) \<Rightarrow> (Inl e, memo1)
         | (Inr cl, memo1) \<Rightarrow> (Inr (S3Backend cl (normaliseS3Prefix (s3Prefix c))), memo1))
      else (Inl (''unknown storage kind '' @ storageKind c), memo))"

end
