(* ===== verification/Snapshot.thy ===== *)
theory Snapshot
  imports StorageFs Config
begin

text \<open>
  Database handles and snapshot files: \<open>server/db.go\<close> as far as it opens and inspects a database
  file, and \<open>server/db_snapshot.go\<close> up to the background loops. A \<open>node\<close> is what one instance
  touches: its disk, the bucket, the failures still to come in its SQL statements and its clock.

  SQLite is the record \<open>sqlite\<close>: how it reads the bytes of a database file, what it writes for a
  database, and \<open>rewritten\<close>, what becomes of a file, read with its write-ahead log, under a statement
  that leaves a given database in it. \<open>sqlite_documented\<close> says that a file made by \<open>VACUUM INTO\<close>
  passes the integrity check and reads back as the database it was made from, that a written file
  reads back as what was written, and that an empty file is an empty database.
\<close>

section \<open>The engine\<close>

text \<open>A database: its two tables, once the schema exists, and the stamp of \<open>PRAGMA user_version\<close>.\<close>

record dbfile =
  tabs :: "tables option"
  user_version :: int

record sqlite =
  parse_db :: "bytes \<Rightarrow> dbfile result"
  quick_check :: "bytes \<Rightarrow> string result"
  vacuum_image :: "dbfile \<Rightarrow> bytes"
  rewritten :: "bytes \<Rightarrow> dbfile \<Rightarrow> bytes"

definition blank_db :: dbfile where
  "blank_db = \<lparr>tabs = None, user_version = 0\<rparr>"

definition sqlite_documented :: "sqlite \<Rightarrow> bool" where
  "sqlite_documented sq \<longleftrightarrow> parse_db sq [] = Inr blank_db
     \<and> (\<forall>d. parse_db sq (vacuum_image sq d) = Inr d
          \<and> quick_check sq (vacuum_image sq d) = Inr ''ok'' \<and> vacuum_image sq d \<noteq> [])
     \<and> (\<forall>b d. parse_db sq (rewritten sq b d) = Inr d)"

record 's node =
  disk :: fsys
  remote :: 's
  sqlFaults :: "string option list"
  ticks :: "nat \<Rightarrow> int"

definition on_disk :: "(fsys \<Rightarrow> 'a \<times> fsys) \<Rightarrow> 's node \<Rightarrow> 'a \<times> 's node" where
  "on_disk f nd = (case f (disk nd) of (r, d) \<Rightarrow> (r, nd\<lparr>disk := d\<rparr>))"

definition on_remote :: "('s \<Rightarrow> 'a \<times> 's) \<Rightarrow> 's node \<Rightarrow> 'a \<times> 's node" where
  "on_remote f nd = (case f (remote nd) of (r, s) \<Rightarrow> (r, nd\<lparr>remote := s\<rparr>))"

definition next_sql :: "'s node \<Rightarrow> string option \<times> 's node" where
  "next_sql nd = (case sqlFaults nd of [] \<Rightarrow> (None, nd) | f # fs \<Rightarrow> (f, nd\<lparr>sqlFaults := fs\<rparr>))"

definition clock_now :: "'s node \<Rightarrow> int \<times> 's node" where
  "clock_now nd = (ticks nd 0, nd\<lparr>ticks := \<lambda>i. ticks nd (Suc i)\<rparr>)"

section \<open>More system calls\<close>

definition os_Stat :: "string \<Rightarrow> fsys \<Rightarrow> string option \<times> fsys" where
  "os_Stat p s =
     (case next_fault s of
        (Some (e, _), s1) \<Rightarrow> (Some e, s1)
      | (None, s1) \<Rightarrow>
          (case map_of (entries s1) p of
             None \<Rightarrow> (Some ''no such file or directory'', s1)
           | Some _ \<Rightarrow> (None, s1)))"

definition os_Open :: "string \<Rightarrow> fsys \<Rightarrow> bytes result \<times> fsys" where
  "os_Open p s =
     (case next_fault s of
        (Some (e, _), s1) \<Rightarrow> (Inl e, s1)
      | (None, s1) \<Rightarrow>
          (case file_at s1 p of
             None \<Rightarrow> (Inl ''no such file or directory'', s1)
           | Some b \<Rightarrow> (Inr b, s1)))"

text \<open>\<open>os.Rename\<close> of a file: the new name gets it in one step.\<close>

definition os_Rename :: "string \<Rightarrow> string \<Rightarrow> fsys \<Rightarrow> string option \<times> fsys" where
  "os_Rename a b s =
     (case next_fault s of
        (Some (e, _), s1) \<Rightarrow> (Some e, s1)
      | (None, s1) \<Rightarrow>
          (case map_of (entries s1) a of
             Some (FFile x t) \<Rightarrow>
               (case map_of (entries s1) b of
                  Some FDir \<Rightarrow> (Some ''file exists'', s1)
                | _ \<Rightarrow> (None, set_entry b (FFile x t) (s1\<lparr>entries := AList.delete a (entries s1)\<rparr>)))
           | _ \<Rightarrow> (Some ''no such file or directory'', s1)))"

lemma os_Stat_file: "os_Stat p s = (e, s1) \<Longrightarrow> file_at s1 = file_at s
    \<and> (e = None \<longrightarrow> map_of (entries s1) p \<noteq> None)"
  by (auto simp: os_Stat_def dest!: next_fault_file split: prod.splits option.splits)

lemma os_Open_file: "os_Open p s = (r, s1) \<Longrightarrow> file_at s1 = file_at s
    \<and> (\<forall>b. r = Inr b \<longrightarrow> file_at s p = Some b)"
  by (auto simp: os_Open_def dest!: next_fault_file split: prod.splits option.splits)

lemma os_Rename_file:
  assumes "os_Rename a b s = (e, s1)" and "a \<noteq> b"
  shows "(q \<noteq> a \<longrightarrow> q \<noteq> b \<longrightarrow> file_at s1 q = file_at s q)
    \<and> (e = None \<longrightarrow> file_at s1 b = file_at s a \<and> file_at s a \<noteq> None)
    \<and> (e \<noteq> None \<longrightarrow> file_at s1 = file_at s)"
proof -
  obtain f s2 where nf: "next_fault s = (f, s2)" by (metis prod.collapse)
  note same = next_fault_file [OF nf]
  show ?thesis
    using assms nf unfolding os_Rename_def
    by (auto simp: file_at_set file_at_delete same [symmetric] file_at_FFile
        split: option.splits fs_entry.splits)
qed

section \<open>Handles\<close>

text \<open>
  A handle reads the file it was opened on: for a read-only one the bytes of that moment, which
  a later rename over the path does not change. A writer's database changes with its statements, and
  so does its file.
\<close>

record handle =
  h_path :: string
  h_readOnly :: bool
  h_bytes :: bytes
  h_db :: "dbfile result"
  h_changes :: int

definition schemaVersion :: int where
  "schemaVersion = 1"

definition databasePath :: "config \<Rightarrow> string" where
  "databasePath cfg = path_join (uploadFolder cfg) dbFileName"

definition h_query :: "(dbfile \<Rightarrow> 'a result) \<Rightarrow> handle \<Rightarrow> 's node \<Rightarrow> 'a result \<times> 's node" where
  "h_query q h nd =
     (case next_sql nd of
        (Some e, nd1) \<Rightarrow> (Inl e, nd1)
      | (None, nd1) \<Rightarrow> ((case h_db h of Inl e \<Rightarrow> Inl e | Inr d \<Rightarrow> q d), nd1))"

text \<open>A statement that leaves the database \<open>d\<close> behind; a file somebody has removed stays removed.\<close>

definition h_write :: "sqlite \<Rightarrow> dbfile \<Rightarrow> handle \<Rightarrow> 's node \<Rightarrow> handle \<times> 's node" where
  "h_write sq d h nd =
     (h\<lparr>h_db := Inr d\<rparr>,
      (case file_at (disk nd) (h_path h) of
         None \<Rightarrow> nd
       | Some b \<Rightarrow> nd\<lparr>disk := set_entry (h_path h) (FFile (rewritten sq b d) (fs_now (disk nd))) (disk nd)\<rparr>))"

text \<open>
  A file opened read-only is not read before the first query, one opened for writing is: the
  change of the journal mode reads its header and rewrites it.
\<close>

definition openSQLite :: "sqlite \<Rightarrow> string \<Rightarrow> bool \<Rightarrow> 's node \<Rightarrow> handle result \<times> 's node" where
  "openSQLite sq path readOnlyDB nd =
     (case next_sql nd of
        (Some e, nd1) \<Rightarrow> (Inl (''configuring database: '' @ e), nd1)
      | (None, nd1) \<Rightarrow>
          (case file_at (disk nd1) path of
             Some b \<Rightarrow>
               if readOnlyDB then
                 (Inr \<lparr>h_path = path, h_readOnly = True, h_bytes = b, h_db = parse_db sq b, h_changes = 0\<rparr>, nd1)
               else
                 (case parse_db sq b of
                    Inl e \<Rightarrow> (Inl (''configuring database: '' @ e), nd1)
                  | Inr d \<Rightarrow>
                      (case h_write sq d \<lparr>h_path = path, h_readOnly = False, h_bytes = b, h_db = Inr d, h_changes = 0\<rparr> nd1
                       of (h, nd2) \<Rightarrow> (Inr h, nd2)))
           | None \<Rightarrow>
               if readOnlyDB then (Inl ''configuring database: unable to open database file'', nd1)
               else
                 (case h_write sq blank_db
                         \<lparr>h_path = path, h_readOnly = False, h_bytes = [], h_db = Inr blank_db, h_changes = 0\<rparr>
                         (nd1\<lparr>disk := set_entry path (FFile [] (fs_now (disk nd1))) (disk nd1)\<rparr>)
                  of (h, nd2) \<Rightarrow> (Inr h, nd2))))"

definition empty_tables :: tables where
  "empty_tables = \<lparr>files = [], tags = []\<rparr>"

text \<open>The two scripts of \<open>CREATE ... IF NOT EXISTS\<close> count as one statement.\<close>

definition initSchema :: "sqlite \<Rightarrow> handle \<Rightarrow> 's node \<Rightarrow> handle result \<times> 's node" where
  "initSchema sq h nd =
     (case h_query Inr h nd of
        (Inl e, nd1) \<Rightarrow> (Inl e, nd1)
      | (Inr d, nd1) \<Rightarrow>
          (case tabs d of
             Some _ \<Rightarrow> (Inr h, nd1)
           | None \<Rightarrow>
               if h_readOnly h then (Inl ''attempt to write a readonly database'', nd1)
               else (case h_write sq (d\<lparr>tabs := Some empty_tables\<rparr>) h nd1 of (h1, nd2) \<Rightarrow> (Inr h1, nd2))))"

definition checkSchemaVersion :: "sqlite \<Rightarrow> handle \<Rightarrow> bool \<Rightarrow> 's node \<Rightarrow> handle result \<times> 's node" where
  "checkSchemaVersion sq h readOnlyDB nd =
     (case h_query (\<lambda>d. Inr (d, user_version d)) h nd of
        (Inl e, nd1) \<Rightarrow> (Inl (''reading schema version: '' @ e), nd1)
      | (Inr (d, version), nd1) \<Rightarrow>
          if version = schemaVersion then (Inr h, nd1)
          else if readOnlyDB then
            (Inl (''snapshot is schema v'' @ show_int version @ '', but this build reads v''
               @ show_int schemaVersion), nd1)
          else if version > schemaVersion then
            (Inl (''database schema v'' @ show_int version @ '' is newer than this build's v''
               @ show_int schemaVersion), nd1)
          else
            (case next_sql nd1 of
               (Some e, nd2) \<Rightarrow> (Inl (''stamping schema version: '' @ e), nd2)
             | (None, nd2) \<Rightarrow>
                 (case h_write sq (d\<lparr>user_version := schemaVersion\<rparr>) h nd2 of (h1, nd3) \<Rightarrow> (Inr h1, nd3))))"

definition dbTotalChanges :: "handle \<Rightarrow> 's node \<Rightarrow> int result \<times> 's node" where
  "dbTotalChanges h = h_query (\<lambda>_. Inr (h_changes h)) h"

definition count_files :: "dbfile \<Rightarrow> int result" where
  "count_files d =
     (case tabs d of None \<Rightarrow> Inl ''no such table: files'' | Some t \<Rightarrow> Inr (int (length (files t))))"

definition countRecords :: "handle \<Rightarrow> 's node \<Rightarrow> int result \<times> 's node" where
  "countRecords h = h_query count_files h"

section \<open>The snapshot store\<close>

definition dbSnapshotName :: string where "dbSnapshotName = dbFileName"
definition snapshotKey :: string where "snapshotKey = dbSnapshotName"
definition maxDBSnapshotSize :: int where "maxDBSnapshotSize = 4 * 2 ^ 30"

definition snapshotDir :: "config \<Rightarrow> string" where
  "snapshotDir cfg = path_join (uploadFolder cfg) (dbBackupPrefix cfg)"

text \<open>\<open>shared\<close> is \<open>sharedS3Client\<close>, as it answers now.\<close>

definition initSnapshotStore ::
  "config \<Rightarrow> 's s3_client result \<Rightarrow> 's s3Storage option result" where
  "initSnapshotStore cfg shared =
     (if s3Bucket cfg = [] then
        if dbReplica cfg then Inl ''ART_DB_REPLICA needs ART_S3_BUCKET: the snapshot lives in the bucket''
        else if dbBackupDelay cfg > 0 then
          Inl ''ART_DB_BACKUP_DELAY needs ART_S3_BUCKET: nothing would be uploaded''
        else Inr None
      else
        (case shared of
           Inl e \<Rightarrow> Inl e
         | Inr c \<Rightarrow> Inr (Some (newS3StorageWithClient c (s3Bucket cfg) (dbBackupPrefix cfg)))))"

definition sqlQuote :: "string \<Rightarrow> string" where
  "sqlQuote s = CHR 0x27 # concat (map (\<lambda>c. if c = CHR 0x27 then [c, c] else [c]) s) @ [CHR 0x27]"

text \<open>
  \<open>VACUUM INTO\<close> of a quoted file name. It refuses a file that holds something; one that fails
  half-way leaves what it has written.
\<close>

definition vacuum_into :: "sqlite \<Rightarrow> handle \<Rightarrow> string \<Rightarrow> 's node \<Rightarrow> string option \<times> 's node" where
  "vacuum_into sq h dst nd =
     (case next_sql nd of
        (Some e, nd1) \<Rightarrow> (Some e, nd1)
      | (None, nd1) \<Rightarrow>
          (case h_db h of
             Inl e \<Rightarrow> (Some e, nd1)
           | Inr d \<Rightarrow>
               if file_at (disk nd1) dst \<in> {None, Some []}
               then on_disk (os_Write dst (vacuum_image sq d)) nd1
               else (Some ''output file already exists'', nd1)))"

definition writeSnapshotTo :: "sqlite \<Rightarrow> handle \<Rightarrow> string \<Rightarrow> 's node \<Rightarrow> string option \<times> 's node" where
  "writeSnapshotTo sq h dst nd =
     (case on_disk (os_MkdirAll (path_dir dst)) nd of
        (Some e, nd1) \<Rightarrow> (Some e, nd1)
      | (None, nd1) \<Rightarrow>
     (case on_disk (os_Remove dst) nd1 of
        (Some (RemoveErr e), nd2) \<Rightarrow> (Some e, nd2)
      | (_, nd2) \<Rightarrow>
     (case vacuum_into sq h dst nd2 of
        (Some e, nd3) \<Rightarrow> (Some (''vacuuming into '' @ dst @ '': '' @ e), nd3)
      | (None, nd3) \<Rightarrow> (None, nd3))))"

definition verifySnapshot :: "sqlite \<Rightarrow> string \<Rightarrow> 's node \<Rightarrow> string option \<times> 's node" where
  "verifySnapshot sq path nd =
     (case openSQLite sq path True nd of
        (Inl e, nd1) \<Rightarrow> (Some e, nd1)
      | (Inr h, nd1) \<Rightarrow>
     (case h_query (\<lambda>_. quick_check sq (h_bytes h)) h nd1 of
        (Inl e, nd2) \<Rightarrow> (Some (''integrity check failed: '' @ e), nd2)
      | (Inr check, nd2) \<Rightarrow>
          if check \<noteq> ''ok'' then (Some (''integrity check reported '' @ check), nd2) else
     (case h_query (\<lambda>d. Inr (user_version d)) h nd2 of
        (Inl e, nd3) \<Rightarrow> (Some (''reading schema version: '' @ e), nd3)
      | (Inr version, nd3) \<Rightarrow>
          if version \<noteq> schemaVersion then
            (Some (''snapshot is schema v'' @ show_int version @ '', but this build reads v''
               @ show_int schemaVersion), nd3)
          else
     (case h_query count_files h nd3 of
        (Inl e, nd4) \<Rightarrow> (Some (''reading records: '' @ e), nd4)
      | (Inr _, nd4) \<Rightarrow> (None, nd4)))))"

definition headSnapshot :: "'s s3Storage option \<Rightarrow> 's node \<Rightarrow> (blob_error + BlobInfo) \<times> 's node" where
  "headSnapshot snapshotStore nd =
     (case snapshotStore of
        None \<Rightarrow> (Inl (BlobOther ''no snapshot store configured''), nd)
      | Some st \<Rightarrow>
          (case on_remote (s3_Get st snapshotKey) nd of
             (Inl e, nd1) \<Rightarrow> (Inl e, nd1)
           | (Inr (blob, info), nd1) \<Rightarrow> (Inr info, nd1)))"

text \<open>
  \<open>io.Copy\<close> from \<open>io.LimitReader(blob, room)\<close> with a buffer of \<open>k + 1\<close> bytes: the reader ends
  after \<open>room\<close> bytes.
\<close>

function s3_drain_limited ::
  "'s s3_client \<Rightarrow> nat \<Rightarrow> int \<Rightarrow> s3ReadSeeker \<Rightarrow> bytes \<Rightarrow> 's \<Rightarrow> read_end \<times> bytes \<times> 's" where
  "s3_drain_limited c k room sk acc s =
     (if room \<le> 0 then (EOF, acc, s)
      else
        (case s3_Read c (if int (Suc k) > room then nat room else Suc k) sk s of
           ((b, Some e), sk1, s1) \<Rightarrow> (e, acc @ b, s1)
         | ((b, None), sk1, s1) \<Rightarrow> s3_drain_limited c k (room - int (length b)) sk1 (acc @ b) s1))"
  by pat_completeness auto
termination
proof (relation "measures [\<lambda>(c, k, l, sk, acc, s). (if sk_body sk = None then 1 else 0),
    \<lambda>(c, k, l, sk, acc, s). (case sk_body sk of None \<Rightarrow> 0 | Some rd \<Rightarrow> rest_size rd)]", goal_cases)
  case (2 c k l sk acc s p q b e sk1 s1)
  define m where "m = (if int (Suc k) > l then nat l else Suc k)"
  have "s3_Read c m sk s = ((b, None), sk1, s1)" using 2 by (simp add: m_def)
  moreover obtain j where "m = Suc j" using 2(1) by (cases m) (auto simp: m_def split: if_splits)
  ultimately have "s3_Read c (Suc j) sk s = ((b, None), sk1, s1)" by simp
  from s3_Read_continues [OF this] show ?case by (cases "sk_body sk") auto
qed simp

declare s3_drain_limited.simps [simp del]

definition rm :: "string \<Rightarrow> 's node \<Rightarrow> 's node" where
  "rm p nd = snd (on_disk (os_Remove p) nd)"

text \<open>The transfer into the temporary file, with the tests of its size; the error, if any.\<close>

definition fetch_to :: "nat \<Rightarrow> 's s3Storage \<Rightarrow> s3ReadSeeker \<Rightarrow> BlobInfo \<Rightarrow> string \<Rightarrow> 's node \<Rightarrow> string option \<times> 's node" where
  "fetch_to k st blob info tmp nd =
     (let (fin, out, s1) = s3_drain_limited (client st) k (maxDBSnapshotSize + 1) blob [] (remote nd);
          (wr, nd1) = on_disk (os_Write tmp out) (nd\<lparr>remote := s1\<rparr>);
          (cl, nd2) = on_disk os_Close nd1;
          written = int (length out) in
      (case (case wr of Some e \<Rightarrow> Some e | None \<Rightarrow> (case fin of EOF \<Rightarrow> None | ReadErr e \<Rightarrow> Some e)) of
         Some e \<Rightarrow> (Some (''downloading snapshot artifact.db: '' @ e), rm tmp nd2)
       | None \<Rightarrow>
      (case cl of
         Some e \<Rightarrow> (Some e, rm tmp nd2)
       | None \<Rightarrow>
           if written > maxDBSnapshotSize then
             (Some (''snapshot exceeds the '' @ show_int maxDBSnapshotSize @ '' byte limit''), rm tmp nd2)
           else if BlobSize info > 0 \<and> written \<noteq> BlobSize info then
             (Some (''snapshot is '' @ show_int written @ '' bytes, expected '' @ show_int (BlobSize info)),
              rm tmp nd2)
           else (None, nd2))))"

text \<open>Verify the temporary file, then rename it into place.\<close>

definition install :: "sqlite \<Rightarrow> string \<Rightarrow> string \<Rightarrow> 's node \<Rightarrow> string option \<times> 's node" where
  "install sq tmp dst nd =
     (case verifySnapshot sq tmp nd of
        (Some e, nd1) \<Rightarrow> (Some (''snapshot artifact.db is unusable: '' @ e), rm tmp nd1)
      | (None, nd1) \<Rightarrow>
     (case on_disk (os_Rename tmp dst) nd1 of
        (Some e, nd2) \<Rightarrow> (Some e, rm tmp nd2)
      | (None, nd2) \<Rightarrow> (None, nd2)))"

definition downloadSnapshot ::
  "sqlite \<Rightarrow> nat \<Rightarrow> 's s3Storage option \<Rightarrow> string \<Rightarrow> 's node \<Rightarrow> (blob_error + BlobInfo) \<times> 's node" where
  "downloadSnapshot sq k snapshotStore dst nd =
     (case snapshotStore of
        None \<Rightarrow> (Inl (BlobOther ''no snapshot store configured''), nd)
      | Some st \<Rightarrow>
     (case on_remote (s3_Get st snapshotKey) nd of
        (Inl e, nd1) \<Rightarrow> (Inl e, nd1)
      | (Inr (blob, info), nd1) \<Rightarrow>
     (case on_disk (os_MkdirAll (path_dir dst)) nd1 of
        (Some e, nd2) \<Rightarrow> (Inl (BlobOther e), nd2)
      | (None, nd2) \<Rightarrow>
     let tmp = dst @ ''.tmp'' in
     (case on_disk (os_Create tmp) nd2 of
        (Some e, nd3) \<Rightarrow> (Inl (BlobOther e), nd3)
      | (None, nd3) \<Rightarrow>
     (case fetch_to k st blob info tmp nd3 of
        (Some e, nd4) \<Rightarrow> (Inl (BlobOther e), nd4)
      | (None, nd4) \<Rightarrow>
     (case install sq tmp dst nd4 of
        (Some e, nd5) \<Rightarrow> (Inl (BlobOther e), nd5)
      | (None, nd5) \<Rightarrow> (Inr info, nd5)))))))"

definition sameSnapshot :: "BlobInfo \<Rightarrow> BlobInfo \<Rightarrow> bool" where
  "sameSnapshot a b =
     (if ETag a \<noteq> [] \<and> ETag b \<noteq> [] then ETag a = ETag b \<and> BlobSize a = BlobSize b
      else BlobSize a = BlobSize b \<and> ModTime a = ModTime b)"

text \<open>\<open>None\<close> stands for the empty reason: nothing speaks against publishing.\<close>

definition snapshotLooksEmpty ::
  "config \<Rightarrow> 's s3Storage option \<Rightarrow> int \<Rightarrow> 's node \<Rightarrow> (blob_error + string option) \<times> 's node" where
  "snapshotLooksEmpty cfg snapshotStore rows nd =
     (if rows > 0 \<or> dbRestoreMode cfg = dbRestoreIgnore then (Inr None, nd)
      else
        (case headSnapshot snapshotStore nd of
           (Inl BlobNotFound, nd1) \<Rightarrow> (Inr None, nd1)
         | (Inl e, nd1) \<Rightarrow> (Inl e, nd1)
         | (Inr info, nd1) \<Rightarrow>
             if BlobSize info = 0 then (Inr None, nd1)
             else
               (Inr (Some (''this database is empty while the published snapshot holds data (''
                  @ show_int (BlobSize info)
                  @ '' bytes); set ART_DB_RESTORE=ignore if the empty database is intended'')), nd1)))"

end
