(* ===== verification/SnapshotLaws.thy ===== *)
theory SnapshotLaws
  imports Snapshot
begin

text \<open>
  What the operations of \<open>Snapshot\<close> change and what they deliver: only a verified snapshot ever
  replaces a database file, and with a client that keeps its documentation it is the published
  object, byte for byte.
\<close>

section \<open>What a snapshot file has to be\<close>

definition snapshot_ok :: "sqlite \<Rightarrow> bytes \<Rightarrow> bool" where
  "snapshot_ok sq b \<longleftrightarrow> quick_check sq b = Inr ''ok''
     \<and> (case parse_db sq b of
          Inl _ \<Rightarrow> False
        | Inr d \<Rightarrow> user_version d = schemaVersion \<and> \<not> Option.is_none (tabs d))"

lemma snapshot_okD:
  "snapshot_ok sq b \<Longrightarrow> parse_db sq b = Inr d \<Longrightarrow> user_version d = schemaVersion \<and> (\<exists>t. tabs d = Some t)"
  by (cases "tabs d") (simp_all add: snapshot_ok_def)

section \<open>Statements\<close>

lemma next_sql_keeps: "next_sql nd = (f, nd1) \<Longrightarrow> disk nd1 = disk nd \<and> remote nd1 = remote nd \<and> ticks nd1 = ticks nd"
  by (auto simp: next_sql_def split: list.splits)

lemma h_query_keeps:
  assumes "h_query q h nd = (r, nd1)"
  shows "disk nd1 = disk nd \<and> remote nd1 = remote nd \<and> ticks nd1 = ticks nd
    \<and> (\<forall>x. r = Inr x \<longrightarrow> (\<exists>d. h_db h = Inr d \<and> q d = Inr x))"
proof -
  obtain f nd2 where "next_sql nd = (f, nd2)" by (metis prod.collapse)
  with assms next_sql_keeps [OF this] show ?thesis
    by (cases f; cases "h_db h") (auto simp: h_query_def)
qed

lemma open_readonly:
  assumes "openSQLite sq path True nd = (r, nd1)"
  shows "disk nd1 = disk nd \<and> remote nd1 = remote nd \<and> ticks nd1 = ticks nd
    \<and> (\<forall>h. r = Inr h \<longrightarrow> file_at (disk nd) path = Some (h_bytes h) \<and> h_readOnly h
         \<and> h_db h = parse_db sq (h_bytes h))"
proof -
  obtain f nd2 where "next_sql nd = (f, nd2)" by (metis prod.collapse)
  with assms next_sql_keeps [OF this] show ?thesis
    by (cases f) (auto simp: openSQLite_def split: option.splits)
qed

lemma count_files_ok: "count_files d = Inr n \<Longrightarrow> \<not> Option.is_none (tabs d)"
  by (auto simp: count_files_def split: option.splits)

lemma verifySnapshot_ok:
  assumes "verifySnapshot sq path nd = (r, nd1)"
  shows "disk nd1 = disk nd \<and> remote nd1 = remote nd
    \<and> (r = None \<longrightarrow> (\<exists>b. file_at (disk nd) path = Some b \<and> snapshot_ok sq b))"
proof -
  obtain rh nd2 where o1: "openSQLite sq path True nd = (rh, nd2)" by (metis prod.collapse)
  note k1 = open_readonly [OF o1]
  show ?thesis
  proof (cases rh)
    case (Inl e)
    with assms o1 k1 show ?thesis by (auto simp: verifySnapshot_def)
  next
    case (Inr h)
    obtain rc nd3 where q1: "h_query (\<lambda>_. quick_check sq (h_bytes h)) h nd2 = (rc, nd3)" by (metis prod.collapse)
    obtain rv nd4 where q2: "h_query (\<lambda>d. Inr (user_version d)) h nd3 = (rv, nd4)" by (metis prod.collapse)
    obtain rn nd5 where q3: "h_query count_files h nd4 = (rn, nd5)" by (metis prod.collapse)
    note ks = h_query_keeps [OF q1] h_query_keeps [OF q2] h_query_keeps [OF q3]
    note run = assms [unfolded verifySnapshot_def o1 prod.case Inr sum.case q1 q2 q3]
    have keep: "disk nd1 = disk nd \<and> remote nd1 = remote nd"
      using run k1 ks by (auto simp: q2 q3 split: sum.splits if_splits)
    moreover have "snapshot_ok sq (h_bytes h)" if "r = None"
    proof -
      have "rc = Inr ''ok''" "rv = Inr schemaVersion" "\<exists>n. rn = Inr n"
        using run that by (auto simp: q2 q3 split: sum.splits if_splits)
      with ks obtain d n where "quick_check sq (h_bytes h) = Inr ''ok''"
        "h_db h = Inr d" "user_version d = schemaVersion" "count_files d = Inr n" by auto
      moreover then have "parse_db sq (h_bytes h) = Inr d" using k1 Inr by simp
      ultimately show ?thesis using count_files_ok by (simp add: snapshot_ok_def)
    qed
    ultimately show ?thesis using k1 Inr by auto
  qed
qed

section \<open>The store\<close>

lemma s3_drain_limited_ok:
  assumes "s3_documented c obj" and "sk_ok x sk" and "obj s (sk_bucket sk, sk_key sk) = Some x"
    and "sk_pos sk \<le> sk_size sk" and "s3_drain_limited c k room sk acc s = (e, out, s1)"
  shows "obj s1 = obj s \<and> (\<exists>got. out = acc @ got
    \<and> (e = EOF \<longrightarrow> got = drop (nat (sk_pos sk)) x \<or> room \<le> int (length got)))"
  using assms
proof (induction c k room sk acc s rule: s3_drain_limited.induct)
  case (1 c k room sk acc s)
  define m where "m = (if int (Suc k) > room then nat room else Suc k)"
  obtain b en sk2 s2 where r: "s3_Read c m sk s = ((b, en), sk2, s2)" by (metis prod.collapse)
  note ok = s3_Read_ok [OF "1.prems"(1-3) r "1.prems"(4)]
  note run = "1.prems"(5) [unfolded s3_drain_limited.simps [of c k room sk acc s], folded m_def,
      unfolded r prod.case]
  show ?case
  proof (cases "room \<le> 0")
    case True
    with run show ?thesis by simp
  next
    case False
    show ?thesis
    proof (cases en)
      case (Some e1)
      with run False have "e = e1" "out = acc @ b" "s1 = s2" by simp_all
      moreover have "drop (nat (sk_pos sk2)) x = []" if "e1 = EOF"
        using ok that Some by (simp add: sk_ok_def)
      ultimately show ?thesis using ok by auto
    next
      case None
      with run False
      have rec: "s3_drain_limited c k (room - int (length b)) sk2 (acc @ b) s2 = (e, out, s1)" by simp
      have "obj s2 (sk_bucket sk2, sk_key sk2) = Some x" using ok "1.prems"(3) by simp
      then obtain got where "obj s1 = obj s2" "out = acc @ b @ got"
        "e = EOF \<longrightarrow> got = drop (nat (sk_pos sk2)) x \<or> room - int (length b) \<le> int (length got)"
        using "1.IH" [of "(b, en)" "(sk2, s2)" b en sk2 s2] r [unfolded m_def] None ok "1.prems"(1) False rec
        by auto
      with ok show ?thesis by auto
    qed
  qed
qed

lemma headSnapshot_keeps: "headSnapshot st nd = (r, nd1) \<Longrightarrow> disk nd1 = disk nd"
  by (auto simp: headSnapshot_def on_remote_def split: option.splits sum.splits prod.splits)

lemma headSnapshot_look:
  assumes "s3_documented (client st) obj" and "headSnapshot (Some st) nd = (r, nd1)"
  shows "obj (remote nd1) = obj (remote nd)
    \<and> (r = Inl BlobNotFound \<longrightarrow> s3_look obj st (remote nd) snapshotKey = None)
    \<and> (\<forall>info. r = Inr info \<longrightarrow>
         (\<exists>x. s3_look obj st (remote nd) snapshotKey = Some x \<and> BlobSize info = int (length x)))"
proof -
  obtain g s1 where g: "s3_Get st snapshotKey (remote nd) = (g, s1)" by (metis prod.collapse)
  obtain h s2 where h: "HeadObject (client st) (bucket st) (objectKey st snapshotKey) (remote nd) = (h, s2)"
    by (metis prod.collapse)
  note doc = head_documented [OF assms(1) h]
  have "obj s1 = obj (remote nd)" "g = Inl BlobNotFound \<Longrightarrow> s3_look obj st (remote nd) snapshotKey = None"
    using g h doc by (auto simp: s3_Get_def s3_look_def Let_def split: sum.splits if_splits)
  moreover have "\<exists>x. s3_look obj st (remote nd) snapshotKey = Some x \<and> BlobSize info = int (length x)"
    if "g = Inr (blob, info)" for blob info
    using s3_Get_ok [OF assms(1), of snapshotKey "remote nd" blob info s1] g that
    by (auto simp: s3_look_def)
  ultimately show ?thesis using assms(2) g
    by (auto simp: headSnapshot_def on_remote_def split: sum.splits)
qed

section \<open>The temporary file\<close>

lemma rm_keeps: "remote (rm p nd) = remote nd" "q \<noteq> p \<Longrightarrow> file_at (disk (rm p nd)) q = file_at (disk nd) q"
  by (auto simp: rm_def on_disk_def os_Remove_snd split: prod.splits dest: os_Remove_file [of p _ _ _ q])

lemma fetch_to_keeps:
  assumes "fetch_to k st blob info tmp nd = (r, nd1)"
  shows "(\<forall>q. q \<noteq> tmp \<longrightarrow> file_at (disk nd1) q = file_at (disk nd) q)
    \<and> (\<exists>fin out. s3_drain_limited (client st) k (maxDBSnapshotSize + 1) blob [] (remote nd) = (fin, out, remote nd1)
        \<and> (r = None \<longrightarrow> fin = EOF \<and> int (length out) \<le> maxDBSnapshotSize \<and> file_at (disk nd1) tmp = Some out))"
proof -
  obtain fin out s1 where d: "s3_drain_limited (client st) k (maxDBSnapshotSize + 1) blob [] (remote nd) = (fin, out, s1)"
    by (metis prod.collapse)
  obtain wr d2 where w: "os_Write tmp out (disk nd) = (wr, d2)" by (metis prod.collapse)
  obtain cl d3 where c: "os_Close d2 = (cl, d3)" by (metis prod.collapse)
  have w2: "(q \<noteq> tmp \<longrightarrow> file_at d2 q = file_at (disk nd) q) \<and> (wr = None \<longrightarrow> file_at d2 tmp = Some out)" for q
    using os_Write_file [OF w, of q] .
  note c2 = os_Close_file [OF c]
  define nda where "nda = nd\<lparr>remote := s1, disk := d2\<rparr>"
  define ndb where "ndb = nd\<lparr>remote := s1, disk := d3\<rparr>"
  have ops: "on_disk (os_Write tmp out) (nd\<lparr>remote := s1\<rparr>) = (wr, nda)" "on_disk os_Close nda = (cl, ndb)"
    using w c by (simp_all add: on_disk_def nda_def ndb_def)
  have at: "disk ndb = d3" "remote ndb = s1" by (simp_all add: ndb_def)
  note run = assms [unfolded fetch_to_def d Let_def prod.case ops]
  show ?thesis
    using run w2 c2 at
    by (auto simp: d rm_keeps split: option.splits read_end.splits if_splits)
qed

lemma install_keeps:
  assumes "install sq tmp dst nd = (r, nd1)" and "tmp \<noteq> dst"
  shows "remote nd1 = remote nd
    \<and> (\<forall>q. q \<noteq> tmp \<longrightarrow> q \<noteq> dst \<longrightarrow> file_at (disk nd1) q = file_at (disk nd) q)
    \<and> (r \<noteq> None \<longrightarrow> file_at (disk nd1) dst = file_at (disk nd) dst)
    \<and> (r = None \<longrightarrow> file_at (disk nd1) dst = file_at (disk nd) tmp
         \<and> (\<exists>b. file_at (disk nd) tmp = Some b \<and> snapshot_ok sq b))"
proof -
  obtain v nd2 where v: "verifySnapshot sq tmp nd = (v, nd2)" by (metis prod.collapse)
  note ver = verifySnapshot_ok [OF v]
  obtain e d3 where rn: "os_Rename tmp dst (disk nd2) = (e, d3)" by (metis prod.collapse)
  have frame: "(q \<noteq> tmp \<longrightarrow> q \<noteq> dst \<longrightarrow> file_at d3 q = file_at (disk nd2) q)
    \<and> (e = None \<longrightarrow> file_at d3 dst = file_at (disk nd2) tmp \<and> file_at (disk nd2) tmp \<noteq> None)
    \<and> (e \<noteq> None \<longrightarrow> file_at d3 = file_at (disk nd2))" for q
    using os_Rename_file [OF rn assms(2), of q] .
  show ?thesis
    using assms v ver rn frame
    by (cases v; cases e) (auto simp: install_def on_disk_def rm_keeps)
qed

section \<open>The download\<close>

lemma download_keeps:
  assumes "downloadSnapshot sq k sst dst nd = (r, nd1)"
  shows "(\<forall>q. q \<noteq> dst \<longrightarrow> q \<noteq> dst @ ''.tmp'' \<longrightarrow> file_at (disk nd1) q = file_at (disk nd) q)
    \<and> (\<forall>e. r = Inl e \<longrightarrow> file_at (disk nd1) dst = file_at (disk nd) dst)
    \<and> (\<forall>info. r = Inr info \<longrightarrow> (\<exists>b. file_at (disk nd1) dst = Some b \<and> snapshot_ok sq b))"
proof (cases sst)
  case None
  with assms show ?thesis by (auto simp: downloadSnapshot_def)
next
  case (Some st)
  let ?tmp = "dst @ ''.tmp''"
  obtain g nd2 where g: "on_remote (s3_Get st snapshotKey) nd = (g, nd2)" by (metis prod.collapse)
  then have g2: "disk nd2 = disk nd" by (auto simp: on_remote_def split: prod.splits)
  show ?thesis
  proof (cases g)
    case (Inl e)
    with assms Some g g2 show ?thesis by (auto simp: downloadSnapshot_def)
  next
    case (Inr p)
    obtain blob info where p: "p = (blob, info)" by (cases p)
    obtain m d3 where m: "os_MkdirAll (path_dir dst) (disk nd2) = (m, d3)" by (metis prod.collapse)
    obtain c d4 where c: "os_Create ?tmp d3 = (c, d4)" by (metis prod.collapse)
    define nd4 where "nd4 = nd2\<lparr>disk := d4\<rparr>"
    obtain f nd5 where f: "fetch_to k st blob info ?tmp nd4 = (f, nd5)" by (metis prod.collapse)
    obtain i nd6 where i: "install sq ?tmp dst nd5 = (i, nd6)" by (metis prod.collapse)
    have m2: "file_at d3 = file_at (disk nd)" using os_MkdirAll_file [OF m] g2 by simp
    have c2: "q \<noteq> ?tmp \<Longrightarrow> file_at (disk nd4) q = file_at d3 q" for q
      using os_Create_file [OF c] by (simp add: nd4_def)
    note f2 = fetch_to_keeps [OF f]
    have i2: "remote nd6 = remote nd5
      \<and> (\<forall>q. q \<noteq> ?tmp \<longrightarrow> q \<noteq> dst \<longrightarrow> file_at (disk nd6) q = file_at (disk nd5) q)
      \<and> (i \<noteq> None \<longrightarrow> file_at (disk nd6) dst = file_at (disk nd5) dst)
      \<and> (i = None \<longrightarrow> file_at (disk nd6) dst = file_at (disk nd5) ?tmp
           \<and> (\<exists>b. file_at (disk nd5) ?tmp = Some b \<and> snapshot_ok sq b))"
      using install_keeps [OF i] by simp
    note run = assms [unfolded downloadSnapshot_def Some option.case g prod.case Inr p sum.case
        on_disk_def m Let_def]
    consider "m \<noteq> None" | "m = None" "c \<noteq> None" | "m = None" "c = None" by blast
    then show ?thesis
    proof cases
      case 1
      with run m2 show ?thesis by auto
    next
      case 2
      with run c m2 c2 [unfolded nd4_def] show ?thesis by auto
    next
      case 3
      have fin: "(case f of Some e \<Rightarrow> (Inl (BlobOther e), nd5)
          | None \<Rightarrow> (case i of Some e \<Rightarrow> (Inl (BlobOther e), nd6) | None \<Rightarrow> (Inr info, nd6))) = (r, nd1)"
        using run 3 c f i by (simp add: nd4_def split: option.splits)
      show ?thesis
        using fin f2 i2 m2 c2 by (cases f; cases i) auto
    qed
  qed
qed


lemma download_remote:
  assumes "s3_documented (client st) obj" and "downloadSnapshot sq k (Some st) dst nd = (r, nd1)"
  shows "obj (remote nd1) = obj (remote nd)
    \<and> (\<forall>info. r = Inr info \<longrightarrow> file_at (disk nd1) dst = s3_look obj st (remote nd) snapshotKey
         \<and> (\<exists>b. file_at (disk nd1) dst = Some b \<and> int (length b) = BlobSize info))"
proof -
  let ?tmp = "dst @ ''.tmp''"
  obtain g s2 where g: "s3_Get st snapshotKey (remote nd) = (g, s2)" by (metis prod.collapse)
  define nd2 where "nd2 = nd\<lparr>remote := s2\<rparr>"
  have g2: "on_remote (s3_Get st snapshotKey) nd = (g, nd2)" by (simp add: on_remote_def g nd2_def)
  show ?thesis
  proof (cases g)
    case (Inl e)
    obtain h s3 where h: "HeadObject (client st) (bucket st) (objectKey st snapshotKey) (remote nd) = (h, s3)"
      by (metis prod.collapse)
    have "obj s2 = obj (remote nd)"
      using head_documented [OF assms(1) h] g h
      by (auto simp: s3_Get_def Let_def split: sum.splits)
    with assms(2) g2 Inl show ?thesis by (auto simp: downloadSnapshot_def nd2_def)
  next
    case (Inr p)
    obtain blob info where p: "p = (blob, info)" by (cases p)
    obtain x where x: "obj (remote nd) (bucket st, objectKey st snapshotKey) = Some x"
      "obj s2 = obj (remote nd)" "BlobSize info = int (length x)" "sk_pos blob = 0"
      "sk_size blob = int (length x)" "sk_bucket blob = bucket st"
      "sk_key blob = objectKey st snapshotKey" "sk_ok x blob"
      using s3_Get_ok [OF assms(1)] g Inr p by blast
    obtain m d3 where m: "os_MkdirAll (path_dir dst) (disk nd2) = (m, d3)" by (metis prod.collapse)
    obtain c d4 where c: "os_Create ?tmp d3 = (c, d4)" by (metis prod.collapse)
    define nd4 where "nd4 = nd2\<lparr>disk := d4\<rparr>"
    have ops: "on_disk (os_MkdirAll (path_dir dst)) nd2 = (m, nd2\<lparr>disk := d3\<rparr>)"
      "on_disk (os_Create ?tmp) (nd2\<lparr>disk := d3\<rparr>) = (c, nd4)"
      using m c by (simp_all add: on_disk_def nd4_def)
    obtain f nd5 where f: "fetch_to k st blob info ?tmp nd4 = (f, nd5)" by (metis prod.collapse)
    obtain i nd6 where i: "install sq ?tmp dst nd5 = (i, nd6)" by (metis prod.collapse)
    have rem4: "remote nd4 = s2" by (simp add: nd4_def nd2_def)
    obtain fin out where fo: "s3_drain_limited (client st) k (maxDBSnapshotSize + 1) blob [] s2 = (fin, out, remote nd5)"
      "f = None \<longrightarrow> fin = EOF \<and> int (length out) \<le> maxDBSnapshotSize \<and> file_at (disk nd5) ?tmp = Some out"
      using fetch_to_keeps [OF f] rem4 by auto
    have at: "obj s2 (sk_bucket blob, sk_key blob) = Some x" "sk_pos blob \<le> sk_size blob"
      using x by simp_all
    have got: "obj (remote nd5) = obj s2"
      "fin = EOF \<longrightarrow> out = x \<or> maxDBSnapshotSize + 1 \<le> int (length out)"
      using s3_drain_limited_ok [OF assms(1) x(8) at fo(1)] x(4) by auto
    have i2: "remote nd6 = remote nd5" "i = None \<longrightarrow> file_at (disk nd6) dst = file_at (disk nd5) ?tmp"
      using install_keeps [OF i] by simp_all
    note run = assms(2) [unfolded downloadSnapshot_def option.case g2 prod.case Inr p sum.case ops Let_def]
    show ?thesis
      using run f i fo got i2 x rem4
      by (auto simp: ops s3_look_def nd2_def split: option.splits)
  qed
qed

end
