(* ===== verification/Boot.thy ===== *)
theory Boot
  imports SnapshotLaws "HOL-Library.Word"
begin

text \<open>
  How an instance gets its database: \<open>bootDatabase\<close> and \<open>startWithoutDatabase\<close> of \<open>server/db.go\<close>,
  the \<open>restore-db\<close> command of \<open>server/restore_db.go\<close> and the replica's refresh of
  \<open>server/db_replica.go\<close>. The lemmas say when a database may be replaced or started empty.
\<close>

section \<open>Booting\<close>

record snapshotReplica =
  r_interval :: int
  r_path :: string
  r_current :: BlobInfo
  loadedAt :: int
  generations :: "64 word"

datatype boot_error =
    StoreUnreachable blob_error
  | SnapshotPublished BlobInfo
  | BootFailed string

text \<open>A writer whose database file is absent.\<close>

definition startWithoutDatabase ::
  "sqlite \<Rightarrow> nat \<Rightarrow> config \<Rightarrow> 's s3Storage option \<Rightarrow> string \<Rightarrow> 's node \<Rightarrow> boot_error option \<times> 's node" where
  "startWithoutDatabase sq k cfg snapshotStore path nd =
     (if dbRestoreMode cfg = dbRestoreIgnore then (None, nd)
      else if dbRestoreMode cfg = dbRestoreAuto then
        if Option.is_none snapshotStore then (None, nd)
        else
          (case downloadSnapshot sq k snapshotStore path nd of
             (Inl e, nd1) \<Rightarrow> (Some (BootFailed (blob_error_text e)), nd1)
           | (Inr info, nd1) \<Rightarrow> (None, nd1))
      else if Option.is_none snapshotStore then (None, nd)
      else
        (case headSnapshot snapshotStore nd of
           (Inl BlobNotFound, nd1) \<Rightarrow> (None, nd1)
         | (Inl e, nd1) \<Rightarrow> (Some (StoreUnreachable e), nd1)
         | (Inr info, nd1) \<Rightarrow> (Some (SnapshotPublished info), nd1)))"

text \<open>The decision about the local file; a replica that downloads one starts to follow it.\<close>

definition prepareDatabase ::
  "sqlite \<Rightarrow> nat \<Rightarrow> config \<Rightarrow> 's s3Storage option \<Rightarrow> 's node \<Rightarrow>
     (boot_error + snapshotReplica option) \<times> 's node" where
  "prepareDatabase sq k cfg snapshotStore nd =
     (let path = databasePath cfg;
          (statErr, nd1) = on_disk (os_Stat path) nd;
          haveLocal = (statErr = None) in
      if readOnly (serving cfg) then
        if haveLocal then (Inr None, nd1)
        else if Option.is_none snapshotStore then
          (Inl (BootFailed
             ''read-only instance has no database and no snapshot to download: set ART_S3_BUCKET''), nd1)
        else
          (case downloadSnapshot sq k snapshotStore path nd1 of
             (Inl e, nd2) \<Rightarrow> (Inl (BootFailed (blob_error_text e)), nd2)
           | (Inr info, nd2) \<Rightarrow>
               (case clock_now nd2 of
                  (now, nd3) \<Rightarrow>
                    (Inr (Some \<lparr>r_interval = dbPollInterval cfg, r_path = path, r_current = info,
                                loadedAt = now, generations = 0\<rparr>), nd3)))
      else if haveLocal then (Inr None, nd1)
      else
        (case startWithoutDatabase sq k cfg snapshotStore path nd1 of
           (Some e, nd2) \<Rightarrow> (Inl e, nd2)
         | (None, nd2) \<Rightarrow> (Inr None, nd2)))"

text \<open>Open the file and apply the schema.\<close>

definition adoptDatabase :: "sqlite \<Rightarrow> config \<Rightarrow> 's node \<Rightarrow> (boot_error + handle) \<times> 's node" where
  "adoptDatabase sq cfg nd =
     (case openSQLite sq (databasePath cfg) (readOnly (serving cfg)) nd of
        (Inl e, nd1) \<Rightarrow> (Inl (BootFailed e), nd1)
      | (Inr h, nd1) \<Rightarrow>
     (case initSchema sq h nd1 of
        (Inl e, nd2) \<Rightarrow> (Inl (BootFailed (''initializing schema: '' @ e)), nd2)
      | (Inr h1, nd2) \<Rightarrow>
     (case checkSchemaVersion sq h1 (readOnly (serving cfg)) nd2 of
        (Inl e, nd3) \<Rightarrow> (Inl (BootFailed e), nd3)
      | (Inr h2, nd3) \<Rightarrow> (Inr h2, nd3))))"

definition bootDatabase ::
  "sqlite \<Rightarrow> nat \<Rightarrow> config \<Rightarrow> 's s3Storage option \<Rightarrow> 's node \<Rightarrow>
     (boot_error + handle \<times> snapshotReplica option) \<times> 's node" where
  "bootDatabase sq k cfg snapshotStore nd =
     (case prepareDatabase sq k cfg snapshotStore nd of
        (Inl e, nd1) \<Rightarrow> (Inl e, nd1)
      | (Inr replica, nd1) \<Rightarrow>
          (case adoptDatabase sq cfg nd1 of
             (Inl e, nd2) \<Rightarrow> (Inl e, nd2)
           | (Inr h, nd2) \<Rightarrow> (Inr (h, replica), nd2)))"

section \<open>The restore command\<close>

fun parse_force :: "string list \<Rightarrow> bool \<Rightarrow> bool option" where
  "parse_force [] f = Some f"
| "parse_force (s # rest) f =
     (case flag_body s of
        None \<Rightarrow> Some f
      | Some bd \<Rightarrow>
          if CHR ''='' = hd bd \<or> CHR ''-'' = hd bd then None
          else
            (let name = takeWhile (\<lambda>c. c \<noteq> CHR ''='') bd in
             if name \<noteq> ''force'' then None
             else if CHR ''='' \<in> set bd then
               (case go_ParseBool (drop (Suc (length name)) bd) of
                  None \<Rightarrow> None
                | Some v \<Rightarrow> parse_force rest v)
             else parse_force rest True))"

text \<open>The exit code; \<open>shared\<close> is what \<open>sharedS3Client\<close> answers. The messages are left out.\<close>

definition runRestoreCommand ::
  "sqlite \<Rightarrow> nat \<Rightarrow> config \<Rightarrow> 's s3_client result \<Rightarrow> string list \<Rightarrow> 's node \<Rightarrow> nat \<times> 's node" where
  "runRestoreCommand sq k cfg shared args nd =
     (case parse_force args False of
        None \<Rightarrow> (2, nd)
      | Some force \<Rightarrow>
     (case initSnapshotStore cfg shared of
        Inl e \<Rightarrow> (1, nd)
      | Inr snapshotStore \<Rightarrow>
          if Option.is_none snapshotStore then (1, nd) else
     (case headSnapshot snapshotStore nd of
        (Inl e, nd1) \<Rightarrow> (1, nd1)
      | (Inr info, nd1) \<Rightarrow>
     (case on_disk (os_Stat (databasePath cfg)) nd1 of
        (statErr, nd2) \<Rightarrow>
          if statErr = None \<and> \<not> force then (1, nd2) else
     (case on_disk (os_MkdirAll (uploadFolder cfg)) nd2 of
        (Some e, nd3) \<Rightarrow> (1, nd3)
      | (None, nd3) \<Rightarrow>
     (case downloadSnapshot sq k snapshotStore (databasePath cfg) nd3 of
        (Inl e, nd4) \<Rightarrow> (1, nd4)
      | (Inr _, nd4) \<Rightarrow> (0, nd4)))))))"

section \<open>The replica\<close>

text \<open>
  A round of \<open>snapshotReplica.refresh\<close> is split after the HEAD request, where the writer may
  publish: \<open>replica_check\<close> returns the description of a version other than the current one, and
  \<open>replica_load\<close> fetches, opens and swaps it in. \<open>h\<close> is the handle being served.
\<close>

definition replica_check ::
  "'s s3Storage option \<Rightarrow> snapshotReplica \<Rightarrow> 's node \<Rightarrow> BlobInfo option \<times> 's node" where
  "replica_check snapshotStore r nd =
     (case headSnapshot snapshotStore nd of
        (Inl e, nd1) \<Rightarrow> (None, nd1)
      | (Inr info, nd1) \<Rightarrow> (if sameSnapshot info (r_current r) then None else Some info, nd1))"

definition replica_load ::
  "sqlite \<Rightarrow> nat \<Rightarrow> 's s3Storage option \<Rightarrow> BlobInfo \<Rightarrow> snapshotReplica \<Rightarrow> handle \<Rightarrow> 's node \<Rightarrow>
     snapshotReplica \<times> handle \<times> 's node" where
  "replica_load sq k snapshotStore info r h nd =
     (case downloadSnapshot sq k snapshotStore (r_path r) nd of
        (Inl e, nd1) \<Rightarrow> (r, h, nd1)
      | (Inr _, nd1) \<Rightarrow>
     (case openSQLite sq (r_path r) True nd1 of
        (Inl e, nd2) \<Rightarrow> (r, h, nd2)
      | (Inr h1, nd2) \<Rightarrow>
     (case clock_now nd2 of
        (now, nd3) \<Rightarrow>
          (r\<lparr>r_current := info, loadedAt := now, generations := generations r + 1\<rparr>, h1, nd3))))"

definition refresh ::
  "sqlite \<Rightarrow> nat \<Rightarrow> 's s3Storage option \<Rightarrow> snapshotReplica \<Rightarrow> handle \<Rightarrow> 's node \<Rightarrow>
     snapshotReplica \<times> handle \<times> 's node" where
  "refresh sq k snapshotStore r h nd =
     (case replica_check snapshotStore r nd of
        (None, nd1) \<Rightarrow> (r, h, nd1)
      | (Some info, nd1) \<Rightarrow> replica_load sq k snapshotStore info r h nd1)"

definition age :: "snapshotReplica \<Rightarrow> int \<Rightarrow> int" where
  "age r now = now - loadedAt r"

definition databaseHealth_of :: "snapshotReplica option \<Rightarrow> int \<Rightarrow> DatabaseHealth" where
  "databaseHealth_of activeReplica now =
     (case activeReplica of
        None \<Rightarrow> \<lparr>SchemaVersion = schemaVersion, Snapshot = [], Generation = 0, AgeNanos = None\<rparr>
      | Some r \<Rightarrow> \<lparr>SchemaVersion = schemaVersion, Snapshot = snapshotKey,
                   Generation = uint (generations r), AgeNanos = Some (age r now)\<rparr>)"

end
