(* ===== verification/BootLaws.thy ===== *)
theory BootLaws
  imports Boot
begin

text \<open>
  When a database may be replaced or started empty: the laws of \<open>bootDatabase\<close>,
  \<open>runRestoreCommand\<close> and \<open>refresh\<close>.
\<close>

section \<open>Adopting a file\<close>

definition adopted :: "dbfile \<Rightarrow> dbfile" where
  "adopted d = \<lparr>tabs = Some (case tabs d of None \<Rightarrow> empty_tables | Some t \<Rightarrow> t),
                user_version = schemaVersion\<rparr>"

lemma adopted_version: "user_version (adopted d) = schemaVersion"
  and adopted_tabs: "tabs (adopted d) = Some (case tabs d of None \<Rightarrow> empty_tables | Some t \<Rightarrow> t)"
  by (simp_all add: adopted_def)

lemma adopted_id: "user_version d = schemaVersion \<Longrightarrow> tabs d = Some t \<Longrightarrow> adopted d = d"
  by (cases d) (simp add: adopted_def)

text \<open>What a writer's statements do to the disk: at most its own file changes, and it holds what the handle shows.\<close>

definition only_at :: "string \<Rightarrow> 's node \<Rightarrow> 's node \<Rightarrow> bool" where
  "only_at p nd nd1 \<longleftrightarrow> remote nd1 = remote nd \<and> (\<forall>q. q \<noteq> p \<longrightarrow> file_at (disk nd1) q = file_at (disk nd) q)"

definition holds :: "sqlite \<Rightarrow> string \<Rightarrow> dbfile \<Rightarrow> 's node \<Rightarrow> bool" where
  "holds sq p d nd \<longleftrightarrow> (\<exists>b. file_at (disk nd) p = Some b \<and> parse_db sq b = Inr d)"

lemma only_at_same: "disk nd1 = disk nd \<Longrightarrow> remote nd1 = remote nd \<Longrightarrow> only_at p nd nd1"
  by (simp add: only_at_def)

lemma only_at_trans: "only_at p nd nd1 \<Longrightarrow> only_at p nd1 nd2 \<Longrightarrow> only_at p nd nd2"
  by (simp add: only_at_def)

lemma holds_same: "disk nd1 = disk nd \<Longrightarrow> holds sq p d nd \<Longrightarrow> holds sq p d nd1"
  by (simp add: holds_def)

lemma h_write_ok:
  assumes "h_write sq d h nd = (h1, nd1)"
  shows "only_at (h_path h) nd nd1" and "h1 = h\<lparr>h_db := Inr d\<rparr>"
    and "sqlite_documented sq \<Longrightarrow> file_at (disk nd) (h_path h) \<noteq> None \<Longrightarrow> holds sq (h_path h) d nd1"
  using assms by (auto simp: h_write_def only_at_def holds_def file_at_set sqlite_documented_def split: option.splits)

lemma initSchema_ok:
  assumes "initSchema sq h nd = (r, nd1)"
  shows "only_at (h_path h) nd nd1 \<and> (h_readOnly h \<or> isl r \<longrightarrow> disk nd1 = disk nd)
    \<and> (\<forall>h1. r = Inr h1 \<longrightarrow> h_path h1 = h_path h \<and> h_bytes h1 = h_bytes h \<and> h_readOnly h1 = h_readOnly h
         \<and> h_changes h1 = h_changes h
         \<and> (\<exists>d t. h_db h = Inr d \<and> h_db h1 = Inr (d\<lparr>tabs := Some t\<rparr>)
              \<and> (case tabs d of None \<Rightarrow> \<not> h_readOnly h \<and> t = empty_tables | Some u \<Rightarrow> t = u)
              \<and> (sqlite_documented sq \<longrightarrow> holds sq (h_path h) d nd \<longrightarrow> holds sq (h_path h) (d\<lparr>tabs := Some t\<rparr>) nd1)))"
proof -
  obtain q nd2 where q: "h_query Inr h nd = (q, nd2)" by (metis prod.collapse)
  then have k: "disk nd2 = disk nd" "remote nd2 = remote nd" "\<And>x. q = Inr x \<Longrightarrow> h_db h = Inr x"
    using h_query_keeps [OF q] by auto
  show ?thesis
  proof (cases q)
    case (Inl e)
    with assms q k show ?thesis by (auto simp: initSchema_def only_at_same)
  next
    case (Inr d)
    then have d: "h_db h = Inr d" using k(3) by simp
    show ?thesis
    proof (cases "tabs d")
      case (Some t)
      then have same: "d\<lparr>tabs := Some t\<rparr> = d" by (cases d) simp
      have "r = Inr h" "nd1 = nd2" using Some assms q Inr by (simp_all add: initSchema_def)
      moreover have "holds sq (h_path h) (d\<lparr>tabs := Some t\<rparr>) nd2" if "holds sq (h_path h) d nd"
        unfolding same by (rule holds_same [OF k(1) that])
      moreover have "h_db h = Inr (d\<lparr>tabs := Some t\<rparr>)" unfolding same by (rule d)
      ultimately show ?thesis using Some k d by (auto simp: only_at_same)
    next
      case None
      obtain h1 nd3 where w: "h_write sq (d\<lparr>tabs := Some empty_tables\<rparr>) h nd2 = (h1, nd3)" by (metis prod.collapse)
      show ?thesis
      proof (cases "h_readOnly h")
        case True
        with None assms q k Inr show ?thesis by (auto simp: initSchema_def only_at_same)
      next
        case False
        then have r: "r = Inr h1" "nd1 = nd3" using None assms q Inr w by (simp_all add: initSchema_def)
        have "only_at (h_path h) nd nd3" using only_at_trans [OF only_at_same [OF k(1,2)] h_write_ok(1) [OF w]] .
        moreover have "holds sq (h_path h) (d\<lparr>tabs := Some empty_tables\<rparr>) nd3"
          if "sqlite_documented sq" "holds sq (h_path h) d nd"
          using h_write_ok(3) [OF w that(1)] that(2) k(1) by (auto simp: holds_def)
        ultimately show ?thesis using r h_write_ok(2) [OF w] None False d by simp
      qed
    qed
  qed
qed

lemma checkSchema_ok:
  assumes "checkSchemaVersion sq h ro nd = (r, nd1)"
  shows "only_at (h_path h) nd nd1 \<and> (ro \<or> isl r \<longrightarrow> disk nd1 = disk nd)
    \<and> (\<forall>h1. r = Inr h1 \<longrightarrow> h_path h1 = h_path h \<and> h_bytes h1 = h_bytes h \<and> h_readOnly h1 = h_readOnly h
         \<and> h_changes h1 = h_changes h
         \<and> (\<exists>d. h_db h = Inr d \<and> h_db h1 = Inr (d\<lparr>user_version := schemaVersion\<rparr>)
              \<and> user_version d \<le> schemaVersion \<and> (ro \<longrightarrow> user_version d = schemaVersion)
              \<and> (sqlite_documented sq \<longrightarrow> holds sq (h_path h) d nd
                   \<longrightarrow> holds sq (h_path h) (d\<lparr>user_version := schemaVersion\<rparr>) nd1)))"
proof -
  obtain q nd2 where q: "h_query (\<lambda>d. Inr (d, user_version d)) h nd = (q, nd2)" by (metis prod.collapse)
  obtain f nd3 where f: "next_sql nd2 = (f, nd3)" by (metis prod.collapse)
  have k: "disk nd2 = disk nd" "remote nd2 = remote nd" "disk nd3 = disk nd" "remote nd3 = remote nd"
    using h_query_keeps [OF q] next_sql_keeps [OF f] by simp_all
  show ?thesis
  proof (cases q)
    case (Inl e)
    with assms q k show ?thesis by (auto simp: checkSchemaVersion_def only_at_same)
  next
    case (Inr p)
    then obtain d v where p: "q = Inr (d, v)" by (cases p) auto
    with h_query_keeps [OF q] have d: "h_db h = Inr d" "v = user_version d" by auto
    show ?thesis
    proof (cases "v = schemaVersion")
      case True
      then have same: "d\<lparr>user_version := schemaVersion\<rparr> = d" using d by (cases d) simp
      have "r = Inr h" "nd1 = nd2" using True assms q p by (simp_all add: checkSchemaVersion_def)
      moreover have "holds sq (h_path h) (d\<lparr>user_version := schemaVersion\<rparr>) nd2" if "holds sq (h_path h) d nd"
        unfolding same by (rule holds_same [OF k(1) that])
      moreover have "h_db h = Inr (d\<lparr>user_version := schemaVersion\<rparr>)" unfolding same by (rule d(1))
      ultimately show ?thesis using True k d by (auto simp: only_at_same)
    next
      case False
      obtain h1 nd4 where w: "h_write sq (d\<lparr>user_version := schemaVersion\<rparr>) h nd3 = (h1, nd4)" by (metis prod.collapse)
      show ?thesis
      proof (cases "ro \<or> v > schemaVersion \<or> f \<noteq> None")
        case True
        with False assms q k p d f show ?thesis
          by (auto simp: checkSchemaVersion_def only_at_same split: if_splits option.splits)
      next
        case ok: False
        then have r: "r = Inr h1" "nd1 = nd4" using False assms q p f w by (simp_all add: checkSchemaVersion_def)
        have "only_at (h_path h) nd nd4" using only_at_trans [OF only_at_same [OF k(3,4)] h_write_ok(1) [OF w]] .
        moreover have "holds sq (h_path h) (d\<lparr>user_version := schemaVersion\<rparr>) nd4"
          if "sqlite_documented sq" "holds sq (h_path h) d nd"
          using h_write_ok(3) [OF w that(1)] that(2) k(3) by (auto simp: holds_def)
        ultimately show ?thesis using r h_write_ok(2) [OF w] ok d by simp
      qed
    qed
  qed
qed

lemma open_writer:
  assumes "openSQLite sq path False nd = (r, nd1)"
  shows "only_at path nd nd1 \<and> (isl r \<longrightarrow> disk nd1 = disk nd)
    \<and> (\<forall>h. r = Inr h \<longrightarrow> h_path h = path \<and> \<not> h_readOnly h \<and> h_changes h = 0
         \<and> (\<exists>d. h_db h = Inr d \<and> (case file_at (disk nd) path of
                None \<Rightarrow> d = blank_db | Some b \<Rightarrow> parse_db sq b = Inr d)
              \<and> (sqlite_documented sq \<longrightarrow> holds sq path d nd1)))"
proof -
  obtain f nd2 where f: "next_sql nd = (f, nd2)" by (metis prod.collapse)
  have k: "disk nd2 = disk nd" "remote nd2 = remote nd" using next_sql_keeps [OF f] by simp_all
  show ?thesis
  proof (cases "f \<noteq> None")
    case True
    with assms f k show ?thesis by (auto simp: openSQLite_def only_at_same)
  next
    case False
    define nd3 where "nd3 = nd2\<lparr>disk := set_entry path (FFile [] (fs_now (disk nd2))) (disk nd2)\<rparr>"
    have nd3: "only_at path nd nd3" "file_at (disk nd3) path \<noteq> None"
      using k by (simp_all add: nd3_def only_at_def file_at_set)
    show ?thesis
    proof (cases "file_at (disk nd) path")
      case None
      obtain h nd4 where w: "h_write sq blank_db
          \<lparr>h_path = path, h_readOnly = False, h_bytes = [], h_db = Inr blank_db, h_changes = 0\<rparr> nd3 = (h, nd4)"
        by (metis prod.collapse)
      have "r = Inr h" "nd1 = nd4" using assms f False None k(1) w by (simp_all add: openSQLite_def nd3_def)
      with only_at_trans [OF nd3(1), of nd4] nd3(2) h_write_ok [OF w] None show ?thesis by simp
    next
      case (Some b)
      show ?thesis
      proof (cases "parse_db sq b")
        case (Inl e)
        with assms f False Some k show ?thesis by (auto simp: openSQLite_def only_at_same)
      next
        case (Inr d)
        obtain h nd4 where w: "h_write sq d
            \<lparr>h_path = path, h_readOnly = False, h_bytes = b, h_db = Inr d, h_changes = 0\<rparr> nd2 = (h, nd4)"
          by (metis prod.collapse)
        have "r = Inr h" "nd1 = nd4" using assms f False Some Inr k(1) w by (simp_all add: openSQLite_def)
        with only_at_trans [OF only_at_same [OF k], of path nd4] k(1) h_write_ok [OF w] Some Inr show ?thesis by simp
      qed
    qed
  qed
qed

text \<open>The stages a writer's file goes through while it is adopted: nothing that was in it is lost.\<close>

definition adopting :: "dbfile \<Rightarrow> dbfile \<Rightarrow> bool" where
  "adopting d d1 \<longleftrightarrow> (tabs d1 = tabs d \<or> tabs d = None \<and> tabs d1 = Some empty_tables)
     \<and> user_version d1 \<in> {user_version d, schemaVersion}"

lemma adopt_writer:
  assumes "adoptDatabase sq cfg nd = (r, nd1)" and "\<not> readOnly (serving cfg)"
  shows "only_at (databasePath cfg) nd nd1
    \<and> (\<forall>h. r = Inr h \<longrightarrow> \<not> h_readOnly h \<and> h_changes h = 0
         \<and> (\<exists>d. h_db h = Inr (adopted d) \<and> user_version d \<le> schemaVersion \<and> (case file_at (disk nd) (databasePath cfg) of
                None \<Rightarrow> d = blank_db | Some b \<Rightarrow> parse_db sq b = Inr d)
              \<and> (sqlite_documented sq \<longrightarrow> holds sq (databasePath cfg) (adopted d) nd1)))
    \<and> (\<forall>b. file_at (disk nd) (databasePath cfg) = Some b \<longrightarrow> isl r \<longrightarrow>
         file_at (disk nd1) (databasePath cfg) = Some b
         \<or> (\<exists>d d1. parse_db sq b = Inr d \<and> adopting d d1
              \<and> (sqlite_documented sq \<longrightarrow> holds sq (databasePath cfg) d1 nd1)))"
proof -
  let ?p = "databasePath cfg"
  obtain o1 nd2 where 1: "openSQLite sq ?p False nd = (o1, nd2)" by (metis prod.collapse)
  note w = open_writer [OF 1]
  show ?thesis
  proof (cases o1)
    case (Inl e)
    with assms 1 w show ?thesis by (auto simp: adoptDatabase_def)
  next
    case (Inr h)
    obtain d where h: "h_path h = ?p" "\<not> h_readOnly h" "h_changes h = 0" "h_db h = Inr d"
      "case file_at (disk nd) ?p of None \<Rightarrow> d = blank_db | Some b \<Rightarrow> parse_db sq b = Inr d"
      "sqlite_documented sq \<longrightarrow> holds sq ?p d nd2" "only_at ?p nd nd2"
      using w Inr by blast
    obtain i nd3 where 2: "initSchema sq h nd2 = (i, nd3)" by (metis prod.collapse)
    note i = initSchema_ok [OF 2]
    show ?thesis
    proof (cases i)
      case (Inl e)
      then have "r = Inl (BootFailed (''initializing schema: '' @ e))" "nd1 = nd3" "disk nd3 = disk nd2"
        using assms 1 2 Inr i by (simp_all add: adoptDatabase_def)
      moreover have "only_at ?p nd nd3" using only_at_trans [OF h(7)] i h(1) by metis
      moreover have "sqlite_documented sq \<longrightarrow> holds sq ?p d nd3" using h(6) \<open>disk nd3 = disk nd2\<close> by (simp add: holds_def)
      ultimately show ?thesis using h(5) by (auto simp: adopting_def)
    next
      case ih: (Inr h1)
      note i1 = i [THEN conjunct2, THEN conjunct2, rule_format, OF ih]
      then obtain t where t: "h_db h1 = Inr (d\<lparr>tabs := Some t\<rparr>)"
        "case tabs d of None \<Rightarrow> \<not> h_readOnly h \<and> t = empty_tables | Some u \<Rightarrow> t = u"
        "sqlite_documented sq \<longrightarrow> holds sq ?p (d\<lparr>tabs := Some t\<rparr>) nd3"
        unfolding h(1,4) using h(6) by auto
      have h1: "h_path h1 = ?p" "h_readOnly h1 = h_readOnly h" "h_changes h1 = h_changes h" using i1 h(1) by auto
      have o3: "only_at ?p nd nd3" using only_at_trans [OF h(7)] i h(1) by metis
      have ad: "d\<lparr>tabs := Some t, user_version := schemaVersion\<rparr> = adopted d"
        using t(2) by (cases d) (auto simp: adopted_def split: option.splits)
      obtain c nd4 where 3: "checkSchemaVersion sq h1 False nd3 = (c, nd4)" by (metis prod.collapse)
      note c = checkSchema_ok [OF 3]
      have res: "nd1 = nd4" "r = (case c of Inl e \<Rightarrow> Inl (BootFailed e) | Inr h2 \<Rightarrow> Inr h2)"
        using assms 1 2 3 Inr ih by (auto simp: adoptDatabase_def split: sum.splits)
      have o4: "only_at ?p nd nd4" using only_at_trans [OF o3] c h1(1) by metis
      show ?thesis
      proof (cases c)
        case (Inl e)
        then have "disk nd4 = disk nd3" using c by simp
        then have "sqlite_documented sq \<longrightarrow> holds sq ?p (d\<lparr>tabs := Some t\<rparr>) nd4" using t(3) by (simp add: holds_def)
        moreover have "adopting d (d\<lparr>tabs := Some t\<rparr>)" using t(2) by (auto simp: adopting_def split: option.splits)
        ultimately show ?thesis using Inl res o4 h(5) by (auto split: option.splits)
      next
        case (Inr h2)
        have "h_db h2 = Inr (adopted d)" "user_version d \<le> schemaVersion" "h_readOnly h2 = h_readOnly h" "h_changes h2 = h_changes h"
          "sqlite_documented sq \<longrightarrow> holds sq ?p (adopted d) nd4"
          using c [THEN conjunct2, THEN conjunct2, rule_format, OF Inr] t h1 ad by auto
        with Inr res o4 h(2,3,5) show ?thesis by auto
      qed
    qed
  qed
qed

lemma adopt_reader:
  assumes "adoptDatabase sq cfg nd = (r, nd1)" and "readOnly (serving cfg)"
  shows "remote nd1 = remote nd \<and> disk nd1 = disk nd
    \<and> (\<forall>h. r = Inr h \<longrightarrow> h_readOnly h \<and> file_at (disk nd) (databasePath cfg) = Some (h_bytes h)
         \<and> h_db h = parse_db sq (h_bytes h)
         \<and> (\<exists>d t. h_db h = Inr d \<and> user_version d = schemaVersion \<and> tabs d = Some t))"
proof -
  obtain o1 nd2 where 1: "openSQLite sq (databasePath cfg) True nd = (o1, nd2)" by (metis prod.collapse)
  note w = open_readonly [OF 1]
  show ?thesis
  proof (cases o1)
    case (Inl e)
    with assms 1 w show ?thesis by (auto simp: adoptDatabase_def)
  next
    case (Inr h)
    obtain i nd3 where 2: "initSchema sq h nd2 = (i, nd3)" by (metis prod.collapse)
    note i = initSchema_ok [OF 2]
    have i0: "disk nd3 = disk nd2" "remote nd3 = remote nd2" using i w Inr by (simp_all add: only_at_def)
    show ?thesis
    proof (cases i)
      case (Inl e)
      with assms 1 2 Inr w i0 show ?thesis by (auto simp: adoptDatabase_def)
    next
      case ih: (Inr h1)
      obtain c nd4 where 3: "checkSchemaVersion sq h1 True nd3 = (c, nd4)" by (metis prod.collapse)
      note c = checkSchema_ok [OF 3]
      have res: "nd1 = nd4" "r = (case c of Inl e \<Rightarrow> Inl (BootFailed e) | Inr h2 \<Rightarrow> Inr h2)"
        using assms 1 2 3 Inr ih by (auto simp: adoptDatabase_def split: sum.splits)
      have ro: "h_readOnly h" using w Inr by simp
      obtain d t where d: "h_db h = Inr d" "h_db h1 = Inr (d\<lparr>tabs := Some t\<rparr>)" "tabs d = Some t"
        using i ih ro by (auto split: option.splits)
      then have "d\<lparr>tabs := Some t\<rparr> = d" by (cases d) simp
      moreover have "user_version d = schemaVersion \<Longrightarrow> d\<lparr>user_version := schemaVersion\<rparr> = d"
        by (cases d) simp
      ultimately have db2: "c = Inr h2 \<Longrightarrow> h_db h2 = Inr d \<and> user_version d = schemaVersion" for h2
        using c d by auto
      have keep: "remote nd1 = remote nd" "disk nd1 = disk nd" using res w i0 c by (simp_all add: only_at_def)
      have i1: "h_readOnly h1 = h_readOnly h" "h_bytes h1 = h_bytes h" using i ih by blast+
      have h2: "h_readOnly h2 = h_readOnly h \<and> h_bytes h2 = h_bytes h" if "c = Inr h2" for h2
      proof -
        have "h_readOnly h2 = h_readOnly h1" "h_bytes h2 = h_bytes h1" using c that by blast+
        with i1 show ?thesis by simp
      qed
      have wh: "file_at (disk nd) (databasePath cfg) = Some (h_bytes h)" "h_db h = parse_db sq (h_bytes h)"
        using w Inr by simp_all
      show ?thesis
      proof (cases c)
        case (Inl e)
        with res keep show ?thesis by simp
      next
        case (Inr h2)
        then have "r = Inr h2" using res by simp
        moreover have "parse_db sq (h_bytes h) = Inr d" using wh d(1) by simp
        ultimately show ?thesis using keep wh(1) ro d(3) h2 [OF Inr] db2 [OF Inr] by simp
      qed
    qed
  qed
qed


section \<open>Booting\<close>

text \<open>What \<open>bootDatabase\<close> does with the file, and what it then opens.\<close>

lemma prepare_local:
  assumes "prepareDatabase sq k cfg sst nd = (r, nd1)"
    and "on_disk (os_Stat (databasePath cfg)) nd = (None, nd0)"
  shows "r = Inr None \<and> nd1 = nd0"
  using assms by (simp add: prepareDatabase_def Let_def split: if_splits)

lemma stat_keeps:
  assumes "on_disk (os_Stat p) nd = (e, nd0)"
  shows "file_at (disk nd0) = file_at (disk nd) \<and> remote nd0 = remote nd"
proof -
  obtain x d where "os_Stat p (disk nd) = (x, d)" by (metis prod.collapse)
  with assms os_Stat_file [OF this] show ?thesis by (auto simp: on_disk_def)
qed

lemma prepare_writer_absent:
  assumes "s3_documented (client st) obj" and "s3_look obj st (remote nd) snapshotKey = Some x"
    and "\<not> readOnly (serving cfg)" and "dbRestoreMode cfg \<noteq> dbRestoreIgnore"
    and "file_at (disk nd) (databasePath cfg) = None"
    and "\<forall>nd0. on_disk (os_Stat (databasePath cfg)) nd \<noteq> (None, nd0)"
    and "prepareDatabase sq k cfg (Some st) nd = (Inr replica, nd1)"
  shows "dbRestoreMode cfg = dbRestoreAuto \<and> file_at (disk nd1) (databasePath cfg) = Some x \<and> snapshot_ok sq x"
proof -
  obtain e nd0 where s: "on_disk (os_Stat (databasePath cfg)) nd = (Some e, nd0)"
    using assms(6) by (metis not_None_eq prod.collapse)
  note k = stat_keeps [OF s]
  have start: "startWithoutDatabase sq k cfg (Some st) (databasePath cfg) nd0 = (None, nd1)"
    using assms(3,7) s by (auto simp: prepareDatabase_def split: option.splits prod.splits)
  have look: "s3_look obj st (remote nd0) snapshotKey = Some x" using k assms(2) by simp
  show ?thesis
  proof (cases "dbRestoreMode cfg = dbRestoreAuto")
    case True
    obtain g nd2 where g: "downloadSnapshot sq k (Some st) (databasePath cfg) nd0 = (g, nd2)"
      by (metis prod.collapse)
    with start True obtain info where "g = Inr info" "nd2 = nd1"
      by (cases g) (auto simp: startWithoutDatabase_def dbRestoreAuto_def dbRestoreIgnore_def)
    with True download_keeps [OF g] download_remote [OF assms(1) g] look show ?thesis by auto
  next
    case False
    obtain g nd2 where g: "headSnapshot (Some st) nd0 = (g, nd2)" by (metis prod.collapse)
    have "g \<noteq> Inl BlobNotFound" using headSnapshot_look [OF assms(1) g] look by auto
    with start False g assms(4) show ?thesis
      by (auto simp: startWithoutDatabase_def split: sum.splits blob_error.splits)
  qed
qed

text \<open>
  A writer without its file never starts empty while a snapshot is published: it starts from the
  snapshot, and only when the operator asked for it.
\<close>

lemma boot_lost_volume:
  assumes "s3_documented (client st) obj" and "s3_look obj st (remote nd) snapshotKey = Some x"
    and "\<not> readOnly (serving cfg)" and "dbRestoreMode cfg \<noteq> dbRestoreIgnore"
    and "file_at (disk nd) (databasePath cfg) = None"
    and "\<forall>nd0. on_disk (os_Stat (databasePath cfg)) nd \<noteq> (None, nd0)"
    and "bootDatabase sq k cfg (Some st) nd = (Inr (h, replica), nd1)"
  shows "dbRestoreMode cfg = dbRestoreAuto \<and> h_db h = parse_db sq x"
proof -
  obtain p nd2 where p: "prepareDatabase sq k cfg (Some st) nd = (p, nd2)" by (metis prod.collapse)
  then obtain rep where rep: "p = Inr rep"
    using assms(7) by (cases p) (auto simp: bootDatabase_def)
  note prep = prepare_writer_absent [OF assms(1-6) p [unfolded rep]]
  obtain a nd3 where a: "adoptDatabase sq cfg nd2 = (a, nd3)" by (metis prod.collapse)
  have ah: "a = Inr h" using assms(7) p rep a by (cases a) (auto simp: bootDatabase_def)
  have "\<exists>d. h_db h = Inr (adopted d) \<and> parse_db sq x = Inr d"
    using adopt_writer [OF a assms(3)] ah prep by auto
  then obtain d where d: "h_db h = Inr (adopted d)" "parse_db sq x = Inr d" by blast
  moreover obtain t where "user_version d = schemaVersion" "tabs d = Some t"
    using prep d(2) snapshot_okD by metis
  ultimately show ?thesis using prep adopted_id by simp
qed

text \<open>Booting on an existing file keeps what is in it.\<close>

lemma boot_keeps_local:
  assumes "on_disk (os_Stat (databasePath cfg)) nd = (None, nd0)"
    and "file_at (disk nd) (databasePath cfg) = Some b"
    and "bootDatabase sq k cfg sst nd = (r, nd1)"
  shows "only_at (databasePath cfg) nd nd1"
    and "readOnly (serving cfg) \<Longrightarrow> file_at (disk nd1) = file_at (disk nd)"
    and "file_at (disk nd1) (databasePath cfg) = Some b
      \<or> (\<exists>d d1. parse_db sq b = Inr d \<and> adopting d d1
           \<and> (sqlite_documented sq \<longrightarrow> holds sq (databasePath cfg) d1 nd1))"
    and "r = Inr (h, rep) \<Longrightarrow> rep = None \<and> (\<exists>d. parse_db sq b = Inr d \<and> h_db h = Inr (adopted d) \<and> user_version d \<le> schemaVersion
      \<and> (sqlite_documented sq \<longrightarrow> holds sq (databasePath cfg) (adopted d) nd1))"
proof -
  let ?p = "databasePath cfg"
  note k = stat_keeps [OF assms(1)]
  obtain p nd2 where p: "prepareDatabase sq k cfg sst nd = (p, nd2)" by (metis prod.collapse)
  from prepare_local [OF p assms(1)] have p2: "p = Inr None" "nd2 = nd0" by simp_all
  obtain a nd3 where a: "adoptDatabase sq cfg nd0 = (a, nd3)" by (metis prod.collapse)
  have res: "nd1 = nd3" "r = (case a of Inl e \<Rightarrow> Inl e | Inr h \<Rightarrow> Inr (h, None))"
    using assms(3) p p2 a by (auto simp: bootDatabase_def split: sum.splits)
  have at: "file_at (disk nd0) ?p = Some b" using k assms(2) by simp
  have start: "only_at ?p nd nd0" using k by (simp add: only_at_def)
  have "only_at ?p nd0 nd3 \<and> (readOnly (serving cfg) \<longrightarrow> disk nd3 = disk nd0)
    \<and> (file_at (disk nd3) ?p = Some b
      \<or> (\<exists>d d1. parse_db sq b = Inr d \<and> adopting d d1 \<and> (sqlite_documented sq \<longrightarrow> holds sq ?p d1 nd3)))
    \<and> (\<forall>h. a = Inr h \<longrightarrow> (\<exists>d. parse_db sq b = Inr d \<and> h_db h = Inr (adopted d) \<and> user_version d \<le> schemaVersion
         \<and> (sqlite_documented sq \<longrightarrow> holds sq ?p (adopted d) nd3)))"
  proof (cases "readOnly (serving cfg)")
    case True
    note w = adopt_reader [OF a True]
    have "\<exists>d. parse_db sq b = Inr d \<and> h_db h = Inr (adopted d) \<and> user_version d \<le> schemaVersion \<and> holds sq ?p (adopted d) nd3" if ah: "a = Inr h" for h
    proof -
      obtain d t where d: "h_db h = Inr d" "user_version d = schemaVersion" "tabs d = Some t"
        "h_db h = parse_db sq (h_bytes h)" "file_at (disk nd0) ?p = Some (h_bytes h)"
        using w ah by blast
      moreover from this(5) at have "h_bytes h = b" by simp
      moreover have "disk nd3 = disk nd0" using w by simp
      ultimately show ?thesis using adopted_id [OF d(2,3)] d(2) at by (simp add: holds_def)
    qed
    with w at show ?thesis by (auto simp: only_at_def)
  next
    case False
    note w = adopt_writer [OF a False]
    show ?thesis
    proof (cases a)
      case (Inl e)
      with w at False show ?thesis by simp
    next
      case (Inr h)
      then obtain d where "parse_db sq b = Inr d" "h_db h = Inr (adopted d)" "user_version d \<le> schemaVersion"
        "sqlite_documented sq \<longrightarrow> holds sq ?p (adopted d) nd3" using w at by auto
      moreover have "adopting d (adopted d)" by (simp add: adopting_def adopted_def split: option.splits)
      ultimately show ?thesis using w Inr False by auto
    qed
  qed
  note all = this
  show "only_at ?p nd nd1" using only_at_trans [OF start] all res(1) by blast
  show "readOnly (serving cfg) \<Longrightarrow> file_at (disk nd1) = file_at (disk nd)" using all res(1) k by simp
  show "file_at (disk nd1) ?p = Some b
      \<or> (\<exists>d d1. parse_db sq b = Inr d \<and> adopting d d1 \<and> (sqlite_documented sq \<longrightarrow> holds sq ?p d1 nd1))"
    using all res(1) by blast
  show "r = Inr (h, rep) \<Longrightarrow> rep = None \<and> (\<exists>d. parse_db sq b = Inr d \<and> h_db h = Inr (adopted d) \<and> user_version d \<le> schemaVersion
      \<and> (sqlite_documented sq \<longrightarrow> holds sq ?p (adopted d) nd1))"
    using all res by (cases a) auto
qed

section \<open>Restoring\<close>

lemma restore_outcome:
  assumes "runRestoreCommand sq k cfg (Inr c) args nd = (code, nd1)"
  shows "(code \<noteq> 0 \<longrightarrow> file_at (disk nd1) (databasePath cfg) = file_at (disk nd) (databasePath cfg))
    \<and> (code = 0 \<longrightarrow> (\<exists>b. file_at (disk nd1) (databasePath cfg) = Some b \<and> snapshot_ok sq b))"
proof -
  obtain f where f: "parse_force args False = f" by blast
  show ?thesis
  proof (cases "f = None \<or> s3Bucket cfg = []")
    case True
    with assms f show ?thesis
      by (auto simp: runRestoreCommand_def initSnapshotStore_def split: option.splits if_splits)
  next
    case False
    then obtain force where force: "f = Some force" by auto
    define st where "st = newS3StorageWithClient c (s3Bucket cfg) (dbBackupPrefix cfg)"
    have init: "initSnapshotStore cfg (Inr c) = Inr (Some st)"
      using False by (simp add: initSnapshotStore_def st_def)
    obtain i nd2 where 1: "headSnapshot (Some st) nd = (i, nd2)" by (metis prod.collapse)
    obtain e nd3 where 2: "on_disk (os_Stat (databasePath cfg)) nd2 = (e, nd3)" by (metis prod.collapse)
    obtain m d4 where 3: "os_MkdirAll (uploadFolder cfg) (disk nd3) = (m, d4)" by (metis prod.collapse)
    define nd4 where "nd4 = nd3\<lparr>disk := d4\<rparr>"
    have 4: "on_disk (os_MkdirAll (uploadFolder cfg)) nd3 = (m, nd4)"
      using 3 by (simp add: on_disk_def nd4_def)
    obtain g nd5 where 5: "downloadSnapshot sq k (Some st) (databasePath cfg) nd4 = (g, nd5)"
      by (metis prod.collapse)
    have same: "file_at (disk nd2) = file_at (disk nd)" "file_at (disk nd3) = file_at (disk nd)"
      "file_at (disk nd4) = file_at (disk nd)"
      using headSnapshot_keeps [OF 1] stat_keeps [OF 2] os_MkdirAll_file [OF 3]
      by (simp_all add: nd4_def)
    note dl = download_keeps [OF 5]
    note run = assms [unfolded runRestoreCommand_def f force option.case init sum.case 1 prod.case]
    consider e1 where "i = Inl e1" | "\<exists>info. i = Inr info" "e = None \<and> \<not> force"
      | "\<exists>info. i = Inr info" "\<not> (e = None \<and> \<not> force)"
      by (metis sum.exhaust)
    then show ?thesis
    proof cases
      case 1
      with run same show ?thesis by simp
    next
      case 2
      with run \<open>on_disk (os_Stat (databasePath cfg)) nd2 = (e, nd3)\<close> same show ?thesis by auto
    next
      case 3
      then have "(case m of Some e \<Rightarrow> (1, nd4)
          | None \<Rightarrow> (case g of Inl e \<Rightarrow> (1, nd5) | Inr _ \<Rightarrow> (0, nd5))) = (code, nd1)"
        using run \<open>on_disk (os_Stat (databasePath cfg)) nd2 = (e, nd3)\<close> 4 5 by (auto split: option.splits)
      with same dl show ?thesis by (cases m; cases g) auto
    qed
  qed
qed

text \<open>Without \<open>-force\<close> an existing database stays as it is.\<close>

lemma restore_needs_force:
  assumes "runRestoreCommand sq k cfg (Inr c) args nd = (code, nd1)"
    and "parse_force args False = Some False"
    and "file_at (disk nd) (databasePath cfg) = Some b" and "io_faults (disk nd) = []"
  shows "code = 1 \<and> file_at (disk nd1) = file_at (disk nd)"
proof (cases "s3Bucket cfg = []")
  case True
  with assms(1,2) show ?thesis
    by (auto simp: runRestoreCommand_def initSnapshotStore_def split: if_splits)
next
  case False
  define st where "st = newS3StorageWithClient c (s3Bucket cfg) (dbBackupPrefix cfg)"
  have init: "initSnapshotStore cfg (Inr c) = Inr (Some st)"
    using False by (simp add: initSnapshotStore_def st_def)
  obtain i nd2 where 1: "headSnapshot (Some st) nd = (i, nd2)" by (metis prod.collapse)
  then have same: "disk nd2 = disk nd" using headSnapshot_keeps [OF 1] by simp
  have "fst (os_Stat (databasePath cfg) (disk nd2)) = None"
    using assms(3,4) same by (auto simp: os_Stat_def next_fault_def file_at_def split: option.splits)
  then obtain nd3 where 2: "on_disk (os_Stat (databasePath cfg)) nd2 = (None, nd3)"
    by (cases "os_Stat (databasePath cfg) (disk nd2)") (auto simp: on_disk_def)
  show ?thesis
    using assms(1) [unfolded runRestoreCommand_def assms(2) option.case init sum.case 1 prod.case 2]
      same stat_keeps [OF 2]
    by (auto split: sum.splits)
qed

section \<open>Refreshing\<close>

lemma refresh_outcome:
  assumes "refresh sq k sst r h nd = (r1, h1, nd1)"
  shows "(r1 = r \<and> h1 = h)
    \<or> (snapshot_ok sq (h_bytes h1) \<and> h_readOnly h1 \<and> h_db h1 = parse_db sq (h_bytes h1)
        \<and> file_at (disk nd1) (r_path r) = Some (h_bytes h1) \<and> generations r1 = generations r + 1
        \<and> r_path r1 = r_path r \<and> \<not> sameSnapshot (r_current r1) (r_current r))"
proof -
  obtain c nd2 where c: "replica_check sst r nd = (c, nd2)" by (metis prod.collapse)
  show ?thesis
  proof (cases c)
    case None
    with assms c show ?thesis by (simp add: refresh_def)
  next
    case (Some info)
    have new: "\<not> sameSnapshot info (r_current r)"
      using c Some by (auto simp: replica_check_def split: prod.splits sum.splits if_splits)
    obtain g nd3 where g: "downloadSnapshot sq k sst (r_path r) nd2 = (g, nd3)" by (metis prod.collapse)
    obtain ho nd4 where o1: "openSQLite sq (r_path r) True nd3 = (ho, nd4)" by (metis prod.collapse)
    note op = open_readonly [OF o1]
    note run = assms [unfolded refresh_def c prod.case Some option.case replica_load_def g]
    show ?thesis
    proof (cases "\<exists>i h2. g = Inr i \<and> ho = Inr h2")
      case True
      then obtain i h2 where gh: "g = Inr i" "ho = Inr h2" by blast
      then obtain b where "file_at (disk nd3) (r_path r) = Some b" "snapshot_ok sq b"
        using download_keeps [OF g] by blast
      with op gh have "snapshot_ok sq (h_bytes h2)" "file_at (disk nd4) (r_path r) = Some (h_bytes h2)"
        "h_readOnly h2" "h_db h2 = parse_db sq (h_bytes h2)" by simp_all
      moreover have "h1 = h2" "nd1 = snd (clock_now nd4)" "disk nd1 = disk nd4"
        "r1 = r\<lparr>r_current := info, loadedAt := fst (clock_now nd4), generations := generations r + 1\<rparr>"
        using run gh o1 by (auto simp: clock_now_def)
      ultimately show ?thesis using new by simp
    next
      case False
      with run o1 show ?thesis by (cases g; cases ho) simp_all
    qed
  qed
qed

text \<open>With a documented client the new version is the published object.\<close>

lemma refresh_published:
  assumes "s3_documented (client st) obj" and "refresh sq k (Some st) r h nd = (r1, h1, nd1)"
    and "(r1, h1) \<noteq> (r, h)"
  shows "s3_look obj st (remote nd) snapshotKey = Some (h_bytes h1)"
proof -
  obtain c nd2 where c: "replica_check (Some st) r nd = (c, nd2)" by (metis prod.collapse)
  obtain info where Some: "c = Some info"
    using assms(2,3) c by (cases c) (auto simp: refresh_def)
  obtain g nd3 where g: "downloadSnapshot sq k (Some st) (r_path r) nd2 = (g, nd3)" by (metis prod.collapse)
  obtain ho nd4 where o1: "openSQLite sq (r_path r) True nd3 = (ho, nd4)" by (metis prod.collapse)
  obtain i nd5 where hd: "headSnapshot (Some st) nd = (i, nd5)" by (metis prod.collapse)
  have "nd2 = nd5" using c hd by (auto simp: replica_check_def split: sum.splits)
  then have "s3_look obj st (remote nd2) = s3_look obj st (remote nd)"
    using headSnapshot_look [OF assms(1) hd] by (simp add: s3_look_def fun_eq_iff)
  moreover note open_readonly [OF o1] download_remote [OF assms(1) g]
  ultimately show ?thesis
    using assms(2) [unfolded refresh_def c prod.case Some option.case replica_load_def g] o1 assms(3)
    by (cases g; cases ho) (auto simp: clock_now_def)
qed

end
