(* ===== verification/Publisher.thy ===== *)
theory Publisher
  imports BootLaws
begin

text \<open>
  The writer's side of the snapshots: \<open>server/db_publisher.go\<close> and the start of the background
  loops. \<open>publish\<close> is written as its four parts, because the handlers go on writing to the
  database while it runs; \<open>pub_step\<close> interleaves the parts with such writes.
\<close>

section \<open>The publisher\<close>

record snapshotPublisher =
  p_delay :: int
  p_path :: string
  published :: int
  dirtySince :: "int option"

definition newSnapshotPublisher :: "config \<Rightarrow> handle \<Rightarrow> 's node \<Rightarrow> snapshotPublisher result \<times> 's node" where
  "newSnapshotPublisher cfg h nd =
     (case on_disk (os_MkdirAll (snapshotDir cfg)) nd of
        (Some e, nd1) \<Rightarrow> (Inl e, nd1)
      | (None, nd1) \<Rightarrow>
      let staging = path_join (snapshotDir cfg) dbSnapshotName in
     (case on_disk (os_Remove (staging @ ''.tmp'')) nd1 of
        (Some (RemoveErr e), nd2) \<Rightarrow> (Inl e, nd2)
      | (_, nd2) \<Rightarrow>
     (case dbTotalChanges h nd2 of
        (Inl e, nd3) \<Rightarrow> (Inl e, nd3)
      | (Inr baseline, nd3) \<Rightarrow>
          (Inr \<lparr>p_delay = dbBackupDelay cfg, p_path = staging, published = baseline, dirtySince = None\<rparr>,
           nd3))))"

text \<open>The first half of \<open>tick\<close>: is a publish due?\<close>

definition tick_due :: "handle \<Rightarrow> snapshotPublisher \<Rightarrow> 's node \<Rightarrow> bool \<times> snapshotPublisher \<times> 's node" where
  "tick_due h p nd =
     (case dbTotalChanges h nd of
        (Inl e, nd1) \<Rightarrow> (False, p, nd1)
      | (Inr changes, nd1) \<Rightarrow>
          if changes = published p then (False, p, nd1)
          else
            (let (since, nd2) = (case dirtySince p of None \<Rightarrow> clock_now nd1 | Some t \<Rightarrow> (t, nd1));
                 (now, nd3) = clock_now nd2 in
             (now - since \<ge> p_delay p, p\<lparr>dirtySince := Some since\<rparr>, nd3)))"

section \<open>Publishing\<close>

definition publish_check ::
  "config \<Rightarrow> 's s3Storage \<Rightarrow> handle \<Rightarrow> 's node \<Rightarrow> blob_error option \<times> 's node" where
  "publish_check cfg st h nd =
     (case countRecords h nd of
        (Inl e, nd1) \<Rightarrow> (Some (BlobOther e), nd1)
      | (Inr rows, nd1) \<Rightarrow>
     (case snapshotLooksEmpty cfg (Some st) rows nd1 of
        (Inl e, nd2) \<Rightarrow> (Some e, nd2)
      | (Inr (Some reason), nd2) \<Rightarrow> (Some (BlobOther reason), nd2)
      | (Inr None, nd2) \<Rightarrow> (None, nd2)))"

text \<open>The open file as a reader; a read may fail part of the way.\<close>

definition file_reader :: "bytes \<Rightarrow> io_fault \<Rightarrow> reader" where
  "file_reader b f =
     (case f of
        None \<Rightarrow> \<lparr>blocks = [], last_block = b, ending = EOF\<rparr>
      | Some (e, n) \<Rightarrow> \<lparr>blocks = [], last_block = take n b, ending = ReadErr e\<rparr>)"

definition publish_send ::
  "'s s3Storage \<Rightarrow> int \<Rightarrow> snapshotPublisher \<Rightarrow> 's node \<Rightarrow> (blob_error + snapshotPublisher) \<times> 's node" where
  "publish_send st before p nd =
     (case on_disk (os_Open (p_path p)) nd of
        (Inl e, nd1) \<Rightarrow> (Inl (BlobOther e), nd1)
      | (Inr b, nd1) \<Rightarrow>
     (case on_disk next_fault nd1 of
        (f, nd2) \<Rightarrow>
     (case on_remote (s3_Put st snapshotKey (file_reader b f) maxDBSnapshotSize) nd2 of
        (Inl e, nd3) \<Rightarrow> (Inl e, nd3)
      | (Inr written, nd3) \<Rightarrow> (Inr (p\<lparr>published := before\<rparr>), nd3))))"

definition publish ::
  "sqlite \<Rightarrow> config \<Rightarrow> 's s3Storage \<Rightarrow> handle \<Rightarrow> snapshotPublisher \<Rightarrow> 's node \<Rightarrow>
     (blob_error + snapshotPublisher) \<times> 's node" where
  "publish sq cfg st h p nd =
     (case dbTotalChanges h nd of
        (Inl e, nd1) \<Rightarrow> (Inl (BlobOther e), nd1)
      | (Inr before, nd1) \<Rightarrow>
     (case publish_check cfg st h nd1 of
        (Some e, nd2) \<Rightarrow> (Inl e, nd2)
      | (None, nd2) \<Rightarrow>
     (case writeSnapshotTo sq h (p_path p) nd2 of
        (Some e, nd3) \<Rightarrow> (Inl (BlobOther e), nd3)
      | (None, nd3) \<Rightarrow> publish_send st before p nd3)))"

definition tick ::
  "sqlite \<Rightarrow> config \<Rightarrow> 's s3Storage \<Rightarrow> handle \<Rightarrow> snapshotPublisher \<Rightarrow> 's node \<Rightarrow> snapshotPublisher \<times> 's node" where
  "tick sq cfg st h p nd =
     (case tick_due h p nd of
        (False, p1, nd1) \<Rightarrow> (p1, nd1)
      | (True, p1, nd1) \<Rightarrow>
          (case publish sq cfg st h p1 nd1 of
             (Inl e, nd2) \<Rightarrow>
               (case clock_now nd2 of (now, nd3) \<Rightarrow> (p1\<lparr>dirtySince := Some now\<rparr>, nd3))
           | (Inr p2, nd2) \<Rightarrow> (p2\<lparr>dirtySince := None\<rparr>, nd2)))"

definition flush ::
  "sqlite \<Rightarrow> config \<Rightarrow> 's s3Storage \<Rightarrow> handle \<Rightarrow> snapshotPublisher \<Rightarrow> 's node \<Rightarrow> snapshotPublisher \<times> 's node" where
  "flush sq cfg st h p nd =
     (case dbTotalChanges h nd of
        (Inl e, nd1) \<Rightarrow> (p, nd1)
      | (Inr changes, nd1) \<Rightarrow>
          if changes = published p then (p, nd1)
          else
            (case publish sq cfg st h p nd1 of
               (Inl e, nd2) \<Rightarrow> (p, nd2)
             | (Inr p1, nd2) \<Rightarrow> (p1, nd2)))"

definition runSnapshotPublisher ::
  "config \<Rightarrow> 's s3Storage option \<Rightarrow> handle \<Rightarrow> 's node \<Rightarrow> snapshotPublisher option \<times> 's node" where
  "runSnapshotPublisher cfg snapshotStore h nd =
     (if readOnly (serving cfg) \<or> dbBackupDelay cfg \<le> 0 \<or> Option.is_none snapshotStore then (None, nd)
      else
        (case newSnapshotPublisher cfg h nd of
           (Inl e, nd1) \<Rightarrow> (None, nd1)
         | (Inr p, nd1) \<Rightarrow> (Some p, nd1)))"

end
