(* ===== verification/PublisherRun.thy ===== *)
theory PublisherRun
  imports Publisher
begin

text \<open>
  The publisher beside a server that goes on writing. A state holds the node, the live handle,
  the publisher and how far its current publish has come; between any two parts other requests
  may write to the database and use the disk and the bucket.
\<close>

section \<open>Steps\<close>

datatype pub_pc = Idle | Due | Counted int | Checked int | Built int

record 's pub_sys =
  ps_node :: "'s node"
  ps_handle :: handle
  ps_pub :: snapshotPublisher
  ps_pc :: pub_pc

text \<open>
  What the rest of the server does: a change of the database raises \<open>total_changes\<close>, and nothing
  else writes the staging file or the snapshot object.
\<close>

definition outside ::
  "('s \<Rightarrow> string \<times> string \<Rightarrow> bytes option) \<Rightarrow> 's s3Storage \<Rightarrow> string \<Rightarrow> 's node \<Rightarrow> 's node \<Rightarrow> bool" where
  "outside obj st path nd nd' \<longleftrightarrow>
     file_at (disk nd') path = file_at (disk nd) path
   \<and> s3_look obj st (remote nd') snapshotKey = s3_look obj st (remote nd) snapshotKey"

text \<open>The publisher's own steps: a tick, the final flush, and the parts of a publish.\<close>

inductive pub_act ::
  "sqlite \<Rightarrow> config \<Rightarrow> 's s3Storage \<Rightarrow> 's pub_sys \<Rightarrow> 's pub_sys \<Rightarrow> bool"
  for sq cfg st where
  ticked: "tick_due h p nd = (due, p', nd') \<Longrightarrow>
    pub_act sq cfg st \<lparr>ps_node = nd, ps_handle = h, ps_pub = p, ps_pc = Idle\<rparr>
      \<lparr>ps_node = nd', ps_handle = h, ps_pub = p', ps_pc = (if due then Due else Idle)\<rparr>"
| flushed: "dbTotalChanges h nd = (Inr changes, nd') \<Longrightarrow> changes \<noteq> published p \<Longrightarrow>
    pub_act sq cfg st \<lparr>ps_node = nd, ps_handle = h, ps_pub = p, ps_pc = Idle\<rparr>
      \<lparr>ps_node = nd', ps_handle = h, ps_pub = p, ps_pc = Due\<rparr>"
| counted: "dbTotalChanges h nd = (Inr before, nd') \<Longrightarrow>
    pub_act sq cfg st \<lparr>ps_node = nd, ps_handle = h, ps_pub = p, ps_pc = Due\<rparr>
      \<lparr>ps_node = nd', ps_handle = h, ps_pub = p, ps_pc = Counted before\<rparr>"
| count_failed: "dbTotalChanges h nd = (Inl e, nd') \<Longrightarrow> s \<in> {dirtySince p, Some now} \<Longrightarrow>
    pub_act sq cfg st \<lparr>ps_node = nd, ps_handle = h, ps_pub = p, ps_pc = Due\<rparr>
      \<lparr>ps_node = nd', ps_handle = h, ps_pub = p\<lparr>dirtySince := s\<rparr>, ps_pc = Idle\<rparr>"
| checked: "publish_check cfg st h nd = (None, nd') \<Longrightarrow>
    pub_act sq cfg st \<lparr>ps_node = nd, ps_handle = h, ps_pub = p, ps_pc = Counted before\<rparr>
      \<lparr>ps_node = nd', ps_handle = h, ps_pub = p, ps_pc = Checked before\<rparr>"
| check_failed: "publish_check cfg st h nd = (Some e, nd') \<Longrightarrow> s \<in> {dirtySince p, Some now} \<Longrightarrow>
    pub_act sq cfg st \<lparr>ps_node = nd, ps_handle = h, ps_pub = p, ps_pc = Counted before\<rparr>
      \<lparr>ps_node = nd', ps_handle = h, ps_pub = p\<lparr>dirtySince := s\<rparr>, ps_pc = Idle\<rparr>"
| built: "writeSnapshotTo sq h (p_path p) nd = (None, nd') \<Longrightarrow>
    pub_act sq cfg st \<lparr>ps_node = nd, ps_handle = h, ps_pub = p, ps_pc = Checked before\<rparr>
      \<lparr>ps_node = nd', ps_handle = h, ps_pub = p, ps_pc = Built before\<rparr>"
| build_failed: "writeSnapshotTo sq h (p_path p) nd = (Some e, nd') \<Longrightarrow> s \<in> {dirtySince p, Some now} \<Longrightarrow>
    pub_act sq cfg st \<lparr>ps_node = nd, ps_handle = h, ps_pub = p, ps_pc = Checked before\<rparr>
      \<lparr>ps_node = nd', ps_handle = h, ps_pub = p\<lparr>dirtySince := s\<rparr>, ps_pc = Idle\<rparr>"
| sent: "publish_send st before p nd = (Inr p', nd') \<Longrightarrow> s \<in> {dirtySince p', None} \<Longrightarrow>
    pub_act sq cfg st \<lparr>ps_node = nd, ps_handle = h, ps_pub = p, ps_pc = Built before\<rparr>
      \<lparr>ps_node = nd', ps_handle = h, ps_pub = p'\<lparr>dirtySince := s\<rparr>, ps_pc = Idle\<rparr>"
| send_failed: "publish_send st before p nd = (Inl e, nd') \<Longrightarrow> s \<in> {dirtySince p, Some now} \<Longrightarrow>
    pub_act sq cfg st \<lparr>ps_node = nd, ps_handle = h, ps_pub = p, ps_pc = Built before\<rparr>
      \<lparr>ps_node = nd', ps_handle = h, ps_pub = p\<lparr>dirtySince := s\<rparr>, ps_pc = Idle\<rparr>"

inductive pub_step ::
  "('s \<Rightarrow> string \<times> string \<Rightarrow> bytes option) \<Rightarrow> sqlite \<Rightarrow> config \<Rightarrow> 's s3Storage \<Rightarrow> 's pub_sys \<Rightarrow> 's pub_sys \<Rightarrow> bool"
  for obj sq cfg st where
  changed: "h_changes h < h_changes h' \<Longrightarrow> h_db h' = Inr d \<Longrightarrow> outside obj st (p_path p) nd nd' \<Longrightarrow>
    pub_step obj sq cfg st \<lparr>ps_node = nd, ps_handle = h, ps_pub = p, ps_pc = pc\<rparr>
      \<lparr>ps_node = nd', ps_handle = h', ps_pub = p, ps_pc = pc\<rparr>"
| elsewhere: "outside obj st (p_path p) nd nd' \<Longrightarrow>
    pub_step obj sq cfg st \<lparr>ps_node = nd, ps_handle = h, ps_pub = p, ps_pc = pc\<rparr>
      \<lparr>ps_node = nd', ps_handle = h, ps_pub = p, ps_pc = pc\<rparr>"
| act: "pub_act sq cfg st s s' \<Longrightarrow> pub_step obj sq cfg st s s'"

abbreviation pub_steps ::
  "('s \<Rightarrow> string \<times> string \<Rightarrow> bytes option) \<Rightarrow> sqlite \<Rightarrow> config \<Rightarrow> 's s3Storage \<Rightarrow> 's pub_sys \<Rightarrow> 's pub_sys \<Rightarrow> bool" where
  "pub_steps obj sq cfg st \<equiv> (pub_step obj sq cfg st)\<^sup>*\<^sup>*"

section \<open>What the parts keep\<close>

lemma tick_due_keeps:
  assumes "tick_due h p nd = (due, p', nd')"
  shows "disk nd' = disk nd \<and> remote nd' = remote nd \<and> published p' = published p \<and> p_path p' = p_path p
    \<and> p_delay p' = p_delay p \<and> (due \<longrightarrow> h_changes h \<noteq> published p)"
proof -
  obtain c nd1 where c: "dbTotalChanges h nd = (c, nd1)" by (metis prod.collapse)
  note k = h_query_keeps [OF c [unfolded dbTotalChanges_def]]
  with assms c show ?thesis
    by (cases c) (auto simp: tick_due_def clock_now_def Let_def split: if_splits option.splits)
qed

lemma looksEmpty_keeps:
  "snapshotLooksEmpty cfg sst rows nd = (r, nd1) \<Longrightarrow> disk nd1 = disk nd"
  using headSnapshot_keeps
  by (fastforce simp: snapshotLooksEmpty_def split: if_splits prod.splits sum.splits blob_error.splits)

lemma looksEmpty_look:
  assumes "s3_documented (client st) obj" and "snapshotLooksEmpty cfg (Some st) rows nd = (r, nd1)"
  shows "obj (remote nd1) = obj (remote nd)
    \<and> (r = Inr None \<longrightarrow> rows > 0 \<or> dbRestoreMode cfg = dbRestoreIgnore
         \<or> s3_look obj st (remote nd) snapshotKey \<in> {None, Some []})"
proof -
  obtain g nd2 where g: "headSnapshot (Some st) nd = (g, nd2)" by (metis prod.collapse)
  note look = headSnapshot_look [OF assms(1) g]
  show ?thesis
  proof (cases "rows > 0 \<or> dbRestoreMode cfg = dbRestoreIgnore")
    case True
    with assms(2) show ?thesis by (auto simp: snapshotLooksEmpty_def)
  next
    case False
    with assms(2) g look show ?thesis
      by (auto simp: snapshotLooksEmpty_def split: sum.splits blob_error.splits if_splits)
  qed
qed

lemma publish_check_keeps:
  assumes "publish_check cfg st h nd = (r, nd1)"
  shows "disk nd1 = disk nd
    \<and> (s3_documented (client st) obj \<longrightarrow> obj (remote nd1) = obj (remote nd)
        \<and> (r = None \<longrightarrow> (\<exists>d n. h_db h = Inr d \<and> count_files d = Inr n \<and>
              (n > 0 \<or> dbRestoreMode cfg = dbRestoreIgnore
               \<or> s3_look obj st (remote nd) snapshotKey \<in> {None, Some []}))))"
proof -
  obtain c nd2 where c: "countRecords h nd = (c, nd2)" by (metis prod.collapse)
  note k = h_query_keeps [OF c [unfolded countRecords_def]]
  show ?thesis
  proof (cases c)
    case (Inl e)
    with assms c k show ?thesis by (auto simp: publish_check_def)
  next
    case (Inr rows)
    obtain l nd3 where l: "snapshotLooksEmpty cfg (Some st) rows nd2 = (l, nd3)" by (metis prod.collapse)
    note l1 = looksEmpty_keeps [OF l]
    have res: "nd1 = nd3" "r = None \<Longrightarrow> l = Inr None"
      using assms c Inr l by (auto simp: publish_check_def split: sum.splits option.splits)
    show ?thesis
      using k l1 res Inr looksEmpty_look [OF _ l, of obj] by (auto simp: s3_look_def)
  qed
qed

lemma vacuum_keeps:
  assumes "vacuum_into sq h dst nd = (r, nd1)"
  shows "remote nd1 = remote nd \<and> (q \<noteq> dst \<longrightarrow> file_at (disk nd1) q = file_at (disk nd) q)
    \<and> (r = None \<longrightarrow> (\<exists>d. h_db h = Inr d \<and> file_at (disk nd1) dst = Some (vacuum_image sq d)))"
proof -
  obtain f nd2 where f: "next_sql nd = (f, nd2)" by (metis prod.collapse)
  note k = next_sql_keeps [OF f]
  show ?thesis
  proof (cases "f = None \<and> (\<exists>d. h_db h = Inr d) \<and> file_at (disk nd2) dst \<in> {None, Some []}")
    case True
    then obtain d where d: "h_db h = Inr d" by blast
    obtain w d3 where w: "os_Write dst (vacuum_image sq d) (disk nd2) = (w, d3)" by (metis prod.collapse)
    have "r = w" "nd1 = nd2\<lparr>disk := d3\<rparr>"
      using assms f True d w by (auto simp: vacuum_into_def on_disk_def)
    with os_Write_file [OF w, of q] k d show ?thesis by auto
  next
    case False
    with assms f k show ?thesis
      by (auto simp: vacuum_into_def split: option.splits sum.splits if_splits)
  qed
qed

lemma writeSnapshotTo_keeps:
  assumes "writeSnapshotTo sq h dst nd = (r, nd1)"
  shows "remote nd1 = remote nd \<and> (q \<noteq> dst \<longrightarrow> file_at (disk nd1) q = file_at (disk nd) q)
    \<and> (r = None \<longrightarrow> (\<exists>d. h_db h = Inr d \<and> file_at (disk nd1) dst = Some (vacuum_image sq d)))"
proof -
  obtain m d1 where m: "os_MkdirAll (path_dir dst) (disk nd) = (m, d1)" by (metis prod.collapse)
  obtain x d2 where x: "os_Remove dst d1 = (x, d2)" by (metis prod.collapse)
  define nda where "nda = nd\<lparr>disk := d1\<rparr>"
  define ndb where "ndb = nd\<lparr>disk := d2\<rparr>"
  have ops: "on_disk (os_MkdirAll (path_dir dst)) nd = (m, nda)" "on_disk (os_Remove dst) nda = (x, ndb)"
    using m x by (simp_all add: on_disk_def nda_def ndb_def)
  obtain v nd2 where v: "vacuum_into sq h dst ndb = (v, nd2)" by (metis prod.collapse)
  have keep: "remote nda = remote nd" "file_at (disk nda) = file_at (disk nd)" "remote ndb = remote nd"
    "q \<noteq> dst \<Longrightarrow> file_at (disk ndb) q = file_at (disk nd) q"
    using os_MkdirAll_file [OF m] os_Remove_file [OF x, of q] by (simp_all add: nda_def ndb_def)
  show ?thesis
    using assms [unfolded writeSnapshotTo_def ops prod.case] v keep vacuum_keeps [OF v, of q]
    by (auto simp: ops split: option.splits remove_error.splits)
qed

lemma file_reader_bytes: "ending (file_reader b f) = EOF \<Longrightarrow> reader_bytes (file_reader b f) = b"
  by (auto simp: file_reader_def reader_bytes_def split: option.splits)

lemma publish_send_keeps:
  assumes "publish_send st before p nd = (r, nd1)"
  shows "file_at (disk nd1) = file_at (disk nd)
    \<and> (\<forall>p'. r = Inr p' \<longrightarrow> p' = p\<lparr>published := before\<rparr>
        \<and> (s3_documented (client st) obj \<longrightarrow>
             s3_look obj st (remote nd1) snapshotKey = file_at (disk nd) (p_path p)
             \<and> file_at (disk nd) (p_path p) \<noteq> None))"
proof -
  obtain ob d1 where 1: "os_Open (p_path p) (disk nd) = (ob, d1)" by (metis prod.collapse)
  obtain f d2 where 2: "next_fault d1 = (f, d2)" by (metis prod.collapse)
  note k = os_Open_file [OF 1] next_fault_file [OF 2]
  show ?thesis
  proof (cases ob)
    case (Inl e)
    with assms 1 k show ?thesis by (auto simp: publish_send_def on_disk_def)
  next
    case (Inr b)
    obtain w s where 3: "s3_Put st snapshotKey (file_reader b f) maxDBSnapshotSize (remote nd) = (w, s)"
      by (metis prod.collapse)
    have res: "disk nd1 = d2" "remote nd1 = s" "\<And>p'. r = Inr p' \<Longrightarrow> p' = p\<lparr>published := before\<rparr> \<and> (\<exists>n. w = Inr n)"
      using assms 1 2 3 Inr by (auto simp: publish_send_def on_disk_def on_remote_def split: sum.splits)
    have "s3_look obj st s snapshotKey = Some b" if "s3_documented (client st) obj" "w = Inr n" for n
      using s3_Put_look [OF that(1) 3, of snapshotKey] that(2) file_reader_bytes by auto
    with res k Inr show ?thesis by auto
  qed
qed


section \<open>The invariant\<close>

definition current_image :: "sqlite \<Rightarrow> handle \<Rightarrow> bytes option" where
  "current_image sq h = (case h_db h of Inl _ \<Rightarrow> None | Inr d \<Rightarrow> Some (vacuum_image sq d))"

text \<open>
  While a publish is under way the counter it has read is above the published one, and a staging
  file built for the present counter is the image of the present database.
\<close>

fun pub_pc_ok :: "sqlite \<Rightarrow> handle \<Rightarrow> snapshotPublisher \<Rightarrow> bytes option \<Rightarrow> pub_pc \<Rightarrow> bool" where
  "pub_pc_ok sq h p staged Idle \<longleftrightarrow> True"
| "pub_pc_ok sq h p staged Due \<longleftrightarrow> published p < h_changes h"
| "pub_pc_ok sq h p staged (Counted b) \<longleftrightarrow> published p < b \<and> b \<le> h_changes h"
| "pub_pc_ok sq h p staged (Checked b) \<longleftrightarrow> published p < b \<and> b \<le> h_changes h"
| "pub_pc_ok sq h p staged (Built b) \<longleftrightarrow> published p < b \<and> b \<le> h_changes h
     \<and> (b = h_changes h \<longrightarrow> staged = current_image sq h)"

definition pub_inv ::
  "('s \<Rightarrow> string \<times> string \<Rightarrow> bytes option) \<Rightarrow> sqlite \<Rightarrow> 's s3Storage \<Rightarrow> int \<Rightarrow> 's pub_sys \<Rightarrow> bool" where
  "pub_inv obj sq st baseline s \<longleftrightarrow>
     (let h = ps_handle s; p = ps_pub s in
      baseline \<le> published p \<and> published p \<le> h_changes h
    \<and> pub_pc_ok sq h p (file_at (disk (ps_node s)) (p_path p)) (ps_pc s)
    \<and> (baseline < published p \<longrightarrow> published p = h_changes h \<longrightarrow>
         s3_look obj st (remote (ps_node s)) snapshotKey = current_image sq h))"

lemma pub_pc_changed:
  "pub_pc_ok sq h p staged pc \<Longrightarrow> h_changes h < h_changes h' \<Longrightarrow> pub_pc_ok sq h' p staged pc"
  by (cases pc) auto

lemma total_changes: "dbTotalChanges h nd = (Inr n, nd') \<Longrightarrow> n = h_changes h \<and> disk nd' = disk nd \<and> remote nd' = remote nd"
  using h_query_keeps [of _ h nd] by (fastforce simp: dbTotalChanges_def)

lemma pub_inv_act:
  assumes "s3_documented (client st) obj" and "pub_act sq cfg st s s'" and "pub_inv obj sq st baseline s"
  shows "pub_inv obj sq st baseline s'"
  using assms(2,3)
proof (induction rule: pub_act.cases)
  case (ticked h p nd due p' nd')
  then show ?case using tick_due_keeps [OF ticked(3)] by (auto simp: pub_inv_def)
next
  case (flushed h nd changes nd' p)
  then show ?case using total_changes [OF flushed(3)] by (auto simp: pub_inv_def)
next
  case (counted h nd before nd' p)
  then show ?case using total_changes [OF counted(3)] by (auto simp: pub_inv_def)
next
  case (count_failed h nd e nd' x p now)
  then show ?case
    using h_query_keeps [OF count_failed(3) [unfolded dbTotalChanges_def]] by (auto simp: pub_inv_def)
next
  case (checked h nd nd' p before)
  then show ?case by (auto simp: pub_inv_def)
next
  case (check_failed h nd e nd' x p before now)
  then show ?case by (auto simp: pub_inv_def)
next
  case (built h p nd nd' before)
  then show ?case
    using writeSnapshotTo_keeps [OF built(3), of "p_path p"] by (auto simp: pub_inv_def current_image_def)
next
  case (build_failed h p nd e nd' x before now)
  then show ?case by (auto simp: pub_inv_def)
next
  case (sent before p nd p' nd' x h)
  then show ?case
    using publish_send_keeps [OF sent(3), of obj] assms(1) by (auto simp: pub_inv_def)
next
  case (send_failed before p nd e nd' x h now)
  then show ?case by (auto simp: pub_inv_def)
qed

lemma pub_inv_step:
  assumes "s3_documented (client st) obj" and "pub_step obj sq cfg st s s'" and "pub_inv obj sq st baseline s"
  shows "pub_inv obj sq st baseline s'"
  using assms(2,3)
proof (induction rule: pub_step.cases)
  case (changed h h' d p nd nd' pc)
  then show ?case using pub_pc_changed by (fastforce simp: pub_inv_def outside_def)
next
  case (elsewhere p nd nd' h pc)
  then show ?case by (simp add: pub_inv_def outside_def)
next
  case (act s s')
  then show ?case using pub_inv_act [OF assms(1)] by simp
qed

lemma pub_inv_steps:
  assumes "s3_documented (client st) obj" and "pub_steps obj sq cfg st s s'" and "pub_inv obj sq st baseline s"
  shows "pub_inv obj sq st baseline s'"
  using assms(2,3)
  by (induction rule: rtranclp_induct) (auto dest: pub_inv_step [OF assms(1)])

lemma pub_inv_start:
  assumes "newSnapshotPublisher cfg h nd = (Inr p, nd1)"
  shows "pub_inv obj sq st (published p) \<lparr>ps_node = nd1, ps_handle = h, ps_pub = p, ps_pc = Idle\<rparr>
    \<and> published p = h_changes h \<and> dirtySince p = None"
proof -
  have "published p = h_changes h \<and> dirtySince p = None"
    using assms
    by (auto dest: total_changes simp: newSnapshotPublisher_def Let_def split: prod.splits option.splits sum.splits remove_error.splits)
  then show ?thesis by (simp add: pub_inv_def)
qed


section \<open>The loop is made of these steps\<close>

abbreviation at_pc :: "'s node \<Rightarrow> handle \<Rightarrow> snapshotPublisher \<Rightarrow> pub_pc \<Rightarrow> 's pub_sys" where
  "at_pc nd h p pc \<equiv> \<lparr>ps_node = nd, ps_handle = h, ps_pub = p, ps_pc = pc\<rparr>"

lemma pub_then:
  "pub_step obj sq cfg st a b \<Longrightarrow> pub_steps obj sq cfg st b c \<Longrightarrow> pub_steps obj sq cfg st a c"
  by (rule converse_rtranclp_into_rtranclp)

lemma pub_once: "pub_step obj sq cfg st a b \<Longrightarrow> pub_steps obj sq cfg st a b"
  by (rule r_into_rtranclp)

lemma act_then:
  "pub_act sq cfg st a b \<Longrightarrow> (pub_act sq cfg st)\<^sup>*\<^sup>* b c \<Longrightarrow> (pub_act sq cfg st)\<^sup>*\<^sup>* a c"
  by (rule converse_rtranclp_into_rtranclp)

lemma act_once: "pub_act sq cfg st a b \<Longrightarrow> (pub_act sq cfg st)\<^sup>*\<^sup>* a b"
  by (rule r_into_rtranclp)

text \<open>A publish from the moment it is due; \<open>x\<close> is what becomes of \<open>dirtySince\<close>.\<close>

lemma publish_acts:
  assumes "publish sq cfg st h p nd = (r, nd')"
  shows "case r of
      Inl e \<Rightarrow> (\<forall>x. x \<in> {dirtySince p, Some now} \<longrightarrow>
        (pub_act sq cfg st)\<^sup>*\<^sup>* (at_pc nd h p Due) (at_pc nd' h (p\<lparr>dirtySince := x\<rparr>) Idle))
    | Inr p' \<Rightarrow> (\<forall>x. x \<in> {dirtySince p', None} \<longrightarrow>
        (pub_act sq cfg st)\<^sup>*\<^sup>* (at_pc nd h p Due) (at_pc nd' h (p'\<lparr>dirtySince := x\<rparr>) Idle))"
proof -
  obtain c nd1 where 1: "dbTotalChanges h nd = (c, nd1)" by (metis prod.collapse)
  show ?thesis
  proof (cases c)
    case (Inl e)
    with assms 1 have q: "r = Inl (BlobOther e)" "nd' = nd1" by (simp_all add: publish_def)
    show ?thesis unfolding q sum.case
      by (intro allI impI act_once pub_act.count_failed [OF 1 [unfolded Inl]])
  next
    case (Inr before)
    note s1 = pub_act.counted [OF 1 [unfolded Inr]]
    obtain k nd2 where 2: "publish_check cfg st h nd1 = (k, nd2)" by (metis prod.collapse)
    show ?thesis
    proof (cases k)
      case (Some e)
      with assms 1 2 Inr have q: "r = Inl e" "nd' = nd2" by (simp_all add: publish_def)
      show ?thesis unfolding q sum.case
        by (intro allI impI act_then [OF s1] act_once pub_act.check_failed [OF 2 [unfolded Some]])
    next
      case None
      note s2 = pub_act.checked [OF 2 [unfolded None]]
      obtain w nd3 where 3: "writeSnapshotTo sq h (p_path p) nd2 = (w, nd3)" by (metis prod.collapse)
      show ?thesis
      proof (cases w)
        case (Some e)
        with assms 1 2 3 Inr None have q: "r = Inl (BlobOther e)" "nd' = nd3" by (simp_all add: publish_def)
        show ?thesis unfolding q sum.case
          by (intro allI impI act_then [OF s1] act_then [OF s2] act_once
              pub_act.build_failed [OF 3 [unfolded Some]])
      next
        case built: None
        note s3 = pub_act.built [OF 3 [unfolded built]]
        have 4: "publish_send st before p nd3 = (r, nd')"
          using assms 1 2 3 Inr None built by (simp add: publish_def)
        show ?thesis
        proof (cases r)
          case (Inl e)
          show ?thesis unfolding Inl sum.case
            by (intro allI impI act_then [OF s1] act_then [OF s2] act_then [OF s3] act_once
                pub_act.send_failed [OF 4 [unfolded Inl]])
        next
          case (Inr p')
          show ?thesis unfolding Inr sum.case
            by (intro allI impI act_then [OF s1] act_then [OF s2] act_then [OF s3] act_once
                pub_act.sent [OF 4 [unfolded Inr]])
        qed
      qed
    qed
  qed
qed

lemma acts_steps: "(pub_act sq cfg st)\<^sup>*\<^sup>* a b \<Longrightarrow> pub_steps obj sq cfg st a b"
  by (induction rule: rtranclp_induct) (auto intro: rtranclp.rtrancl_into_rtrancl pub_step.act)

lemma publish_steps:
  assumes "publish sq cfg st h p nd = (r, nd')"
  shows "case r of
      Inl e \<Rightarrow> (\<forall>x. x \<in> {dirtySince p, Some now} \<longrightarrow>
        pub_steps obj sq cfg st (at_pc nd h p Due) (at_pc nd' h (p\<lparr>dirtySince := x\<rparr>) Idle))
    | Inr p' \<Rightarrow> (\<forall>x. x \<in> {dirtySince p', None} \<longrightarrow>
        pub_steps obj sq cfg st (at_pc nd h p Due) (at_pc nd' h (p'\<lparr>dirtySince := x\<rparr>) Idle))"
  using publish_acts [OF assms, of now] by (cases r) (auto intro: acts_steps)

lemma tick_steps:
  assumes "tick sq cfg st h p nd = (p', nd')"
  shows "pub_steps obj sq cfg st (at_pc nd h p Idle) (at_pc nd' h p' Idle)"
proof -
  obtain due p1 nd1 where 1: "tick_due h p nd = (due, p1, nd1)" by (metis prod.collapse)
  have s1: "pub_step obj sq cfg st (at_pc nd h p Idle) (at_pc nd1 h p1 (if due then Due else Idle))"
    by (rule pub_step.act [OF pub_act.ticked [OF 1]])
  show ?thesis
  proof (cases due)
    case False
    with assms 1 have "p' = p1" "nd' = nd1" by (simp_all add: tick_def)
    with s1 False show ?thesis by auto
  next
    case True
    obtain r nd2 where 2: "publish sq cfg st h p1 nd1 = (r, nd2)" by (metis prod.collapse)
    show ?thesis
    proof (cases r)
      case (Inl e)
      obtain now nd3 where 3: "clock_now nd2 = (now, nd3)" by (metis prod.collapse)
      have q: "p' = p1\<lparr>dirtySince := Some now\<rparr>" "nd' = nd3"
        using assms 1 2 3 True Inl by (simp_all add: tick_def)
      have "pub_steps obj sq cfg st (at_pc nd1 h p1 Due) (at_pc nd2 h p' Idle)"
        using publish_steps [OF 2, of now obj] Inl q by simp
      moreover have "pub_step obj sq cfg st (at_pc nd2 h p' Idle) (at_pc nd' h p' Idle)"
        using 3 q by (auto intro!: pub_step.elsewhere simp: outside_def clock_now_def)
      ultimately have "pub_steps obj sq cfg st (at_pc nd1 h p1 Due) (at_pc nd' h p' Idle)" by simp
      with s1 True show ?thesis by (auto intro: pub_then)
    next
      case (Inr p2)
      have q: "p' = p2\<lparr>dirtySince := None\<rparr>" "nd' = nd2"
        using assms 1 2 True Inr by (simp_all add: tick_def)
      have "pub_steps obj sq cfg st (at_pc nd1 h p1 Due) (at_pc nd' h p' Idle)"
        using publish_steps [OF 2, of _ obj] Inr q by simp
      with s1 True show ?thesis by (auto intro: pub_then)
    qed
  qed
qed

lemma flush_steps:
  assumes "flush sq cfg st h p nd = (p', nd')"
  shows "(\<exists>nd1. nd' = nd1 \<and> p' = p \<and> file_at (disk nd1) = file_at (disk nd) \<and> remote nd1 = remote nd)
    \<or> pub_steps obj sq cfg st (at_pc nd h p Idle) (at_pc nd' h p' Idle)"
proof -
  obtain c nd1 where 1: "dbTotalChanges h nd = (c, nd1)" by (metis prod.collapse)
  note k = h_query_keeps [OF 1 [unfolded dbTotalChanges_def]]
  show ?thesis
  proof (cases "\<exists>n. c = Inr n \<and> n \<noteq> published p")
    case False
    with assms 1 k show ?thesis by (auto simp: flush_def split: sum.splits if_splits)
  next
    case True
    then obtain n where n: "c = Inr n" "n \<noteq> published p" by blast
    have s1: "pub_step obj sq cfg st (at_pc nd h p Idle) (at_pc nd1 h p Due)"
      by (rule pub_step.act [OF pub_act.flushed [OF 1 [unfolded n(1)] n(2)]])
    obtain r nd2 where 2: "publish sq cfg st h p nd1 = (r, nd2)" by (metis prod.collapse)
    have q: "nd' = nd2" "p' = (case r of Inl _ \<Rightarrow> p | Inr p1 \<Rightarrow> p1)"
      using assms 1 2 n by (auto simp: flush_def split: sum.splits)
    have "pub_steps obj sq cfg st (at_pc nd1 h p Due) (at_pc nd' h p' Idle)"
    proof (cases r)
      case (Inl e)
      have "pub_steps obj sq cfg st (at_pc nd1 h p Due) (at_pc nd2 h p Idle)"
        using publish_steps [OF 2, of 0 obj] Inl by simp
      with q Inl show ?thesis by simp
    next
      case (Inr p1)
      have "pub_steps obj sq cfg st (at_pc nd1 h p Due) (at_pc nd2 h p1 Idle)"
        using publish_steps [OF 2, of 0 obj] Inr by simp
      with q Inr show ?thesis by simp
    qed
    with s1 show ?thesis by (auto intro: pub_then)
  qed
qed

section \<open>What a publish delivers\<close>

lemma publish_delivers:
  assumes "s3_documented (client st) obj" and "publish sq cfg st h p nd = (Inr p', nd')"
  shows "published p' = h_changes h
    \<and> (\<exists>d n. h_db h = Inr d \<and> s3_look obj st (remote nd') snapshotKey = Some (vacuum_image sq d)
         \<and> count_files d = Inr n \<and> (n > 0 \<or> dbRestoreMode cfg = dbRestoreIgnore
              \<or> s3_look obj st (remote nd) snapshotKey \<in> {None, Some []}))"
proof -
  obtain c nd1 where 1: "dbTotalChanges h nd = (Inr c, nd1)"
    using assms(2) by (auto simp: publish_def split: prod.splits sum.splits)
  then obtain nd2 where 2: "publish_check cfg st h nd1 = (None, nd2)"
    using assms(2) by (auto simp: publish_def split: prod.splits option.splits)
  with 1 obtain nd3 where 3: "writeSnapshotTo sq h (p_path p) nd2 = (None, nd3)"
    using assms(2) by (auto simp: publish_def split: prod.splits option.splits)
  have 4: "publish_send st c p nd3 = (Inr p', nd')" using assms(2) 1 2 3 by (simp add: publish_def)
  have "c = h_changes h" "remote nd1 = remote nd" using total_changes [OF 1] by simp_all
  moreover obtain d n where "h_db h = Inr d" "count_files d = Inr n"
    "n > 0 \<or> dbRestoreMode cfg = dbRestoreIgnore \<or> s3_look obj st (remote nd1) snapshotKey \<in> {None, Some []}"
    using publish_check_keeps [OF 2, of obj] assms(1) by blast
  moreover have "\<exists>d. h_db h = Inr d \<and> file_at (disk nd3) (p_path p) = Some (vacuum_image sq d)"
    using writeSnapshotTo_keeps [OF 3] by blast
  moreover have "p' = p\<lparr>published := c\<rparr>" "s3_look obj st (remote nd') snapshotKey = file_at (disk nd3) (p_path p)"
    using publish_send_keeps [OF 4, of obj] assms(1) by blast+
  ultimately show ?thesis by auto
qed

text \<open>A fresh publisher takes what the database holds for published: it waits for the next write.\<close>

lemma fresh_publisher_waits:
  assumes "runSnapshotPublisher cfg sst h nd = (Some p, nd1)" and "tick sq cfg st h p nd2 = (p', nd3)"
  shows "p' = p \<and> disk nd3 = disk nd2 \<and> remote nd3 = remote nd2"
proof -
  have "newSnapshotPublisher cfg h nd = (Inr p, nd1)"
    using assms(1) by (auto simp: runSnapshotPublisher_def split: if_splits prod.splits sum.splits)
  from pub_inv_start [OF this] have b: "published p = h_changes h" by simp
  obtain c nd4 where 1: "dbTotalChanges h nd2 = (c, nd4)" by (metis prod.collapse)
  note k = h_query_keeps [OF 1 [unfolded dbTotalChanges_def]]
  with b 1 have "tick_due h p nd2 = (False, p, nd4)"
    by (cases c) (auto simp: tick_due_def)
  with assms(2) k show ?thesis by (simp add: tick_def)
qed

text \<open>An object that turns out too large is deleted, whatever was stored under its key before.\<close>

lemma oversized_put_deletes:
  assumes "s3_documented (client st) obj" and "s3_Put st key r mx s = (Inl BlobTooLarge, s1)"
    and "\<And>s2. fst (DeleteObject (client st) (bucket st) (objectKey st key) s2) = None"
  shows "s3_look obj st s1 key = None"
proof -
  have "\<exists>s2. s1 = snd (s3_Delete st key s2)"
    using assms(2) by (auto simp: s3_Put_def split: prod.splits option.splits if_splits)
  then obtain s2 where s2: "s1 = snd (s3_Delete st key s2)" by blast
  obtain d s3 where d: "DeleteObject (client st) (bucket st) (objectKey st key) s2 = (d, s3)" by (metis prod.collapse)
  with assms(3) [of s2] have "s3_Delete st key s2 = (None, s3)" by (simp add: s3_Delete_def)
  with s2 s3_Delete_look [OF assms(1) this, of key] show ?thesis by simp
qed

end
