(* ===== verification/Startup.thy ===== *)
theory Startup
  imports PublisherRun
begin

text \<open>
  The second half of \<open>main\<close>: the blob store, the snapshot store, the database and the background
  loops are set up in this order, and any failure ends the process. Then the life of a replica:
  rounds of \<open>refresh\<close> between which the writer may do anything to the bucket.
\<close>

section \<open>Starting the server\<close>

record 's running =
  i_backend :: "'s s3_client backend"
  i_snapshots :: "'s s3Storage option"
  i_handle :: handle
  i_publisher :: "snapshotPublisher option"
  i_replica :: "snapshotReplica option"

datatype start_error =
    NoUploadFolder string
  | NoStorage string
  | NoSnapshots string
  | NoDatabase boot_error

definition start_server ::
  "sqlite \<Rightarrow> nat \<Rightarrow> (client_options \<Rightarrow> 's s3_client result) \<Rightarrow> config \<Rightarrow> 's node \<Rightarrow>
     (start_error + 's running) \<times> 's node" where
  "start_server sq k build cfg nd =
     (case on_disk (os_MkdirAll (uploadFolder cfg)) nd of
        (Some e, nd1) \<Rightarrow> (Inl (NoUploadFolder e), nd1)
      | (None, nd1) \<Rightarrow>
     (case newStorage build cfg None of
        (Inl e, memo) \<Rightarrow> (Inl (NoStorage e), nd1)
      | (Inr store1, memo) \<Rightarrow>
     (case initSnapshotStore cfg (fst (sharedS3Client build cfg memo)) of
        Inl e \<Rightarrow> (Inl (NoSnapshots e), nd1)
      | Inr snapshotStore \<Rightarrow>
     (case bootDatabase sq k cfg snapshotStore nd1 of
        (Inl e, nd2) \<Rightarrow> (Inl (NoDatabase e), nd2)
      | (Inr (h, replica), nd2) \<Rightarrow>
     (case runSnapshotPublisher cfg snapshotStore h nd2 of
        (publisher, nd3) \<Rightarrow>
          (Inr \<lparr>i_backend = store1, i_snapshots = snapshotStore, i_handle = h,
                i_publisher = publisher, i_replica = replica\<rparr>, nd3))))))"

lemma boot_replica:
  assumes "bootDatabase sq k cfg sst nd = (Inr (h, Some r), nd1)"
  shows "readOnly (serving cfg) \<and> snapshot_ok sq (h_bytes h) \<and> h_readOnly h
    \<and> h_db h = parse_db sq (h_bytes h) \<and> file_at (disk nd1) (r_path r) = Some (h_bytes h)
    \<and> r_path r = databasePath cfg \<and> generations r = 0"
proof -
  obtain p nd2 where p: "prepareDatabase sq k cfg sst nd = (p, nd2)" by (metis prod.collapse)
  obtain a nd3 where a: "adoptDatabase sq cfg nd2 = (a, nd3)" by (metis prod.collapse)
  have pa: "p = Inr (Some r)" "a = Inr h" "nd1 = nd3"
    using assms p a by (auto simp: bootDatabase_def split: sum.splits)
  obtain e nd4 where e: "on_disk (os_Stat (databasePath cfg)) nd = (e, nd4)" by (metis prod.collapse)
  obtain g nd5 where g: "downloadSnapshot sq k sst (databasePath cfg) nd4 = (g, nd5)" by (metis prod.collapse)
  have ro: "readOnly (serving cfg)" and r: "\<exists>i. g = Inr i" "disk nd2 = disk nd5"
    "r_path r = databasePath cfg" "generations r = 0"
    using p pa e g by (auto simp: prepareDatabase_def clock_now_def Let_def split: if_splits sum.splits prod.splits option.splits)
  obtain b where "file_at (disk nd5) (databasePath cfg) = Some b" "snapshot_ok sq b"
    using download_keeps [OF g] r(1) by blast
  with adopt_reader [OF a ro] pa r ro show ?thesis by auto
qed

lemma start_roles:
  assumes "start_server sq k build cfg nd = (Inr i, nd1)"
  shows "(i_publisher i \<noteq> None \<longrightarrow> \<not> readOnly (serving cfg) \<and> i_snapshots i \<noteq> None \<and> dbBackupDelay cfg > 0)
    \<and> (i_replica i \<noteq> None \<longrightarrow> readOnly (serving cfg) \<and> i_publisher i = None
         \<and> snapshot_ok sq (h_bytes (i_handle i)))
    \<and> (\<exists>d t. h_db (i_handle i) = Inr d \<and> user_version d = schemaVersion \<and> tabs d = Some t)"
proof -
  obtain sst nd2 h rep nd3 pub nd4 where b: "bootDatabase sq k cfg sst nd2 = (Inr (h, rep), nd3)"
    and r: "runSnapshotPublisher cfg sst h nd3 = (pub, nd4)"
    and i: "i_snapshots i = sst" "i_handle i = h" "i_publisher i = pub" "i_replica i = rep"
    using assms by (auto simp: start_server_def split: prod.splits option.splits sum.splits)
  have pub: "pub \<noteq> None \<longrightarrow> \<not> readOnly (serving cfg) \<and> sst \<noteq> None \<and> dbBackupDelay cfg > 0"
    using r by (cases sst) (auto simp: runSnapshotPublisher_def split: if_splits)
  have rep: "rep \<noteq> None \<longrightarrow> readOnly (serving cfg) \<and> snapshot_ok sq (h_bytes h)"
    using boot_replica b by blast
  obtain nd5 where a: "adoptDatabase sq cfg nd5 = (Inr h, nd3)"
    using b by (auto simp: bootDatabase_def split: prod.splits sum.splits)
  have "\<exists>d t. h_db h = Inr d \<and> user_version d = schemaVersion \<and> tabs d = Some t"
  proof (cases "readOnly (serving cfg)")
    case True
    with adopt_reader [OF a] show ?thesis by blast
  next
    case False
    with adopt_writer [OF a] show ?thesis by (fastforce simp: adopted_def)
  qed
  with pub rep show ?thesis unfolding i by blast
qed

section \<open>The life of a replica\<close>

record 's replica_sys =
  rs_node :: "'s node"
  rs_replica :: snapshotReplica
  rs_handle :: handle
  rs_found :: "BlobInfo option"

text \<open>The replica's own steps: the two halves of a round.\<close>

inductive replica_act ::
  "sqlite \<Rightarrow> nat \<Rightarrow> 's s3Storage option \<Rightarrow> 's replica_sys \<Rightarrow> 's replica_sys \<Rightarrow> bool"
  for sq k sst where
  asked: "replica_check sst r nd = (f, nd') \<Longrightarrow>
    replica_act sq k sst \<lparr>rs_node = nd, rs_replica = r, rs_handle = h, rs_found = None\<rparr>
      \<lparr>rs_node = nd', rs_replica = r, rs_handle = h, rs_found = f\<rparr>"
| loaded: "replica_load sq k sst info r h nd = (r', h', nd') \<Longrightarrow>
    replica_act sq k sst \<lparr>rs_node = nd, rs_replica = r, rs_handle = h, rs_found = Some info\<rparr>
      \<lparr>rs_node = nd', rs_replica = r', rs_handle = h', rs_found = None\<rparr>"

text \<open>The environment may do what it likes to the bucket, but the database file is the replica's own.\<close>

inductive replica_step ::
  "sqlite \<Rightarrow> nat \<Rightarrow> 's s3Storage option \<Rightarrow> 's replica_sys \<Rightarrow> 's replica_sys \<Rightarrow> bool"
  for sq k sst where
  environment: "file_at (disk nd') (r_path r) = file_at (disk nd) (r_path r) \<Longrightarrow>
    replica_step sq k sst \<lparr>rs_node = nd, rs_replica = r, rs_handle = h, rs_found = f\<rparr>
      \<lparr>rs_node = nd', rs_replica = r, rs_handle = h, rs_found = f\<rparr>"
| act: "replica_act sq k sst s s' \<Longrightarrow> replica_step sq k sst s s'"

text \<open>Whatever is served, and whatever a restart would find, has been verified.\<close>

definition replica_ok :: "sqlite \<Rightarrow> 's replica_sys \<Rightarrow> bool" where
  "replica_ok sq s \<longleftrightarrow> snapshot_ok sq (h_bytes (rs_handle s)) \<and> h_readOnly (rs_handle s)
     \<and> h_db (rs_handle s) = parse_db sq (h_bytes (rs_handle s))
     \<and> (case file_at (disk (rs_node s)) (r_path (rs_replica s)) of
          None \<Rightarrow> False | Some b \<Rightarrow> snapshot_ok sq b)"

lemma replica_load_ok:
  assumes "replica_load sq k sst info r h nd = (r', h', nd')"
    and "file_at (disk nd) (r_path r) = Some b" and "snapshot_ok sq b"
    and "snapshot_ok sq (h_bytes h)" and "h_readOnly h" and "h_db h = parse_db sq (h_bytes h)"
  shows "(\<exists>b1. file_at (disk nd') (r_path r') = Some b1 \<and> snapshot_ok sq b1)
    \<and> snapshot_ok sq (h_bytes h') \<and> h_readOnly h' \<and> h_db h' = parse_db sq (h_bytes h')"
proof -
  obtain g nd3 where g: "downloadSnapshot sq k sst (r_path r) nd = (g, nd3)" by (metis prod.collapse)
  obtain ho nd4 where o1: "openSQLite sq (r_path r) True nd3 = (ho, nd4)" by (metis prod.collapse)
  note op = open_readonly [OF o1]
  note dl = download_keeps [OF g]
  note run = assms(1) [unfolded replica_load_def g prod.case]
  show ?thesis
  proof (cases g)
    case (Inl e)
    with run dl assms show ?thesis by simp
  next
    case (Inr i)
    then obtain b1 where b1: "file_at (disk nd3) (r_path r) = Some b1" "snapshot_ok sq b1" using dl by blast
    show ?thesis
    proof (cases ho)
      case (Inl e)
      with run Inr o1 op b1 assms show ?thesis by simp
    next
      case (Inr h2)
      have h2: "file_at (disk nd3) (r_path r) = Some (h_bytes h2)" "h_readOnly h2"
        "h_db h2 = parse_db sq (h_bytes h2)" using op Inr by simp_all
      then have "snapshot_ok sq (h_bytes h2)" using b1 by simp
      moreover have "h' = h2" "disk nd' = disk nd4" "r_path r' = r_path r"
        using run \<open>g = Inr i\<close> Inr o1 by (auto simp: clock_now_def)
      ultimately show ?thesis using h2 op by simp
    qed
  qed
qed

lemma replica_ok_act: "replica_act sq k sst s s' \<Longrightarrow> replica_ok sq s \<Longrightarrow> replica_ok sq s'"
proof (induction rule: replica_act.cases)
  case (asked r nd f nd' h)
  then have "disk nd' = disk nd"
    using headSnapshot_keeps [of sst nd]
    by (auto simp: replica_check_def split: prod.splits sum.splits)
  with asked show ?case by (simp add: replica_ok_def)
next
  case (loaded info r h nd r' h' nd')
  then obtain b where "file_at (disk nd) (r_path r) = Some b" "snapshot_ok sq b"
    by (auto simp: replica_ok_def split: option.splits)
  with replica_load_ok [OF loaded(3)] loaded show ?case by (auto simp: replica_ok_def)
qed

lemma replica_ok_step: "replica_step sq k sst s s' \<Longrightarrow> replica_ok sq s \<Longrightarrow> replica_ok sq s'"
proof (induction rule: replica_step.cases)
  case (environment nd' r nd h f)
  then show ?case by (simp add: replica_ok_def)
next
  case (act s s')
  then show ?case using replica_ok_act by simp
qed

lemma replica_ok_steps:
  assumes "(replica_step sq k sst)\<^sup>*\<^sup>* s s'" and "replica_ok sq s"
  shows "replica_ok sq s'"
  using assms by (induction rule: rtranclp_induct) (auto dest: replica_ok_step)

lemma replica_ok_boot:
  assumes "bootDatabase sq k cfg sst nd = (Inr (h, Some r), nd1)"
  shows "replica_ok sq \<lparr>rs_node = nd1, rs_replica = r, rs_handle = h, rs_found = None\<rparr>"
proof -
  have "file_at (disk nd1) (r_path r) = Some (h_bytes h)" "snapshot_ok sq (h_bytes h)"
    "h_readOnly h" "h_db h = parse_db sq (h_bytes h)"
    using boot_replica [OF assms] by blast+
  then show ?thesis by (simp add: replica_ok_def)
qed

lemma refresh_steps:
  assumes "refresh sq k sst r h nd = (r', h', nd')"
  shows "(replica_step sq k sst)\<^sup>*\<^sup>* \<lparr>rs_node = nd, rs_replica = r, rs_handle = h, rs_found = None\<rparr>
    \<lparr>rs_node = nd', rs_replica = r', rs_handle = h', rs_found = None\<rparr>"
proof -
  obtain c nd2 where c: "replica_check sst r nd = (c, nd2)" by (metis prod.collapse)
  note s1 = replica_step.act [OF replica_act.asked [OF c, of sq k h]]
  show ?thesis
  proof (cases c)
    case None
    with s1 c assms show ?thesis by (auto simp: refresh_def)
  next
    case (Some info)
    then have "replica_load sq k sst info r h nd2 = (r', h', nd')"
      using assms c by (simp add: refresh_def)
    note s2 = replica_step.act [OF replica_act.loaded [OF this]]
    have "(replica_step sq k sst)\<^sup>*\<^sup>* \<lparr>rs_node = nd2, rs_replica = r, rs_handle = h, rs_found = c\<rparr>
      \<lparr>rs_node = nd', rs_replica = r', rs_handle = h', rs_found = None\<rparr>"
      using s2 Some by (auto intro: r_into_rtranclp)
    with s1 show ?thesis by (rule converse_rtranclp_into_rtranclp)
  qed
qed

end
