(* ===== verification/SnapshotExamples.thy ===== *)
theory SnapshotExamples
  imports Startup Examples
begin

text \<open>
  A database engine and a bucket that compute, for the witnesses: a database file is a list of
  strings written with three marks, and a bucket an association list whose entity tags are the
  contents. Both keep the documented behaviour the theorems ask for.
\<close>

section \<open>A file format\<close>

fun put_str :: "string \<Rightarrow> bytes" where
  "put_str [] = [CHR ''2'']"
| "put_str (c # s) = CHR ''1'' # c # put_str s"

definition put_strs :: "string list \<Rightarrow> bytes" where
  "put_strs xs = concat (map put_str xs) @ [CHR ''0'']"

text \<open>The first string of the result is what is left of the one being read.\<close>

fun get_strs :: "bytes \<Rightarrow> (string list \<times> bytes) option" where
  "get_strs [] = None"
| "get_strs (t # r) =
     (if t = CHR ''0'' then Some ([], r)
      else if t = CHR ''2'' then
        (case get_strs r of Some (ss, r1) \<Rightarrow> Some ([] # ss, r1) | None \<Rightarrow> None)
      else
        (case r of
           [] \<Rightarrow> None
         | c # r1 \<Rightarrow>
             (case get_strs r1 of Some (s # ss, r2) \<Rightarrow> Some ((c # s) # ss, r2) | _ \<Rightarrow> None)))"

lemma get_put_str: "get_strs r = Some (ss, r1) \<Longrightarrow> get_strs (put_str s @ r) = Some (s # ss, r1)"
  by (induction s) simp_all

lemma get_put_strs: "get_strs (put_strs xs @ r) = Some (xs, r)"
  by (induction xs) (simp_all add: put_strs_def get_put_str)

definition put_int :: "int \<Rightarrow> string" where
  "put_int n = (if n < 0 then CHR ''-'' else CHR ''+'') # replicate (nat \<bar>n\<bar>) CHR ''i''"

definition get_int :: "string \<Rightarrow> int" where
  "get_int s = (if hd s = CHR ''-'' then - int (length (tl s)) else int (length (tl s)))"

definition put_bool :: "bool \<Rightarrow> string" where
  "put_bool b = (if b then ''t'' else [])"

lemma get_put_int [simp]: "get_int (put_int n) = n"
  by (simp add: get_int_def put_int_def)

lemma put_bool_empty [simp]: "put_bool b = [] \<longleftrightarrow> \<not> b"
  by (simp add: put_bool_def)

definition put_file :: "FileRecord \<Rightarrow> string list" where
  "put_file r = [Slug r, DisplayName r, StorageKey r, put_int (Size r), Modified r, MimeType r,
     put_bool (Deleted r), put_bool (Pending r)]"

fun get_files :: "string list \<Rightarrow> FileRecord list" where
  "get_files (a # b # c # d # e # f # g # h # rest) =
     \<lparr>Slug = a, DisplayName = b, StorageKey = c, Size = get_int d, Modified = e, MimeType = f,
      Deleted = (g \<noteq> []), Pending = (h \<noteq> [])\<rparr> # get_files rest"
| "get_files _ = []"

definition put_tagrow :: "TagRow \<Rightarrow> string list" where
  "put_tagrow t = [tag_name t, tag_suffix t, tag_slug t, tag_created t]"

fun get_tagrows :: "string list \<Rightarrow> TagRow list" where
  "get_tagrows (a # b # c # d # rest) =
     \<lparr>tag_name = a, tag_suffix = b, tag_slug = c, tag_created = d\<rparr> # get_tagrows rest"
| "get_tagrows _ = []"

lemma get_put_files: "get_files (concat (map put_file fs)) = fs"
  by (induction fs) (simp_all add: put_file_def)

lemma get_put_tagrows: "get_tagrows (concat (map put_tagrow ts)) = ts"
  by (induction ts) (simp_all add: put_tagrow_def)

definition ex_image :: "dbfile \<Rightarrow> bytes" where
  "ex_image d = CHR ''S'' # put_strs [put_int (user_version d), put_bool (tabs d \<noteq> None)]
     @ (case tabs d of
          None \<Rightarrow> []
        | Some t \<Rightarrow> put_strs (concat (map put_file (files t))) @ put_strs (concat (map put_tagrow (tags t))))"

definition ex_parse :: "bytes \<Rightarrow> dbfile result" where
  "ex_parse b =
     (case b of
        [] \<Rightarrow> Inr blank_db
      | m # r \<Rightarrow>
          if m \<noteq> CHR ''S'' then Inl ''file is not a database''
          else
            (case get_strs r of
               Some ([v, w], r1) \<Rightarrow>
                 if w = [] then Inr \<lparr>tabs = None, user_version = get_int v\<rparr>
                 else
                   (case get_strs r1 of
                      Some (fs, r2) \<Rightarrow>
                        (case get_strs r2 of
                           Some (ts, r3) \<Rightarrow>
                             Inr \<lparr>tabs = Some \<lparr>files = get_files fs, tags = get_tagrows ts\<rparr>,
                                  user_version = get_int v\<rparr>
                         | None \<Rightarrow> Inl ''database disk image is malformed'')
                    | None \<Rightarrow> Inl ''database disk image is malformed'')
             | _ \<Rightarrow> Inl ''database disk image is malformed''))"

definition ex_sqlite :: sqlite where
  "ex_sqlite =
     \<lparr>parse_db = ex_parse,
      quick_check = (\<lambda>b. case ex_parse b of Inl e \<Rightarrow> Inl e | Inr _ \<Rightarrow> Inr ''ok''),
      vacuum_image = ex_image, rewritten = (\<lambda>_. ex_image)\<rparr>"

lemma ex_parse_image: "ex_parse (ex_image d) = Inr d"
proof (cases "tabs d")
  case None
  then show ?thesis
    using get_put_strs [of "[put_int (user_version d), put_bool False]" "[]"]
    by (cases d) (simp add: ex_image_def ex_parse_def)
next
  case (Some t)
  have "get_strs (put_strs xs) = Some (xs, [])" for xs using get_put_strs [of xs "[]"] by simp
  then show ?thesis using Some
    by (cases d; cases t)
      (simp add: ex_image_def ex_parse_def get_put_strs get_put_files get_put_tagrows put_bool_def)
qed

lemma ex_sqlite_documented: "sqlite_documented ex_sqlite"
  using ex_parse_image
  by (simp add: sqlite_documented_def ex_sqlite_def) (simp add: ex_parse_def ex_image_def)

section \<open>A bucket\<close>

type_synonym memory = "((string \<times> string) \<times> bytes) list"

definition s3_failure :: "bool \<Rightarrow> string \<Rightarrow> s3_error" where
  "s3_failure missing text =
     \<lparr>is_NotFound = missing, is_NoSuchKey = False, ErrorCode = None, HTTPStatusCode = None, error_text = text\<rparr>"

definition ex_client :: "memory s3_client" where
  "ex_client =
     \<lparr>HeadObject = (\<lambda>b k s. (case map_of s (b, k) of
          None \<Rightarrow> Inl (s3_failure True ''not found'')
        | Some x \<Rightarrow>
            if int (length x) \<le> max_int64
            then Inr \<lparr>ContentLength = Some (int (length x)), head_ETag = Some x, LastModified = Some 0\<rparr>
            else Inl (s3_failure False ''too large''), s)),
      GetObject = (\<lambda>b k start s. (case map_of s (b, k) of
          None \<Rightarrow> Inl (s3_failure True ''not found'')
        | Some x \<Rightarrow> Inr \<lparr>blocks = [], last_block = drop (nat (aws_ToInt64 start)) x, ending = EOF\<rparr>, s)),
      DeleteObject = (\<lambda>b k s. (None, AList.delete (b, k) s)),
      UploadObject = (\<lambda>b k r s. case copy_capped 31 r [] of
          (CapEOF, out, r1) \<Rightarrow> ((None, r1), AList.update (b, k) out s)
        | (e, out, r1) \<Rightarrow> ((Some (s3_failure False ''upload failed''), r1), s))\<rparr>"

lemma ex_client_documented: "s3_documented ex_client map_of"
  unfolding s3_documented_def
proof (intro conjI, goal_cases)
  case 1
  show ?case
    by (auto simp: ex_client_def s3_failure_def isS3NotFound_def split: option.splits if_splits)
next
  case 2
  show ?case
    by (auto simp: ex_client_def reader_bytes_def split: option.splits)
next
  case 3
  show ?case by (auto simp: ex_client_def delete_conv')
next
  case 4
  show ?case
    by (auto simp: ex_client_def update_conv' split: prod.splits cap_end.splits)
qed


section \<open>A deployment\<close>

text \<open>To read the result of a run off a test of it.\<close>

lemma runs_Inr: "(case p of (Inr x, s) \<Rightarrow> P x s | _ \<Rightarrow> False) \<Longrightarrow> \<exists>x s. p = (Inr x, s) \<and> P x s"
  by (cases p; cases "fst p") auto

definition ex_parsers :: parsers where
  "ex_parsers =
     \<lparr>unicode_lower = (\<lambda>s. s), unicode_upper = (\<lambda>s. s), float_scaled = (\<lambda>_ _. None),
      float_negative = (\<lambda>_. False),
      go_duration = (\<lambda>s. if s = ''30s'' then Some (30 * 10 ^ 9) else None),
      decode_roles = (\<lambda>_. Inl ''invalid character''), decode_groups = (\<lambda>_. Inl ''invalid character'')\<rparr>"

definition ex_getenv :: "(string \<times> string) list \<Rightarrow> string \<Rightarrow> string" where
  "ex_getenv env name = (case map_of env name of None \<Rightarrow> [] | Some v \<Rightarrow> v)"

definition ex_writer_env :: "string \<Rightarrow> (string \<times> string) list" where
  "ex_writer_env restore =
     [(''ART_UPLOAD_FOLDER'', ''/d''), (''ART_API_TOKEN'', ''secret''), (''ART_SESSION_SECRET'', ex_key),
      (''ART_S3_BUCKET'', ''b''), (''ART_DB_BACKUP_DELAY'', ''30s''), (''ART_DB_RESTORE'', restore)]"

definition ex_replica_env :: "(string \<times> string) list" where
  "ex_replica_env =
     [(''ART_UPLOAD_FOLDER'', ''/r''), (''ART_S3_BUCKET'', ''b''), (''ART_STORAGE'', ''s3''),
      (''ART_DB_REPLICA'', ''true'')]"

definition ex_load :: "(string \<times> string) list \<Rightarrow> startup_error + config" where
  "ex_load env = load_config ex_parsers (ex_getenv env)"

definition ex_conf :: "string \<Rightarrow> config" where
  "ex_conf restore = projr (ex_load (ex_writer_env restore))"

definition ex_replica_conf :: config where
  "ex_replica_conf = projr (ex_load ex_replica_env)"

text \<open>The values of the configurations, evaluated once.\<close>

definition ex_loaded :: "bool \<Rightarrow> string \<Rightarrow> config" where
  "ex_loaded rep restore =
     \<lparr>uploadFolder = (if rep then ''/r'' else ''/d''), staticFolder = ''./static'', storageKind = (if rep then ''s3'' else ''fs''), s3Bucket = ''b'',
      s3Prefix = [], s3Region = [], s3Endpoint = [], s3PathStyle = False, dbReplica = rep,
      dbRestoreMode = restore, dbBackupPrefix = ''_backup'', dbBackupDelay = (if rep then 0 else 30000000000),
      dbPollInterval = 60000000000,
      serving =
        \<lparr>maxContentLength = 104857600, apiToken = (if rep then [] else ''secret''), webPortal = True, noListing = False,
         appendOnly = False, noFilenameURL = False, maxListLimit = 500, readOnly = rep,
         session = \<lparr>sessionSecret = (if rep then [] else ex_key), sessionTTL = 43200000000000\<rparr>, oidcEnabled = False\<rparr>,
      authz_of =
        \<lparr>roles =
           [(''creator'', [''file:create'', ''tag:add'']), (''tagger'', [''tag:remove'']),
            (''deleter'', [''file:delete'']),
            (''admin'', [''file:create'', ''file:delete'', ''tag:add'', ''tag:remove''])],
         groupRoles = [(''*'', [''admin''])], groupsConfigured = False\<rparr>,
      oidc_of =
        \<lparr>oidcIssuer = [], oidcClientID = [], oidcClientSecret = [], oidcScopes = [''openid'', ''profile''],
         oidcRedirectURL = [], oidcGroupsClaim = ''groups''\<rparr>\<rparr>"

lemma ex_conf_values:
  "ex_conf [] = ex_loaded False [] \<and> ex_conf ''auto'' = ex_loaded False ''auto'' \<and> ex_replica_conf = ex_loaded True []"
  by code_simp

lemma ex_conf_eval [code]:
  "ex_conf restore =
     (if restore = [] \<or> restore = ''auto'' then ex_loaded False restore else projr (ex_load (ex_writer_env restore)))"
  using ex_conf_values by (auto simp: ex_conf_def)

lemma ex_replica_conf_eval [code]: "ex_replica_conf = ex_loaded True []"
  using ex_conf_values by blast

definition ex_store :: "memory s3Storage" where
  "ex_store = newS3StorageWithClient ex_client ''b'' ''_backup''"

lemma ex_store_client: "client ex_store = ex_client"
  by (simp add: ex_store_def newS3StorageWithClient_def)

lemma ex_store_documented: "s3_documented (client ex_store) map_of"
  using ex_client_documented ex_store_client by simp

definition ex_node :: "memory \<Rightarrow> memory node" where
  "ex_node mem =
     \<lparr>disk = \<lparr>entries = [], io_faults = [], fs_now = 0\<rparr>, remote = mem, sqlFaults = [],
      ticks = (\<lambda>i. int i * 10 ^ 12)\<rparr>"

text \<open>The writer after one upload, and its publisher before and after a tick.\<close>

definition ex_dbfile :: dbfile where
  "ex_dbfile = \<lparr>tabs = Some (tables_of ex_used), user_version = schemaVersion\<rparr>"

definition ex_fresh :: handle where
  "ex_fresh = \<lparr>h_path = ''/d/artifact.db'', h_readOnly = False, h_bytes = [], h_db = Inr (adopted blank_db), h_changes = 0\<rparr>"

definition ex_live :: handle where
  "ex_live = ex_fresh\<lparr>h_db := Inr ex_dbfile, h_changes := 4\<rparr>"

definition ex_pub :: snapshotPublisher where
  "ex_pub = \<lparr>p_delay = 30 * 10 ^ 9, p_path = ''/d/_backup/artifact.db'', published = 0, dirtySince = None\<rparr>"

definition ex_publish :: "memory \<Rightarrow> (blob_error + snapshotPublisher) \<times> memory node" where
  "ex_publish mem = publish ex_sqlite (ex_conf []) ex_store ex_live ex_pub (ex_node mem)"

text \<open>The bucket with a published snapshot.\<close>

definition ex_bucket :: memory where
  "ex_bucket = [((''b'', ''_backup/artifact.db''), ex_image ex_dbfile)]"

lemma ex_bucket_eval [code]:
  "ex_bucket = [((''b'', ''_backup/artifact.db''),
     ''S1+1i21t201D1D1D1D1D21a1.1t1x1t21D1D1/1D1D1D21+1i1i21210121421t1e1x1t1/1p1l1a1i1n22201x21121D1D1D1D1D21210121420'')]"
  by code_simp

end
