(* ===== verification/SnapshotProperties.thy ===== *)
theory SnapshotProperties
  imports SnapshotExamples
begin

text \<open>
  The properties of booting, publishing, following and restoring, each with a run it applies to.
\<close>

section \<open>Booting\<close>

text \<open>
  C6. A lost volume is never mistaken for a new deployment. A writer without its database file
  boots while a snapshot is published, unless \<open>ART_DB_RESTORE=ignore\<close>, only with \<open>auto\<close>, and then
  it serves exactly the published database.
\<close>

theorem boot_never_starts_empty:
  assumes "s3_documented (client st) obj" and "s3_look obj st (remote nd) snapshotKey = Some x"
    and "\<not> readOnly (serving cfg)" and "dbRestoreMode cfg \<noteq> dbRestoreIgnore"
    and "file_at (disk nd) (databasePath cfg) = None"
    and "\<forall>nd0. on_disk (os_Stat (databasePath cfg)) nd \<noteq> (None, nd0)"
    and "bootDatabase sq k cfg (Some st) nd = (Inr (h, replica), nd1)"
  shows "dbRestoreMode cfg = dbRestoreAuto \<and> h_db h = parse_db sq x"
  by (rule boot_lost_volume [OF assms])

definition ex_boot :: "string \<Rightarrow> memory \<Rightarrow> (boot_error + handle \<times> snapshotReplica option) \<times> memory node" where
  "ex_boot restore mem = bootDatabase ex_sqlite 63 (ex_conf restore) (Some ex_store) (ex_node mem)"

lemma ex_boot_run:
  "\<exists>h rep nd1. ex_boot ''auto'' ex_bucket = (Inr (h, rep), nd1)"
proof -
  have "case ex_boot ''auto'' ex_bucket of (Inr _, _) \<Rightarrow> True | _ \<Rightarrow> False" by code_simp
  then show ?thesis by (auto split: prod.splits sum.splits)
qed

lemma ex_conf_auto:
  "\<not> readOnly (serving (ex_conf ''auto''))" "dbRestoreMode (ex_conf ''auto'') \<noteq> dbRestoreIgnore"
  "file_at (disk (ex_node ex_bucket)) (databasePath (ex_conf ''auto'')) = None"
  "fst (on_disk (os_Stat (databasePath (ex_conf ''auto''))) (ex_node ex_bucket)) \<noteq> None"
  "s3_look map_of ex_store (remote (ex_node ex_bucket)) snapshotKey = Some (ex_image ex_dbfile)"
  unfolding Option.is_none_def [symmetric] by code_simp+

lemma boot_never_starts_empty_witness:
  "\<exists>h rep nd1. ex_boot ''auto'' ex_bucket = (Inr (h, rep), nd1) \<and> h_db h = Inr ex_dbfile"
proof -
  obtain h rep nd1 where run: "ex_boot ''auto'' ex_bucket = (Inr (h, rep), nd1)"
    using ex_boot_run by blast
  have "\<forall>nd0. on_disk (os_Stat (databasePath (ex_conf ''auto''))) (ex_node ex_bucket) \<noteq> (None, nd0)"
    using ex_conf_auto(4) by auto
  from boot_never_starts_empty [OF ex_store_documented ex_conf_auto(5,1,2,3) this run [unfolded ex_boot_def]]
  have "h_db h = parse_db ex_sqlite (ex_image ex_dbfile)" by simp
  then show ?thesis using run by (simp add: ex_sqlite_def ex_parse_image)
qed




text \<open>
  C29. What a started instance is. It serves a database of this build's schema; only a writer with
  a bucket and a delay publishes; a replica is read-only, publishes nothing and starts from a
  verified snapshot.
\<close>

theorem started_roles:
  assumes "start_server sq k build cfg nd = (Inr i, nd1)"
  shows "(i_publisher i \<noteq> None \<longrightarrow> \<not> readOnly (serving cfg) \<and> i_snapshots i \<noteq> None \<and> dbBackupDelay cfg > 0)
    \<and> (i_replica i \<noteq> None \<longrightarrow> readOnly (serving cfg) \<and> i_publisher i = None
         \<and> snapshot_ok sq (h_bytes (i_handle i)))
    \<and> (\<exists>d t. h_db (i_handle i) = Inr d \<and> user_version d = schemaVersion \<and> tabs d = Some t)"
  by (rule start_roles [OF assms])

definition ex_replica_start :: "(start_error + memory running) \<times> memory node" where
  "ex_replica_start =
     start_server ex_sqlite 63 (\<lambda>_. Inr ex_client) ex_replica_conf (ex_node ex_bucket)"

lemma started_roles_witness:
  "\<exists>i nd1. ex_replica_start = (Inr i, nd1) \<and> i_replica i \<noteq> None \<and> i_publisher i = None
     \<and> snapshot_ok ex_sqlite (h_bytes (i_handle i))"
proof -
  have "case ex_replica_start of (Inr i, _) \<Rightarrow> \<not> Option.is_none (i_replica i) | _ \<Rightarrow> False" by code_simp
  then obtain i nd1 where run: "ex_replica_start = (Inr i, nd1)" "i_replica i \<noteq> None"
    by (auto simp: Option.is_none_def split: prod.splits sum.splits)
  from started_roles [OF run(1) [unfolded ex_replica_start_def]] run show ?thesis by blast
qed

section \<open>Downloading and restoring\<close>

text \<open>
  C13. Only a verified snapshot replaces a database file. A download that fails, wherever it fails,
  leaves the file as it was; one that succeeds has put the published object there, byte for byte and
  within the size the store announced, and it has passed the integrity and schema checks; besides
  the temporary name no other file changes.
\<close>

theorem download_replaces_only_by_verified:
  assumes "s3_documented (client st) obj" and "downloadSnapshot sq k (Some st) dst nd = (r, nd1)"
  shows "(\<forall>q. q \<noteq> dst \<longrightarrow> q \<noteq> dst @ ''.tmp'' \<longrightarrow> file_at (disk nd1) q = file_at (disk nd) q)
    \<and> (case r of
         Inl e \<Rightarrow> file_at (disk nd1) dst = file_at (disk nd) dst
       | Inr info \<Rightarrow> \<exists>b. s3_look obj st (remote nd) snapshotKey = Some b \<and> file_at (disk nd1) dst = Some b
           \<and> int (length b) = BlobSize info \<and> snapshot_ok sq b)"
proof -
  note k = download_keeps [OF assms(2)] and d = download_remote [OF assms]
  show ?thesis
  proof (cases r)
    case (Inl e)
    with k show ?thesis by simp
  next
    case (Inr info)
    with k d obtain b where "file_at (disk nd1) dst = Some b" "snapshot_ok sq b"
      "file_at (disk nd1) dst = s3_look obj st (remote nd) snapshotKey" "int (length b) = BlobSize info"
      by fastforce
    with Inr k show ?thesis by simp
  qed
qed

lemma download_replaces_only_by_verified_witness:
  "\<exists>info nd1. downloadSnapshot ex_sqlite 63 (Some ex_store) ''/d/x'' (ex_node ex_bucket) = (Inr info, nd1)
     \<and> file_at (disk nd1) ''/d/x'' = Some (ex_image ex_dbfile)"
proof -
  let ?run = "downloadSnapshot ex_sqlite 63 (Some ex_store) ''/d/x'' (ex_node ex_bucket)"
  have "case ?run of (Inr _, _) \<Rightarrow> True | _ \<Rightarrow> False" by code_simp
  then obtain info nd1 where run: "?run = (Inr info, nd1)" by (auto split: prod.splits sum.splits)
  from download_replaces_only_by_verified [OF ex_store_documented run] ex_conf_auto(5) run
  show ?thesis by auto
qed

text \<open>C37. The exit code tells: 0 means a verified snapshot is in place, anything else that the file is as it was.\<close>

theorem restore_exit_code:
  assumes "runRestoreCommand sq k cfg (Inr c) args nd = (code, nd1)"
  shows "if code = 0 then \<exists>b. file_at (disk nd1) (databasePath cfg) = Some b \<and> snapshot_ok sq b
    else file_at (disk nd1) (databasePath cfg) = file_at (disk nd) (databasePath cfg)"
  using restore_outcome [OF assms] by simp

lemma restore_exit_code_witness:
  "\<exists>b. file_at (disk (snd (runRestoreCommand ex_sqlite 63 (ex_conf []) (Inr ex_client) [''-force''] (ex_node ex_bucket))))
     (databasePath (ex_conf [])) = Some b \<and> snapshot_ok ex_sqlite b"
proof -
  let ?run = "runRestoreCommand ex_sqlite 63 (ex_conf []) (Inr ex_client) [''-force''] (ex_node ex_bucket)"
  have "fst ?run = 0" by code_simp
  then have run: "?run = (0, snd ?run)" by (metis prod.collapse)
  from restore_exit_code [OF run] show ?thesis by simp
qed

end
