(* ===== verification/ReplicationProperties.thy ===== *)
theory ReplicationProperties
  imports SnapshotExamples
begin

text \<open>
  The properties of the two background loops: the writer that publishes and the replica that
  follows, alone and together.
\<close>

section \<open>Publishing\<close>

text \<open>
  C7. A clean publisher has nothing to hide. However writes interleave with its ticks, its flush
  and the parts of a publish, and wherever these fail: once it has published and its counter equals
  the engine's, the object in the bucket is the image of the database as it is now.
\<close>

theorem published_is_current:
  assumes "s3_documented (client st) obj" and "newSnapshotPublisher cfg h0 nd = (Inr p0, nd0)"
    and "pub_steps obj sq cfg st (at_pc nd0 h0 p0 Idle) s"
    and "h_changes h0 < published (ps_pub s)" and "published (ps_pub s) = h_changes (ps_handle s)"
  shows "s3_look obj st (remote (ps_node s)) snapshotKey = current_image sq (ps_handle s)"
proof -
  note start = pub_inv_start [OF assms(2)]
  have "pub_inv obj sq st (published p0) (at_pc nd0 h0 p0 Idle)" using start by blast
  from pub_inv_steps [OF assms(1,3) this] start assms(4,5) show ?thesis by (simp add: pub_inv_def Let_def)
qed

definition ex_start :: "snapshotPublisher result \<times> memory node" where
  "ex_start = newSnapshotPublisher (ex_conf []) ex_fresh (ex_node [])"

definition ex_tick :: "snapshotPublisher \<times> memory node" where
  "ex_tick = tick ex_sqlite (ex_conf []) ex_store ex_live ex_pub (snd ex_start)"

lemma ex_start_run: "newSnapshotPublisher (ex_conf []) ex_fresh (ex_node []) = (Inr ex_pub, snd ex_start)"
proof -
  have "case ex_start of (Inr p, _) \<Rightarrow> p = ex_pub | _ \<Rightarrow> False" by code_simp
  from runs_Inr [OF this] show ?thesis unfolding ex_start_def by (metis snd_conv)
qed

lemma ex_tick_steps:
  "pub_steps map_of ex_sqlite (ex_conf []) ex_store (at_pc (snd ex_start) ex_fresh ex_pub Idle)
     (at_pc (snd ex_tick) ex_live (fst ex_tick) Idle)"
proof -
  have "pub_step map_of ex_sqlite (ex_conf []) ex_store (at_pc (snd ex_start) ex_fresh ex_pub Idle)
      (at_pc (snd ex_start) ex_live ex_pub Idle)"
    by (rule pub_step.changed [where d = ex_dbfile]) (simp_all add: ex_live_def ex_fresh_def outside_def)
  moreover have "pub_steps map_of ex_sqlite (ex_conf []) ex_store (at_pc (snd ex_start) ex_live ex_pub Idle)
      (at_pc (snd ex_tick) ex_live (fst ex_tick) Idle)"
    by (rule tick_steps) (simp add: ex_tick_def)
  ultimately show ?thesis by (rule pub_then)
qed

lemma published_is_current_witness:
  "s3_look map_of ex_store (remote (snd ex_tick)) snapshotKey = Some (ex_image ex_dbfile)"
proof -
  have "published (fst ex_tick) = 4" by code_simp
  then have "s3_look map_of ex_store (remote (snd ex_tick)) snapshotKey = current_image ex_sqlite ex_live"
    using published_is_current [OF ex_store_documented ex_start_run ex_tick_steps]
    by (simp add: ex_live_def ex_fresh_def)
  then show ?thesis by (simp add: current_image_def ex_live_def ex_fresh_def ex_sqlite_def)
qed

text \<open>
  C14. A backup is never replaced by an empty database: a publish that succeeds has stored the image
  of the database, and it held records, or nothing of value was stored before, or the operator asked
  for it with \<open>ART_DB_RESTORE=ignore\<close>.
\<close>

theorem publish_never_erases:
  assumes "s3_documented (client st) obj" and "publish sq cfg st h p nd = (Inr p', nd')"
  shows "\<exists>d n. h_db h = Inr d \<and> count_files d = Inr n
    \<and> s3_look obj st (remote nd') snapshotKey = Some (vacuum_image sq d)
    \<and> (n > 0 \<or> dbRestoreMode cfg = dbRestoreIgnore
        \<or> s3_look obj st (remote nd) snapshotKey \<in> {None, Some []})"
  using publish_delivers [OF assms] by blast

lemma publish_never_erases_witness:
  "s3_look map_of ex_store (remote (snd (ex_publish []))) snapshotKey = Some (ex_image ex_dbfile)
   \<and> count_files ex_dbfile = Inr 1"
proof -
  have "case ex_publish [] of (Inr _, _) \<Rightarrow> True | _ \<Rightarrow> False" by code_simp
  then obtain p nd where run: "ex_publish [] = (Inr p, nd)" by (auto split: prod.splits sum.splits)
  have "count_files ex_dbfile = Inr 1" by code_simp
  with publish_never_erases [OF ex_store_documented run [unfolded ex_publish_def]] run show ?thesis
    by (auto simp: ex_live_def ex_fresh_def ex_sqlite_def)
qed

text \<open>
  C38. A snapshot over the limit costs the last backup: an upload that the store gives up as too
  large deletes the object under its key, also the one published before.
\<close>

theorem oversized_upload_deletes_object:
  assumes "s3_documented (client st) obj" and "s3_Put st key r mx s = (Inl BlobTooLarge, s1)"
    and "\<And>s2. fst (DeleteObject (client st) (bucket st) (objectKey st key) s2) = None"
  shows "s3_look obj st s1 key = None"
  by (rule oversized_put_deletes [OF assms])

lemma oversized_upload_deletes_object_witness:
  "s3_look map_of ex_store ex_bucket snapshotKey \<noteq> None
   \<and> s3_look map_of ex_store (snd (s3_Put ex_store snapshotKey (file_reader ''12345'' None) 3 ex_bucket)) snapshotKey = None"
proof
  show "s3_look map_of ex_store ex_bucket snapshotKey \<noteq> None"
    unfolding Option.is_none_def [symmetric] by code_simp
  let ?run = "s3_Put ex_store snapshotKey (file_reader ''12345'' None) 3 ex_bucket"
  have "fst ?run = Inl BlobTooLarge" by code_simp
  then have "?run = (Inl BlobTooLarge, snd ?run)" by (metis prod.collapse)
  then show "s3_look map_of ex_store (snd ?run) snapshotKey = None"
    by (rule oversized_upload_deletes_object [OF ex_store_documented])
      (simp add: ex_store_client ex_client_def)
qed

section \<open>Following\<close>

text \<open>
  C10. A replica serves only what it has verified. From its boot on, whatever the writer and others
  do to the bucket and wherever a round fails, the handle it serves from is read-only and reads a
  snapshot that passed the checks, and so does the file a restart would find.
\<close>

theorem replica_serves_verified:
  assumes "bootDatabase sq k cfg sst nd = (Inr (h, Some r), nd1)"
    and "(replica_step sq k sst)\<^sup>*\<^sup>* \<lparr>rs_node = nd1, rs_replica = r, rs_handle = h, rs_found = None\<rparr> s"
  shows "replica_ok sq s"
  by (rule replica_ok_steps [OF assms(2) replica_ok_boot [OF assms(1)]])

definition ex_replica_boot :: "(boot_error + handle \<times> snapshotReplica option) \<times> memory node" where
  "ex_replica_boot = bootDatabase ex_sqlite 63 ex_replica_conf (Some ex_store) (ex_node ex_bucket)"

text \<open>The bucket after the writer has published once more.\<close>

definition ex_newer :: dbfile where
  "ex_newer = \<lparr>tabs = Some ((tables_of ex_used)\<lparr>tags := []\<rparr>), user_version = schemaVersion\<rparr>"

definition ex_bucket2 :: memory where
  "ex_bucket2 = remote (snd (publish ex_sqlite (ex_conf []) ex_store (ex_live\<lparr>h_db := Inr ex_newer\<rparr>) ex_pub
     (ex_node ex_bucket)))"

lemma ex_replica_booted:
  "\<exists>h r nd1. ex_replica_boot = (Inr (h, Some r), nd1)"
proof -
  have "case ex_replica_boot of (Inr x, _) \<Rightarrow> \<not> Option.is_none (snd x) | _ \<Rightarrow> False" by code_simp
  from runs_Inr [OF this] show ?thesis unfolding Option.is_none_def by (metis not_Some_eq prod.collapse)
qed

lemma replica_serves_verified_witness:
  "\<exists>h r nd1. ex_replica_boot = (Inr (h, Some r), nd1)
     \<and> (case refresh ex_sqlite 63 (Some ex_store) r h (nd1\<lparr>remote := ex_bucket2\<rparr>) of
          (r2, h2, nd2) \<Rightarrow> snapshot_ok ex_sqlite (h_bytes h2))"
proof -
  obtain h r nd1 where boot: "ex_replica_boot = (Inr (h, Some r), nd1)" using ex_replica_booted by blast
  obtain r2 h2 nd2 where ref: "refresh ex_sqlite 63 (Some ex_store) r h (nd1\<lparr>remote := ex_bucket2\<rparr>) = (r2, h2, nd2)"
    by (metis prod.collapse)
  let ?st = "replica_step ex_sqlite 63 (Some ex_store)"
  have "?st \<lparr>rs_node = nd1, rs_replica = r, rs_handle = h, rs_found = None\<rparr>
      \<lparr>rs_node = nd1\<lparr>remote := ex_bucket2\<rparr>, rs_replica = r, rs_handle = h, rs_found = None\<rparr>"
    by (rule replica_step.environment) simp
  then have "?st\<^sup>*\<^sup>* \<lparr>rs_node = nd1, rs_replica = r, rs_handle = h, rs_found = None\<rparr>
      \<lparr>rs_node = nd2, rs_replica = r2, rs_handle = h2, rs_found = None\<rparr>"
    by (rule converse_rtranclp_into_rtranclp [OF _ refresh_steps [OF ref]])
  from replica_serves_verified [OF boot [unfolded ex_replica_boot_def] this]
  have "snapshot_ok ex_sqlite (h_bytes h2)" by (simp add: replica_ok_def)
  then have "case refresh ex_sqlite 63 (Some ex_store) r h (nd1\<lparr>remote := ex_bucket2\<rparr>) of
      (r2, h2, nd2) \<Rightarrow> snapshot_ok ex_sqlite (h_bytes h2)" by (simp add: ref)
  with boot show ?thesis by (intro exI conjI)
qed

end
