(* ===== verification/StoreFrame.thy ===== *)
theory StoreFrame
  imports SystemInvariant
begin

text \<open>
  What requests leave alone in a store that they share with others. The server calls its store only
  with the keys of slugs; the locale \<open>store_frame\<close> proves that a relation which holds over these
  calls holds over every step of every thread.
\<close>

definition stores :: "('s \<Rightarrow> 's \<Rightarrow> bool) \<Rightarrow> 's server \<Rightarrow> 's server \<Rightarrow> bool" where
  "stores R srv srv1 \<longleftrightarrow> R (store srv) (store srv1)"

locale store_frame = effect R for R :: "'s \<Rightarrow> 's \<Rightarrow> bool" +
  fixes pf :: "'s platform"
  assumes put: "slug_shape s \<Longrightarrow> R st (snd (Put pf (storageKeyForSlug s) rd mx st))"
    and get: "slug_shape s \<Longrightarrow> R st (snd (Get pf (storageKeyForSlug s) st))"
    and delete: "slug_shape s \<Longrightarrow> R st (snd (Delete pf (storageKeyForSlug s) st))"
begin

lemma on_stores: "(\<And>st. R st (snd (f st))) \<Longrightarrow> stores R srv (snd (on_store f srv))"
  by (auto simp: stores_def on_store_def split: prod.splits) (metis snd_conv)

lemma on_slug:
  assumes "slug_record rec"
  shows "stores R srv (snd (on_store (Put pf (StorageKey rec) rd mx) srv))"
    "stores R srv (snd (on_store (Get pf (StorageKey rec)) srv))"
    "stores R srv (snd (on_store (Delete pf (StorageKey rec)) srv))"
  using assms by (auto intro!: on_stores put get delete simp: slug_record_def)

lemma same_store: "store srv1 = store srv \<Longrightarrow> stores R srv srv1"
  by (simp add: stores_def refl)

lemma on_database: "stores R srv (snd (on_db f srv))"
  by (auto simp: on_db_def same_store split: prod.splits)

end

sublocale store_frame \<subseteq> fr: effect "stores R"
  by unfold_locales (auto simp: stores_def refl intro: trans)

sublocale store_frame \<subseteq> rd: reading_frame "stores R" pf db_wf slug_record
proof unfold_locales
  show "stores R srv (snd (serveFileRecord pf rec r srv))" if "slug_record rec" for rec r srv
    unfolding serveFileRecord_def
    by (rule fr.bind_prod [OF on_slug(2) [OF that]]) (auto simp: fr.refl split: sum.splits blob_error.splits)
qed (auto simp: same_store same_tables_def wf_slug_record)

context store_frame
begin

lemma upload_frame:
  assumes "upload_ok (tables_of srv) b st"
  shows "stores R srv (snd (upload_step cfg pf r st srv))"
proof (cases st)
  case (UStore job rec old)
  then have "slug_record rec" using assms by (simp add: reserved_row_def)
  then show ?thesis
    unfolding UStore upload_step.simps upload_store_def
    by (intro fr.bind_prod [OF on_slug(1)]) (auto simp: fr.refl split: sum.splits blob_error.splits)
next
  case (UReclaim old resp)
  then have "slug_record old" using assms by (simp add: gone_def)
  then show ?thesis
    unfolding UReclaim upload_step.simps upload_reclaim_def
    by (intro fr.bind_prod [OF on_slug(3)]) (simp_all add: fr.refl)
next
  case (UDiscard rec resp)
  then have "slug_record rec" using assms by (simp add: reserved_row_def)
  then show ?thesis
    unfolding UDiscard upload_step.simps upload_discard_def
    by (intro fr.bind_prod [OF on_slug(3)]) (simp_all add: fr.refl)
qed (simp only: upload_step.simps upload_check_def upload_reserve_def upload_authorize_def
    upload_finalize_def upload_apply_def upload_report_def upload_abort_def,
    intro fr.flow on_database)+

lemma thread_frame:
  assumes "thread_ok (tables_of srv) b t" and "db_wf (tables_of srv)"
    and "thread_step cfg pf t srv = (t', srv1)"
  shows "stores R srv srv1"
proof -
  have "stores R srv (snd (thread_step cfg pf t srv))"
  proof (cases t)
    case (TUpload r st)
    with assms(1) show ?thesis
      unfolding TUpload thread_step_def thread.case
      by (intro fr.bind_prod [OF upload_frame]) (auto simp: fr.refl)
  next
    case (TDelete slug)
    show ?thesis
      unfolding TDelete thread_step_def thread.case delete_record_def
      by (intro fr.flow on_database)
  next
    case (TDeleteBlob rec)
    then have "slug_record rec" using assms(1) by (simp add: gone_def)
    then show ?thesis
      unfolding TDeleteBlob thread_step_def thread.case delete_blob_def
      by (intro fr.bind_prod fr.bind_option on_slug(3)) (auto simp: fr.refl)
  next
    case (TAddTags r slug)
    show ?thesis
      unfolding TAddTags thread_step_def thread.case
      by (intro fr.flow same_store) (use add_tags_check_same [of srv pf slug r] in \<open>simp add: same_tables_def\<close>)
  next
    case (TAttach slug ts)
    show ?thesis
      unfolding TAttach thread_step_def thread.case add_tags_apply_def
      by (intro fr.flow on_database)
  next
    case (TServe r ep)
    show ?thesis
    proof (cases "\<exists>slug raw. ep = EpRemoveTag slug raw")
      case True
      then obtain slug raw where ep: "ep = EpRemoveTag slug raw" by blast
      show ?thesis
        unfolding TServe ep thread_step_def thread.case endpoint.case removeFileTagHandler_def
        by (intro fr.flow on_database)
    next
      case False
      then have "reading ep" using assms(1) TServe by auto
      then have "stores R srv (snd (route cfg pf ep r srv))" by (rule rd.route_reads) (rule assms(2))
      with \<open>reading ep\<close> show ?thesis
        unfolding TServe by (cases ep) (simp_all add: thread_step_def case_prod_beta)
    qed
  next
    case (TDone resp)
    then show ?thesis by (simp add: thread_step_def fr.refl)
  qed
  with assms(3) show ?thesis by simp
qed

lemma sys_frame:
  assumes "sys_ok (tables_of srv) b ts" and "sys_step cfg pf (srv, ts) (srv1, ts1)"
  shows "R (store srv) (store srv1)"
  using assms(2)
proof (cases rule: sys_step.cases)
  case (arrive ep r)
  then show ?thesis by (simp add: refl)
next
  case (run i t)
  then have "stores R srv srv1"
    using assms(1) by (intro thread_frame [of srv b "ts ! i"]) (auto simp: sys_ok_def)
  then show ?thesis by (simp add: stores_def)
qed

end

end
