(* ===== verification/ServedS3.thy ===== *)
theory ServedS3
  imports Refinement PublisherRun StoreFrame
begin

text \<open>
  The server over the bucket. Any documented client gives a \<open>served_store\<close>, so what is proved for
  stores in general holds for it. The blobs and the snapshot may share one bucket: no storage key
  is ever the key of the snapshot, whatever the two prefixes are.
\<close>

section \<open>The platform\<close>

definition s3_platform :: "nat \<Rightarrow> 's s3Storage \<Rightarrow> 's platform \<Rightarrow> 's platform" where
  "s3_platform n st pf = pf\<lparr>Put := s3_Put st, Get := s3_fetch n st, Delete := s3_Delete st\<rparr>"

lemma s3_served:
  assumes "s3_documented (client st) obj"
  shows "served_store (s3_platform n st pf) (s3_look obj st) (\<lambda>_. True)"
  using s3_blob_store [OF assms, of n]
  by (simp add: served_store_def served_store_axioms_def s3_platform_def)

section \<open>Snapshot and blobs in one bucket\<close>

lemma set_drop_charset: "slug_shape s \<Longrightarrow> set (drop n s) \<subseteq> set shortSlugCharset"
  by (meson order_trans set_drop_subset slug_shape_def)

lemma last_three:
  assumes "3 \<le> length u"
  shows "\<exists>q a b c. u = q @ [a, b, c]"
proof -
  define v where "v = drop (length u - 3) u"
  have "length v = Suc (Suc (Suc 0))" using assms by (simp add: v_def)
  then obtain a b c where "v = [a, b, c]" by (auto simp: length_Suc_conv)
  moreover have "u = take (length u - 3) u @ v" by (simp add: v_def)
  ultimately show ?thesis by metis
qed

lemma storage_key_end:
  assumes "slug_shape s"
  shows "\<exists>p a b c. storageKeyForSlug s = p @ [a, b, c] \<and> a \<in> set shortSlugCharset"
proof -
  have "3 \<le> length (drop 2 s)" using assms by (auto simp: slug_shape_def shortSlugMinLen_def)
  then obtain q a b c where "drop 2 s = q @ [a, b, c]" using last_three by blast
  moreover from this have "a \<in> set shortSlugCharset" using set_drop_charset [OF assms, of 2] by auto
  ultimately show ?thesis
    by (intro exI [of _ "take 2 s @ ''/'' @ q"]) (auto simp: storageKeyForSlug_def)
qed

lemma snapshot_key_is_no_blob:
  assumes "slug_shape s"
  shows "objectKey st1 (storageKeyForSlug s) \<noteq> objectKey st2 snapshotKey"
proof
  assume eq: "objectKey st1 (storageKeyForSlug s) = objectKey st2 snapshotKey"
  obtain p a b c where key: "storageKeyForSlug s = p @ [a, b, c]" "a \<in> set shortSlugCharset"
    using storage_key_end [OF assms] by blast
  have "snapshotKey = ''artifact'' @ ''.db''" by (simp add: snapshotKey_def dbSnapshotName_def dbFileName_def)
  with eq key have "(prefix_of st1 @ p) @ [a, b, c] = (prefix_of st2 @ ''artifact'') @ ''.db''"
    by (simp add: objectKey_def)
  then have "a = CHR ''.''" by (simp del: append_assoc)
  with key(2) charset_no_dot show False by simp
qed

text \<open>A deletion and a put touch one object.\<close>

lemma s3_Delete_others:
  assumes "s3_documented (client st) obj" and "s3_Delete st key s = (e, s1)"
    and "q \<noteq> (bucket st, objectKey st key)"
  shows "obj s1 q = obj s q"
proof -
  obtain e2 s2 where d: "DeleteObject (client st) (bucket st) (objectKey st key) s = (e2, s2)"
    by (metis prod.collapse)
  have "obj s2 q = obj s q" using delete_documented [OF assms(1) d] assms(3) by blast
  moreover have "s1 = s2" using assms(2) d by (cases e2) (simp_all add: s3_Delete_def)
  ultimately show ?thesis by simp
qed

lemma s3_Put_others:
  assumes "s3_documented (client st) obj" and "s3_Put st key r mx s = (res, s1)"
    and "q \<noteq> (bucket st, objectKey st key)"
  shows "obj s1 q = obj s q"
proof -
  obtain e rd s2 where u: "UploadObject (client st) (bucket st) (objectKey st key) (newCapReader r mx) s = ((e, rd), s2)"
    by (metis prod.collapse)
  have up: "obj s2 q = obj s q" using upload_documented [OF assms(1) u] assms(3) by blast
  have "obj (snd (s3_Delete st key s2)) q = obj s2 q"
    using s3_Delete_others [OF assms(1) _ assms(3)] by (metis prod.collapse)
  with assms(2) u up show ?thesis
    by (auto simp: s3_Put_def split: option.splits if_splits)
qed

text \<open>So no request touches the snapshot.\<close>

interpretation snapshot_kept: store_frame
  "\<lambda>s s1. s3_documented (client st) obj \<longrightarrow>
     obj s1 (bucket st2, objectKey st2 snapshotKey) = obj s (bucket st2, objectKey st2 snapshotKey)"
  "s3_platform n st pf" for st obj st2 n pf
proof (unfold_locales, goal_cases)
  case (3 s a rd mx)
  have "(bucket st2, objectKey st2 snapshotKey) \<noteq> (bucket st, objectKey st (storageKeyForSlug s))"
    using snapshot_key_is_no_blob [OF 3, of st st2] by auto
  moreover obtain x b where q: "s3_Put st (storageKeyForSlug s) rd mx a = (x, b)" by (metis prod.collapse)
  ultimately show ?case using s3_Put_others [OF _ q] by (auto simp: s3_platform_def q)
next
  case (4 s a)
  obtain x b where q: "s3_fetch n st (storageKeyForSlug s) a = (x, b)" by (metis prod.collapse)
  then show ?case using s3_fetch_look [OF _ q, of obj] by (auto simp: s3_platform_def)
next
  case (5 s a)
  have "(bucket st2, objectKey st2 snapshotKey) \<noteq> (bucket st, objectKey st (storageKeyForSlug s))"
    using snapshot_key_is_no_blob [OF 5, of st st2] by auto
  moreover obtain x b where q: "s3_Delete st (storageKeyForSlug s) a = (x, b)" by (metis prod.collapse)
  ultimately show ?case using s3_Delete_others [OF _ q] by (auto simp: s3_platform_def q)
qed auto

text \<open>
  And the publisher touches nothing but the snapshot.
\<close>

lemma publish_send_others:
  assumes "s3_documented (client st) obj" and "publish_send st before p nd = (r, nd1)"
    and "q \<noteq> (bucket st, objectKey st snapshotKey)"
  shows "obj (remote nd1) q = obj (remote nd) q"
proof -
  obtain ob d1 where 1: "os_Open (p_path p) (disk nd) = (ob, d1)" by (metis prod.collapse)
  obtain f d2 where 2: "next_fault d1 = (f, d2)" by (metis prod.collapse)
  show ?thesis
  proof (cases ob)
    case (Inl e)
    with assms 1 show ?thesis by (auto simp: publish_send_def on_disk_def)
  next
    case (Inr b)
    obtain w s where 3: "s3_Put st snapshotKey (file_reader b f) maxDBSnapshotSize (remote nd) = (w, s)"
      by (metis prod.collapse)
    have "remote nd1 = s"
      using assms(2) 1 2 3 Inr by (auto simp: publish_send_def on_disk_def on_remote_def split: sum.splits)
    with s3_Put_others [OF assms(1) 3 assms(3)] show ?thesis by simp
  qed
qed

lemma pub_act_others:
  assumes "s3_documented (client st) obj" and "pub_act sq cfg st s s'"
    and "q \<noteq> (bucket st, objectKey st snapshotKey)"
  shows "obj (remote (ps_node s')) q = obj (remote (ps_node s)) q"
  using assms(2)
proof (cases rule: pub_act.cases)
  case (ticked h p nd due p' nd')
  then show ?thesis using tick_due_keeps [OF ticked(3)] by simp
next
  case (flushed h nd changes nd' p)
  then show ?thesis using total_changes [OF flushed(3)] by simp
next
  case (counted h nd before nd' p)
  then show ?thesis using total_changes [OF counted(3)] by simp
next
  case (count_failed h nd e nd' x p now)
  then show ?thesis using h_query_keeps [OF count_failed(3) [unfolded dbTotalChanges_def]] by simp
next
  case (checked h nd nd' p before)
  then show ?thesis using publish_check_keeps [OF checked(3), of obj] assms(1) by simp
next
  case (check_failed h nd e nd' x p before now)
  then show ?thesis using publish_check_keeps [OF check_failed(3), of obj] assms(1) by simp
next
  case (built h p nd nd' before)
  then show ?thesis using writeSnapshotTo_keeps [OF built(3)] by simp
next
  case (build_failed h p nd e nd' x before now)
  then show ?thesis using writeSnapshotTo_keeps [OF build_failed(3)] by simp
next
  case (sent before p nd p' nd' x h)
  then show ?thesis using publish_send_others [OF assms(1) sent(3) assms(3)] by simp
next
  case (send_failed before p nd e nd' x h now)
  then show ?thesis using publish_send_others [OF assms(1) send_failed(3) assms(3)] by simp
qed

section \<open>A store that writes whole objects\<close>

text \<open>
  S3 documents that a key is written at once: whatever an upload or a deletion reports, the object is
  afterwards the old one or the whole new one, or none after a deletion.
\<close>

definition s3_atomic :: "'s s3_client \<Rightarrow> ('s \<Rightarrow> string \<times> string \<Rightarrow> bytes option) \<Rightarrow> bool" where
  "s3_atomic c obj \<longleftrightarrow>
     (\<forall>b k s e s1. DeleteObject c b k s = (e, s1) \<longrightarrow> obj s1 (b, k) \<in> {obj s (b, k), None})
   \<and> (\<forall>b k rd s e rd1 s1. UploadObject c b k rd s = ((e, rd1), s1) \<longrightarrow>
        obj s1 (b, k) = obj s (b, k)
        \<or> (\<exists>n out rd2. copy_capped n rd [] = (CapEOF, out, rd2) \<and> obj s1 (b, k) = Some out))"

lemma s3_Delete_atomic:
  assumes "s3_atomic (client st) obj" and "s3_Delete st key s = (e, s1)"
  shows "s3_look obj st s1 key \<in> {s3_look obj st s key, None}"
proof -
  obtain e2 s2 where d: "DeleteObject (client st) (bucket st) (objectKey st key) s = (e2, s2)"
    by (metis prod.collapse)
  have "obj s2 (bucket st, objectKey st key) \<in> {obj s (bucket st, objectKey st key), None}"
    using assms(1) d unfolding s3_atomic_def by blast
  with assms(2) d show ?thesis by (cases e2) (auto simp: s3_Delete_def s3_look_def)
qed

lemma s3_Put_atomic:
  assumes "s3_atomic (client st) obj" and "s3_Put st key r mx s = (res, s1)"
  shows "s3_look obj st s1 key \<in> {s3_look obj st s key, None}
    \<or> (s3_look obj st s1 key = Some (reader_bytes r) \<and> ending r = EOF)"
proof -
  obtain e rd s2 where u: "UploadObject (client st) (bucket st) (objectKey st key) (newCapReader r mx) s = ((e, rd), s2)"
    by (metis prod.collapse)
  have "s3_look obj st s2 key = s3_look obj st s key
    \<or> (\<exists>n out rd2. copy_capped n (newCapReader r mx) [] = (CapEOF, out, rd2) \<and> s3_look obj st s2 key = Some out)"
    using assms(1) u unfolding s3_atomic_def s3_look_def by blast
  then have up: "s3_look obj st s2 key = s3_look obj st s key
    \<or> (s3_look obj st s2 key = Some (reader_bytes r) \<and> ending r = EOF)"
    using copy_new_capped by blast
  have "s3_look obj st (snd (s3_Delete st key s2)) key \<in> {s3_look obj st s2 key, None}"
    using s3_Delete_atomic [OF assms(1)] by (metis prod.collapse)
  moreover have "s1 \<in> {s2, snd (s3_Delete st key s2)}"
    using assms(2) u by (auto simp: s3_Put_def split: option.splits if_splits)
  ultimately show ?thesis using up by auto
qed

lemma publish_send_atomic:
  assumes "s3_atomic (client st) obj" and "publish_send st before p nd = (r, nd1)"
  shows "s3_look obj st (remote nd1) snapshotKey
    \<in> {s3_look obj st (remote nd) snapshotKey, None, file_at (disk nd) (p_path p)}"
proof -
  obtain ob d1 where 1: "os_Open (p_path p) (disk nd) = (ob, d1)" by (metis prod.collapse)
  obtain f d2 where 2: "next_fault d1 = (f, d2)" by (metis prod.collapse)
  note k = os_Open_file [OF 1]
  show ?thesis
  proof (cases ob)
    case (Inl e)
    with assms 1 show ?thesis by (auto simp: publish_send_def on_disk_def)
  next
    case (Inr b)
    obtain w s where 3: "s3_Put st snapshotKey (file_reader b f) maxDBSnapshotSize (remote nd) = (w, s)"
      by (metis prod.collapse)
    have "remote nd1 = s"
      using assms(2) 1 2 3 Inr by (auto simp: publish_send_def on_disk_def on_remote_def split: sum.splits)
    with s3_Put_atomic [OF assms(1) 3] k Inr file_reader_bytes show ?thesis by auto
  qed
qed

end
