(* ===== verification/StoreProperties.thy ===== *)
theory StoreProperties
  imports ServedS3 SnapshotExamples Downloads
begin

text \<open>
  The properties of the two blob stores: the size limit and the ranged reader. The platform over the
  bucket of \<open>SnapshotExamples\<close> is here too.
\<close>

section \<open>A platform over the bucket\<close>

definition ex_s3 :: "memory s3Storage" where
  "ex_s3 = newS3StorageWithClient ex_client ''b'' ''files''"

lemma ex_s3_documented: "s3_documented (client ex_s3) map_of"
  using ex_client_documented by (simp add: ex_s3_def newS3StorageWithClient_def)

definition ex_s3_pf :: "memory platform" where
  "ex_s3_pf =
     \<lparr>Put = s3_Put ex_s3, Get = s3_fetch 31 ex_s3, Delete = s3_Delete ex_s3, jwt = ex_jwt,
      TypeByExtension = (\<lambda>_. ''text/plain''), DetectContentType = (\<lambda>_. ''application/octet-stream''),
      unicodeLower = (\<lambda>s. s), goQuote = (\<lambda>s. s), fileServer = None,
      oidcHandler = (\<lambda>_ _. http_NotFound),
      databaseHealth = \<lparr>SchemaVersion = 1, Snapshot = [], Generation = 0, AgeNanos = None\<rparr>\<rparr>"

lemma ex_s3_platform: "s3_platform 31 ex_s3 ex_s3_pf = ex_s3_pf"
  by (simp add: s3_platform_def ex_s3_pf_def)

section \<open>The size limit\<close>

text \<open>
  C26. On a disk that works, \<open>fsStorage.Put\<close> accepts exactly the streams of at most \<open>maxBytes\<close> bytes:
  these are stored whole, and a longer one is refused as too large and leaves no file behind.
\<close>

theorem put_accepts_up_to_limit:
  assumes "io_faults s = []" and "ending r = EOF" and "0 \<le> mx" and "mx < max_int64"
    and "path_dir (fs_path dir key) \<noteq> fs_path dir key"
    and "case map_of (entries s) (path_dir (fs_path dir key)) of Some (FFile _ _) \<Rightarrow> False | _ \<Rightarrow> True"
    and "map_of (entries s) (fs_path dir key) \<noteq> Some FDir"
  shows "if int (length (reader_bytes r)) \<le> mx
    then fst (fs_Put dir key r mx s) = Inr (int (length (reader_bytes r)))
       \<and> fs_look dir (snd (fs_Put dir key r mx s)) key = Some (reader_bytes r)
    else fst (fs_Put dir key r mx s) = Inl BlobTooLarge \<and> fs_look dir (snd (fs_Put dir key r mx s)) key = None"
proof -
  let ?p = "fs_path dir key" and ?t = "fs_now s" and ?c = "newCapReader r mx"
  define s1 where "s1 = set_entry (path_dir ?p) FDir s"
  define s2 where "s2 = set_entry ?p (FFile [] ?t) s1"
  obtain e out rd where cp: "copy_capped (chunkSize - 1) ?c [] = (e, out, rd)" by (metis prod.collapse)
  define s3 where "s3 = set_entry ?p (FFile out ?t) s2"
  have nf: "next_fault s = (None, s)" "next_fault s1 = (None, s1)" "next_fault s2 = (None, s2)"
    "next_fault s3 = (None, s3)"
    using assms(1) by (simp_all add: next_fault_def s1_def s2_def s3_def set_entry_def)
  have ops: "os_MkdirAll (path_dir ?p) s = (None, s1)" "os_Create ?p s1 = (None, s2)"
    "os_Write ?p out s2 = (None, s3)" "os_Close s3 = (None, s3)"
    using assms(5-7) nf
    by (auto simp: os_MkdirAll_def os_Create_def os_Write_def os_Close_def s1_def s2_def s3_def
        set_entry_def update_conv' split: option.splits fs_entry.splits)
  have "map_of (entries s3) ?p = Some (FFile out ?t)"
    by (simp add: s3_def set_entry_def update_conv')
  then have rm: "file_at (snd (os_Remove ?p s3)) ?p = None"
    using nf(4) by (simp add: os_Remove_def file_at_delete)
  have left: "left ?c = mx + 1" using assms(3,4) by (simp add: newCapReader_def int64_id in_int64_def)
  have spec: "(e = CapEOF \<and> out = reader_bytes r \<and> \<not> overflowed rd)
      \<or> (e = CapOverflow \<and> overflowed rd \<and> mx + 1 \<le> int (length (reader_bytes r)))"
    using copy_capped_spec [OF _ _ _ cp] left assms(2-4) by (auto simp: newCapReader_def)
  have look: "file_at s3 ?p = Some out" by (simp add: s3_def file_at_set)
  have put: "fs_Put dir key r mx s =
      (if e \<noteq> CapEOF then (Inl (if overflowed rd then BlobTooLarge
          else BlobOther (case e of CapErr x \<Rightarrow> x | _ \<Rightarrow> [])), snd (os_Remove ?p s3))
       else if int (length out) > mx then (Inl BlobTooLarge, snd (os_Remove ?p s3))
       else (Inr (int (length out)), s3))"
    unfolding fs_Put_def Let_def ops cp prod.case option.case by (simp add: ops)
  show ?thesis unfolding put fs_look_def using spec rm look by auto
qed

lemma put_accepts_up_to_limit_witness:
  "fst (fs_Put ''/d'' ''ab/cde'' (file_reader ''hey'' None) 3 (store ex_srv)) = Inr 3
   \<and> fst (fs_Put ''/d'' ''ab/cde'' (file_reader ''heyy'' None) 3 (store ex_srv)) = Inl BlobTooLarge"
proof -
  have p: "path_dir (fs_path ''/d'' ''ab/cde'') \<noteq> fs_path ''/d'' ''ab/cde''" by code_simp
  have start: "io_faults (store ex_srv) = []" "entries (store ex_srv) = []" by (simp_all add: ex_srv_def)
  have r: "ending (file_reader b None) = EOF" "reader_bytes (file_reader b None) = b" for b
    by (simp_all add: file_reader_def reader_bytes_def)
  show ?thesis
    using put_accepts_up_to_limit [OF start(1) r(1), of 3 "''/d''" "''ab/cde''" "''hey''"]
      put_accepts_up_to_limit [OF start(1) r(1), of 3 "''/d''" "''ab/cde''" "''heyy''"] p start(2)
    by (simp add: r max_int64_def)
qed

text \<open>The largest limit that \<open>ART_MAX_FILE_SIZE\<close> can name overflows in the reader, which then refuses everything.\<close>

lemma largest_limit_refuses:
  "fst (capReader_Read len (newCapReader r max_int64)) = ([], Some CapOverflow)"
  by (simp add: capReader_Read_def newCapReader_def int64_max_Suc)

section \<open>Reading ranges\<close>

text \<open>
  C27. A range served from a bucket is never silently cut short: after any seek, reading to the end
  gives a prefix of the object from there on, and the whole of it unless an error is reported.
\<close>

theorem ranged_read_is_complete:
  assumes "s3_documented (client st) obj" and "s3_Get st key s = (Inr (sk, info), s1)"
    and "obj s (bucket st, objectKey st key) = Some x"
    and "s3_Seek offset wh sk = (Inr t, sk1)" and "t \<le> int (length x)"
    and "s3_drain (client st) k sk1 [] s1 = (e, out, sk2, s2)"
  shows "prefix out (drop (nat t) x) \<and> (e = EOF \<longrightarrow> out = drop (nat t) x) \<and> obj s2 = obj s"
  by (rule s3_ranged_read [OF assms])

definition ex_object :: memory where
  "ex_object = [((''b'', ''files/k''), ''abcdef'')]"

definition ex_sk :: s3ReadSeeker where
  "ex_sk = \<lparr>sk_bucket = ''b'', sk_key = ''files/k'', sk_size = 6, sk_pos = 0, sk_body = None\<rparr>"

lemma ranged_read_is_complete_witness:
  "fst (snd (s3_drain (client ex_s3) 1 (ex_sk\<lparr>sk_pos := 4\<rparr>) [] ex_object)) = ''ef''"
proof -
  let ?run = "s3_drain (client ex_s3) 1 (ex_sk\<lparr>sk_pos := 4\<rparr>) [] ex_object"
  have get: "s3_Get ex_s3 ''k'' ex_object
      = (Inr (ex_sk, \<lparr>BlobSize = 6, ModTime = 0, ETag = ''abcdef''\<rparr>), ex_object)" by code_simp
  have at: "map_of ex_object (bucket ex_s3, objectKey ex_s3 ''k'') = Some ''abcdef''" by code_simp
  have seek: "s3_Seek (- 2) SeekEnd ex_sk = (Inr 4, ex_sk\<lparr>sk_pos := 4\<rparr>)" by code_simp
  have "fst ?run = EOF" by code_simp
  then obtain out sk2 s2 where run: "?run = (EOF, out, sk2, s2)" by (metis prod.collapse)
  from ranged_read_is_complete [OF ex_s3_documented get at seek _ run] run show ?thesis by simp
qed

end
