(* ===== verification/ServingProperties.thy ===== *)
theory ServingProperties
  imports Downloads Search Examples
begin

text \<open>
  What readers get: the download routes, the type a browser is told, and the listing.
\<close>

section \<open>Downloads\<close>

text \<open>
  C11. Every live file can be downloaded. In any reachable state in which nothing fails, the short
  link of a live record answers 200 with the blob under its key, of the size the record says.
\<close>

theorem live_file_is_delivered:
  assumes "reachable cfg (fs_platform dir pf) (srv, []) (srv1, ts)"
    and "db_wf (tables_of srv)" and "live_stored (tables_of srv) (fs_look dir (store srv))"
    and "healthy srv1" and "x \<in> set (files (tables_of srv1))" and "live x"
  shows "\<exists>resp b. shortLinkHandler (fs_platform dir pf) (Slug x) r srv1 = (resp, srv1)
    \<and> fs_look dir (store srv1) (StorageKey x) = Some b \<and> int (length b) = Size x
    \<and> delivered (fs_platform dir pf) x b resp"
proof -
  have ok: "db_wf (tables_of srv1)" "live_stored (tables_of srv1) (fs_look dir (store srv1))"
    using served_fs.sys_ok_reachable [OF assms(1-3)] by (simp_all add: sys_ok_def)
  then obtain b where b: "fs_look dir (store srv1) (StorageKey x) = Some b" "int (length b) = Size x"
    using assms(5,6) by (auto simp: live_stored_def has_blob_def)
  with shortLink_healthy [OF assms(4) ok(1) assms(5,6) b(1)] show ?thesis by blast
qed

lemma live_file_is_delivered_witness:
  "\<exists>resp b. shortLinkHandler ex_pf (Slug (hd (files (tables_of ex_used)))) ex_upload ex_used = (resp, ex_used)
     \<and> delivered ex_pf (hd (files (tables_of ex_used))) b resp"
  using live_file_is_delivered [OF reachable.start [of ex_cfg "fs_platform ''/d'' ex_pf"] ex_used_sound
      ex_used_facts(1,3,4), of ex_upload] ex_used_facts(2) by auto

text \<open>
  C36. Names and tags lead to files. The route by file name serves the newest live file of that name,
  whenever there is one, and the route by tag the live file the tag points to.
\<close>

theorem routes_serve_their_files:
  assumes "healthy srv" and "live_stored (tables_of srv) (fs_look dir (store srv))" and "db_wf (tables_of srv)"
  shows "(\<forall>y \<in> set (files (tables_of srv)). live y \<and> DisplayName y = path_base (path_clean name)
      \<and> \<not> noFilenameURL cfg \<longrightarrow>
      (\<exists>x b resp. x \<in> set (files (tables_of srv)) \<and> live x \<and> DisplayName x = DisplayName y
         \<and> Modified y \<le> Modified x \<and> fs_look dir (store srv) (StorageKey x) = Some b
         \<and> filenameURLHandler cfg (fs_platform dir pf) name r srv = (resp, srv)
         \<and> delivered (fs_platform dir pf) x b resp))
    \<and> (\<forall>x \<in> set (files (tables_of srv)). \<forall>t. live x \<and> parseTag raw = Inr t
      \<and> tag_owner (tables_of srv) (key_of t) = Some (Slug x) \<longrightarrow>
      (\<exists>b resp. fs_look dir (store srv) (StorageKey x) = Some b
           \<and> tagDownloadHandler (fs_platform dir pf) raw r srv = (resp, srv)
           \<and> delivered (fs_platform dir pf) x b resp))"
proof (intro conjI ballI allI impI, goal_cases)
  case (1 y)
  then have y: "y \<in> set (files (tables_of srv))" "live y" "DisplayName y = path_base (path_clean name)" by simp_all
  obtain x where x: "latest_by_name (path_base (path_clean name)) (tables_of srv) = Some x"
    using latest_by_name_exists [OF y] by blast
  then have inx: "x \<in> set (files (tables_of srv))" "live x" "DisplayName x = DisplayName y"
    using latest_by_name_in [OF x] y(3) by simp_all
  then obtain b where b: "fs_look dir (store srv) (StorageKey x) = Some b"
    using assms(2) by (auto simp: live_stored_def has_blob_def)
  have "Modified y \<le> Modified x" by (rule latest_by_name_newest [OF x y])
  with inx b filenameURL_healthy [OF assms(1) _ x b] 1 show ?case by blast
next
  case (2 x t)
  then have x: "x \<in> set (files (tables_of srv))" "live x" by simp_all
  obtain b where b: "fs_look dir (store srv) (StorageKey x) = Some b"
    using assms(2) x by (auto simp: live_stored_def has_blob_def)
  have "record_by_tag (key_of t) (tables_of srv) = Some x"
    by (rule record_by_tag_owner [OF assms(3) x]) (use 2 in blast)
  with b tagDownload_healthy [OF assms(1) _ _ b] 2 show ?case by blast
qed

lemma routes_serve_their_files_witness:
  "(\<exists>resp. filenameURLHandler ex_cfg ex_pf ''a.txt'' ex_upload ex_used = (resp, ex_used) \<and> status resp = 200)
   \<and> (\<exists>resp. tagDownloadHandler ex_pf ''x:1'' ex_upload ex_used = (resp, ex_used) \<and> status resp = 200)"
proof -
  let ?x = "hd (files (tables_of ex_used))" and ?t = "\<lparr>Name = ''x'', Suffix = ''1''\<rparr>"
  have name: "DisplayName ?x = path_base (path_clean ''a.txt'')" "\<not> noFilenameURL ex_cfg"
    by code_simp+
  have "case parseTag ''x:1'' of Inr t \<Rightarrow> t = ?t | _ \<Rightarrow> False" by code_simp
  then have tag: "parseTag ''x:1'' = Inr ?t" by (simp split: sum.splits)
  have own: "tag_owner (tables_of ex_used) (key_of ?t) = Some (Slug ?x)" by code_simp
  note both = routes_serve_their_files [OF ex_used_facts(1) ex_used_sound(2,1), of "''a.txt''" ex_cfg ex_pf ex_upload "''x:1''"]
  from both name ex_used_facts(2,3,4)
  have "\<exists>resp. filenameURLHandler ex_cfg ex_pf ''a.txt'' ex_upload ex_used = (resp, ex_used) \<and> status resp = 200"
    by (fastforce simp: delivered_def)
  moreover from both tag own ex_used_facts(2,3,4)
  have "\<exists>resp. tagDownloadHandler ex_pf ''x:1'' ex_upload ex_used = (resp, ex_used) \<and> status resp = 200"
    by (fastforce simp: delivered_def)
  ultimately show ?thesis ..
qed

text \<open>
  C23. No download runs in the browser: whatever type was stored, guessed from the name or sniffed, a
  file that is delivered carries \<open>nosniff\<close> and exactly one content type, so that
  \<open>http.ServeContent\<close> chooses none of its own, and it is not one of the dangerous ones.
  \<open>DetectContentType\<close> always names a type.
\<close>

theorem delivered_type_is_harmless:
  assumes "serveFileRecord pf rec r srv = (resp, srv1)" and "status resp = 200"
    and "\<And>b. DetectContentType pf b \<noteq> []"
  shows "(''X-Content-Type-Options'', ''nosniff'') \<in> set (headers resp)
    \<and> (\<exists>!ct. (''Content-Type'', ct) \<in> set (headers resp))
    \<and> (\<forall>ct. (''Content-Type'', ct) \<in> set (headers resp) \<longrightarrow>
         (\<forall>d \<in> set dangerousTypes. \<not> prefix d (to_lower (unicodeLower pf) ct)))"
proof -
  have "\<forall>d \<in> set dangerousTypes. \<not> prefix d (to_lower (unicodeLower pf) (served_type pf rec blob))" for blob
    using served_type_harmless [of pf rec blob] by (auto simp: isDangerous_iff)
  with serveFileRecord_ok [OF assms(1,2)] served_type_nonempty [of pf rec] assms(3) show ?thesis by metis
qed

definition ex_page :: FileRecord where
  "ex_page = (hd (files (tables_of ex_used)))\<lparr>DisplayName := ''a.html'', MimeType := []\<rparr>"

lemma delivered_type_is_harmless_witness:
  "\<exists>!ct. (''Content-Type'', ct) \<in> set (headers (fst (serveFileRecord ex_pf ex_page ex_upload ex_used)))"
proof -
  let ?run = "serveFileRecord ex_pf ex_page ex_upload ex_used"
  have run: "?run = (fst ?run, snd ?run)" by simp
  have "status (fst ?run) = 200" by code_simp
  moreover have "\<And>b. DetectContentType ex_pf b \<noteq> []" by (simp add: ex_pf_def fs_platform_def)
  ultimately show ?thesis using delivered_type_is_harmless [OF run] by blast
qed

section \<open>Listing\<close>

text \<open>
  C24. The listing is exact: on a working database it answers the requested page, at most
  \<open>maxListLimit\<close> files, each with precisely its own tags; and a file can be on a page only if it is
  live and its name contains the search text literally, ASCII letters compared without case, whatever
  wildcards the text contains.
\<close>

theorem listing_is_exact:
  assumes "faults (conn srv) = []" and "0 < maxListLimit cfg"
  shows "listFilesHandler cfg r srv =
      (json 200 (JFiles (map (\<lambda>x. fileInfoFromRecord x (tag_names (tables_of srv) (Slug x)))
         (page_records cfg r (tables_of srv))) (length (page_records cfg r (tables_of srv)))), srv)
    \<and> int (length (page_records cfg r (tables_of srv))) \<le> maxListLimit cfg
    \<and> (\<forall>x \<in> set (page_records cfg r (tables_of srv)). x \<in> set (files (tables_of srv)) \<and> live x
         \<and> (\<exists>pre mid post. DisplayName x = pre @ mid @ post
              \<and> map lower_char mid = map lower_char (query_param r ''search'')))"
proof -
  let ?page = "page_records cfg r (tables_of srv)"
  have "length ?page \<le> page_limit cfg r" by (simp add: page_records_def window_def)
  then have "int (length ?page) \<le> maxListLimit cfg" using page_limit_bounds [OF assms(2), of r] by linarith
  moreover have "x \<in> set (files (tables_of srv)) \<and> live x \<and> (\<exists>pre mid post. DisplayName x = pre @ mid @ post
      \<and> map lower_char mid = map lower_char (query_param r ''search''))" if "x \<in> set ?page" for x
  proof -
    let ?q = "query_param r ''search''" and ?all = "matching (query_param r ''search'') (files (tables_of srv))"
    have "x \<in> set (orderByClause (query_param r ''order'') ?all)"
      using that unfolding page_records_def window_def by (meson in_set_dropD in_set_takeD)
    then have "x \<in> set ?all" by (metis orderByClause_mset set_mset_mset)
    then have "x \<in> set (files (tables_of srv))" "live x" "?q = [] \<or> like (contains_pattern ?q) (DisplayName x)"
      by (auto simp: matching_def)
    moreover have "\<exists>pre mid post. DisplayName x = pre @ mid @ post \<and> map lower_char mid = map lower_char ?q"
      if "?q = []" using that by auto
    ultimately show ?thesis using like_contains by blast
  qed
  ultimately show ?thesis using listFilesHandler_healthy [OF assms(1)] by blast
qed

lemma listing_is_exact_witness:
  "\<exists>infos. listFilesHandler ex_cfg ex_upload ex_used = (json 200 (JFiles infos 1), ex_used)"
proof -
  have "0 < maxListLimit ex_cfg" "length (page_records ex_cfg ex_upload (tables_of ex_used)) = 1" by code_simp+
  with listing_is_exact [of ex_used ex_cfg ex_upload] ex_used_facts(1) show ?thesis
    by (auto simp: healthy_def)
qed

text \<open>
  C25. Paging is complete: on a database at rest, reading page after page gives every matching file
  exactly once, in any of the orders.
\<close>

theorem pages_cover_all_matches:
  assumes "faults c = []" and "length (matching search (files (db c))) \<le> m * n"
  shows "mset (concat (map (\<lambda>k. case fst (listLiveRecords (k * n) n search order c) of
      Inl e \<Rightarrow> [] | Inr rs \<Rightarrow> rs) [0..<m])) = mset (matching search (files (db c)))"
  by (rule pages_complete [OF assms])

lemma pages_cover_all_matches_witness:
  "mset (concat (map (\<lambda>k. case fst (listLiveRecords (k * 1) 1 ''A'' [] (conn ex_used)) of
      Inl e \<Rightarrow> [] | Inr rs \<Rightarrow> rs) [0..<2])) = mset (matching ''A'' (files (tables_of ex_used)))"
proof -
  have "length (matching ''A'' (files (tables_of ex_used))) \<le> 2 * 1" by code_simp
  then show ?thesis
    by (rule pages_cover_all_matches [rotated]) (use ex_used_facts(1) in \<open>simp add: healthy_def\<close>)
qed

end
