(* ===== verification/AccessProperties.thy ===== *)
theory AccessProperties
  imports Login SnapshotExamples
begin

text \<open>
  Who a credential speaks for and what it may do: session tokens, the OIDC login, roles, tags as
  callers write them, and the configuration the rest relies on.
\<close>

section \<open>Sessions\<close>

text \<open>
  C32. A session token speaks for whom it was minted: presented as a bearer token before it expires
  it authenticates the subject with exactly the minted permissions, and afterwards it is refused.
\<close>

theorem minted_session_authenticates:
  assumes "jwt_documented (jwt pf)" and "mintSessionToken (jwt pf) (session cfg) via ident perms ttl now = Inr tok"
    and "authorization req = ''Bearer '' @ tok" and "tok \<noteq> []" and "tok \<noteq> apiToken cfg"
  shows "resolveAuth cfg pf req =
    (if unexpired ttl now (wall req)
     then Some \<lparr>Kind = SessionKind, auth_Subject = Subject ident, auth_Via = via, Perms = set perms\<rparr>
     else None)"
proof (cases "unexpired ttl now (wall req)")
  case True
  with session_grants [OF assms(1,2) True assms(3-5)] show ?thesis by simp
next
  case False
  then obtain e where "verifySessionTokenAt (jwt pf) (session cfg) tok (wall req) = Inl e"
    using verify_minted [OF assms(1,2), of "wall req"] by auto
  moreover have "bearerToken req = tok" using assms(3) by (simp add: bearerToken_def)
  ultimately show ?thesis using False assms(4,5) by (simp add: resolveAuth_def)
qed

definition ex_ident :: sessionIdentity where
  "ex_ident = \<lparr>Subject = ''ann'', Email = [], id_Name = [], PreferredUsername = []\<rparr>"

lemma ex_minted: "mintSessionToken ex_jwt (session ex_cfg) ''mint'' ex_ident [permFileCreate] (60 * 10 ^ 9) 0 = Inr ''tok''"
  by code_simp

lemma minted_session_authenticates_witness:
  "resolveAuth ex_cfg ex_pf (ex_plain [])
     = Some \<lparr>Kind = SessionKind, auth_Subject = ''ann'', auth_Via = ''mint'', Perms = {permFileCreate}\<rparr>
   \<and> resolveAuth ex_cfg ex_pf (ex_plain []\<lparr>wall := 60 * 10 ^ 9\<rparr>) = None"
proof -
  have doc: "jwt_documented (jwt ex_pf)" using ex_jwt_documented by (simp add: ex_pf_def fs_platform_def)
  have mint: "mintSessionToken (jwt ex_pf) (session ex_cfg) ''mint'' ex_ident [permFileCreate] (60 * 10 ^ 9) 0
      = Inr ''tok''" using ex_minted by (simp add: ex_pf_def fs_platform_def)
  have req: "authorization (ex_plain []) = ''Bearer '' @ ''tok''" "''tok'' \<noteq> apiToken ex_cfg"
    "unexpired (60 * 10 ^ 9) 0 (wall (ex_plain []))"
    "\<not> unexpired (60 * 10 ^ 9) 0 (wall (ex_plain []\<lparr>wall := 60 * 10 ^ 9\<rparr>))"
    by code_simp+
  have "authorization (ex_plain []\<lparr>wall := 60 * 10 ^ 9\<rparr>) = ''Bearer '' @ ''tok''" using req(1) by simp
  with minted_session_authenticates [OF doc mint req(1) _ req(2)]
    minted_session_authenticates [OF doc mint _ _ req(2), of "ex_plain []\<lparr>wall := 60 * 10 ^ 9\<rparr>"] req
  show ?thesis by (simp add: ex_ident_def)
qed

section \<open>Login\<close>

text \<open>
  C12. What a completed login proves and grants. When the callback hands out a token, the browser
  brought back a state cookie that carries the MAC of its payload under this server's key and has not
  expired, its state and nonce match the request and the verified id token, and the code was exchanged with the cookie's verifier; and the token
  authenticates the id token's subject with exactly the permissions that the groups of the id token
  have through their roles.
\<close>

theorem login_grants_group_permissions:
  assumes "oidcCallbackHandler lib (jwt pf) oc (session cfg) az now outcome r m = (resp, m1)"
    and "answer resp = Redirect (''/#token='' @ tok)" and "jwt_documented (jwt pf)"
    and "unexpired (sessionTTL (session cfg)) now (wall req)"
    and "authorization req = ''Bearer '' @ tok" and "tok \<noteq> []" and "tok \<noteq> apiToken cfg"
  shows "\<exists>raw p s payload st idToken ident groups provider token rawid. state_cookie r = Some raw
    \<and> raw = p @ ''.'' @ s \<and> DecodeString p = Some payload
    \<and> DecodeString s = Some (hmac_sha256 lib (sessionSecret (session cfg)) payload)
    \<and> Unmarshal lib payload = Inr st \<and> now \<le> Expires st * 10 ^ 9
    \<and> auth_query r ''state'' = State st \<and> tok_Nonce idToken = Nonce st
    \<and> Exchange lib provider oc (oidcCallbackURL oc r) (auth_query r ''code'') (Verifier st) = Inr token
    \<and> id_token_of lib token = Some rawid
    \<and> VerifyIDToken lib provider (oidcClientID oc) rawid = Inr idToken
    \<and> oidcClaimsFromIDToken lib oc idToken = (ident, groups)
    \<and> resolveAuth cfg pf req = Some \<lparr>Kind = SessionKind, auth_Subject = Subject ident,
         auth_Via = ''oidc'', Perms = granted az groups\<rparr>"
proof -
  obtain provider raw idToken ident groups where c: "state_cookie r = Some raw"
    "callback_verified lib oc (session cfg) now raw r provider = Inr idToken"
    "oidcClaimsFromIDToken lib oc idToken = (ident, groups)"
    "mintSessionToken (jwt pf) (session cfg) ''oidc'' ident (resolvePermissions az groups)
       (sessionTTL (session cfg)) now = Inr tok"
    using callback_mints [OF assms(1,2)] by blast
  have "resolveAuth cfg pf req = Some \<lparr>Kind = SessionKind, auth_Subject = Subject ident,
      auth_Via = ''oidc'', Perms = set (resolvePermissions az groups)\<rparr>"
    by (rule session_grants [OF assms(3) c(4) assms(4-7)])
  moreover have "set (resolvePermissions az groups) = granted az groups"
    by (simp add: resolvePermissions_names permission_names_def finite_granted)
  moreover obtain st token rawid where v: "parseOIDCState lib (session cfg) raw = Inr st" "now \<le> Expires st * 10 ^ 9"
    "auth_query r ''state'' = State st" "tok_Nonce idToken = Nonce st"
    "Exchange lib provider oc (oidcCallbackURL oc r) (auth_query r ''code'') (Verifier st) = Inr token"
    "id_token_of lib token = Some rawid" "VerifyIDToken lib provider (oidcClientID oc) rawid = Inr idToken"
    using callback_verified_checks [OF c(2)] by blast
  moreover obtain p s payload where "raw = p @ ''.'' @ s" "DecodeString p = Some payload"
    "DecodeString s = Some (hmac_sha256 lib (sessionSecret (session cfg)) payload)" "Unmarshal lib payload = Inr st"
    using parse_authentic [OF v(1)] by blast
  ultimately show ?thesis using c(1,3) by metis
qed

text \<open>A provider that knows one code, and a JWT library that knows one login.\<close>

definition ex_oidc_state :: oidcState where
  "ex_oidc_state = \<lparr>State = ''s'', Nonce = ''n'', Verifier = ''v'', Expires = 100\<rparr>"

definition ex_oidc :: "(unit, unit) oidc_lib" where
  "ex_oidc =
     \<lparr>hmac_sha256 = (\<lambda>k p. take 8 k @ p),
      Marshal = (\<lambda>st. if st = ex_oidc_state then Inr ''{1}'' else Inl ''no''),
      Unmarshal = (\<lambda>b. if b = ''{1}'' then Inr ex_oidc_state else Inl ''no''),
      json_string = (\<lambda>_. None),
      json_strings = (\<lambda>b. if b = ''[devs]'' then Some [''devs''] else None),
      AuthCodeURL = (\<lambda>_ _ _ s _ _. ''https://idp/auth?state='' @ s),
      Exchange = (\<lambda>_ _ _ code v. if code = ''c'' \<and> v = ''v'' then Inr () else Inl ''bad code''),
      id_token_of = (\<lambda>_. Some ''raw''),
      VerifyIDToken = (\<lambda>_ _ raw. if raw = ''raw''
        then Inr \<lparr>tok_Subject = ''bob'', tok_Nonce = ''n'',
          tok_Claims = Inr (\<lambda>c. if c = ''groups'' then Some ''[devs]'' else None)\<rparr>
        else Inl ''bad'')\<rparr>"

definition ex_oidc_cfg :: oidc_cfg where
  "ex_oidc_cfg = \<lparr>oidcIssuer = ''https://idp'', oidcClientID = ''art'', oidcClientSecret = [],
     oidcScopes = [''openid''], oidcRedirectURL = [], oidcGroupsClaim = ''groups''\<rparr>"

definition ex_authz :: authz where
  "ex_authz = \<lparr>roles = [(''dev'', [permFileCreate, permTagAdd])], groupRoles = [(''devs'', [''dev''])],
     groupsConfigured = True\<rparr>"

definition ex_login_claims :: sessionClaims where
  "ex_login_claims = minted_claims ex_jwt ''oidc'' (ex_ident\<lparr>Subject := ''bob''\<rparr>)
     [permFileCreate, permTagAdd] defaultSessionTTL 0"

definition ex_login_jwt :: jwt_lib where
  "ex_login_jwt =
     \<lparr>NewNumericDate = (\<lambda>t. t div 10 ^ 9 * 10 ^ 9),
      SignedString = (\<lambda>alg c key. if alg = ''HS256'' \<and> c = ex_login_claims \<and> key = ex_key
        then Inr ''tok'' else Inl ''no such key''),
      ParseWithClaims = (\<lambda>opts raw.
        if raw = ''tok'' \<and> ''HS256'' \<in> set (o_methods opts) \<and> o_key opts = ex_key
           \<and> claims_valid opts ex_login_claims
        then Inr (ex_login_claims, True) else Inl ''invalid'')\<rparr>"

lemma ex_login_jwt_documented: "jwt_documented ex_login_jwt"
  by (auto simp: jwt_documented_def ex_login_jwt_def split: if_splits)

definition ex_callback :: auth_request where
  "ex_callback =
     \<lparr>X_Forwarded_Proto = ''https'', X_Forwarded_Host = [], Host = ''art'', TLS = False,
      state_cookie = Some (signOIDCState ex_oidc (session ex_cfg) ''{1}''),
      auth_query = (\<lambda>q. if q = ''state'' then ''s'' else if q = ''code'' then ''c'' else [])\<rparr>"

definition ex_login :: "auth_response \<times> unit provider_memo" where
  "ex_login = oidcCallbackHandler ex_oidc ex_login_jwt ex_oidc_cfg (session ex_cfg) ex_authz 0 (Inr ()) ex_callback memo_init"

lemma login_grants_group_permissions_witness:
  "\<exists>(ident :: sessionIdentity) groups. resolveAuth ex_cfg (ex_pf\<lparr>jwt := ex_login_jwt\<rparr>) (ex_plain [])
     = Some \<lparr>Kind = SessionKind, auth_Subject = Subject ident, auth_Via = ''oidc'', Perms = granted ex_authz groups\<rparr>"
proof -
  have j: "jwt (ex_pf\<lparr>jwt := ex_login_jwt\<rparr>) = ex_login_jwt" by simp
  have run: "oidcCallbackHandler ex_oidc (jwt (ex_pf\<lparr>jwt := ex_login_jwt\<rparr>)) ex_oidc_cfg (session ex_cfg)
      ex_authz 0 (Inr ()) ex_callback memo_init = (fst ex_login, snd ex_login)"
    unfolding j by (simp add: ex_login_def)
  have ans: "answer (fst ex_login) = Redirect (''/#token='' @ ''tok'')" by code_simp
  have doc: "jwt_documented (jwt (ex_pf\<lparr>jwt := ex_login_jwt\<rparr>))" unfolding j by (rule ex_login_jwt_documented)
  have "unexpired (sessionTTL (session ex_cfg)) 0 (wall (ex_plain []))"
    "authorization (ex_plain []) = ''Bearer '' @ ''tok''" "''tok'' \<noteq> []" "''tok'' \<noteq> apiToken ex_cfg"
    by code_simp+
  from login_grants_group_permissions [OF run ans doc this] show ?thesis
    by (elim exE conjE) (intro exI)
qed

text \<open>
  C33. The two halves of a login fit. When the login handler redirects to the provider, the address
  carries a state and a nonce, and the cookie it sets, brought back to the callback of a server with
  the same session key, completes the login exactly when ten minutes have not passed, the request
  repeats the state and carries a code and no error, the code is exchanged with the verifier of that
  login, the id token verifies and repeats the nonce, and a token can be minted.
\<close>

theorem login_is_recognized:
  assumes "state_documented lib"
    and "oidcLoginHandler lib oc sess now outcome read1 read2 verifier r m = (resp, m1)"
    and "answer resp = Redirect url" and "verifier \<noteq> []"
    and "\<And>b. read1 32 = Inr b \<Longrightarrow> b \<noteq> []" and "\<And>b. read2 32 = Inr b \<Longrightarrow> b \<noteq> []"
  shows "\<exists>provider state nonce v. url = AuthCodeURL lib provider oc (oidcCallbackURL oc r) state nonce verifier
    \<and> cookies resp = [setOIDCStateCookie r v]
    \<and> (\<forall>jlib az now1 outcome1 r1 m2 provider1 tok.
         state_cookie r1 = Some v \<and> fst (getOIDCProvider oc now1 outcome1 m2) = Inr provider1 \<longrightarrow>
         (answer (fst (oidcCallbackHandler lib jlib oc sess az now1 outcome1 r1 m2)) = Redirect (''/#token='' @ tok)
          \<longleftrightarrow> now1 \<le> (now + oidcStateCookieTTL) div 10 ^ 9 * 10 ^ 9
            \<and> auth_query r1 ''state'' = state \<and> auth_query r1 ''error'' = [] \<and> auth_query r1 ''code'' \<noteq> []
            \<and> (\<exists>token rawid idToken ident groups.
                 Exchange lib provider1 oc (oidcCallbackURL oc r1) (auth_query r1 ''code'') verifier = Inr token
               \<and> id_token_of lib token = Some rawid \<and> VerifyIDToken lib provider1 (oidcClientID oc) rawid = Inr idToken
               \<and> tok_Nonce idToken = nonce \<and> oidcClaimsFromIDToken lib oc idToken = (ident, groups)
               \<and> mintSessionToken jlib sess ''oidc'' ident (resolvePermissions az groups) (sessionTTL sess) now1 = Inr tok)))"
proof -
  obtain provider state nonce payload where l: "randomURLToken read1 32 = Inr state" "randomURLToken read2 32 = Inr nonce"
    "Marshal lib \<lparr>State = state, Nonce = nonce, Verifier = verifier,
       Expires = (now + oidcStateCookieTTL) div 10 ^ 9\<rparr> = Inr payload"
    "url = AuthCodeURL lib provider oc (oidcCallbackURL oc r) state nonce verifier"
    "cookies resp = [setOIDCStateCookie r (signOIDCState lib sess payload)]"
    using login_redirects [OF assms(2,3)] by blast
  have "state \<noteq> []" "nonce \<noteq> []" using random_token_nonempty l(1,2) assms(5,6) by blast+
  then have st: "parseOIDCState lib sess (signOIDCState lib sess payload) = Inr \<lparr>State = state, Nonce = nonce,
      Verifier = verifier, Expires = (now + oidcStateCookieTTL) div 10 ^ 9\<rparr>"
    using parse_signed [OF assms(1) l(3)] assms(4) by simp
  have "oidc_enabled oc" using login_enabled [OF assms(2,3)] .
  from callback_completes [OF this _ _ st] l(4,5) show ?thesis
    by (intro exI [of _ provider] exI [of _ state] exI [of _ nonce] exI [of _ "signOIDCState lib sess payload"]) simp
qed

text \<open>The library of the examples with a JSON codec for the states of one login.\<close>

definition ex_begun :: oidcState where
  "ex_begun = \<lparr>State = ''cw'', Nonce = ''bg'', Verifier = ''v'', Expires = 600\<rparr>"

definition ex_oidc_begin :: "(unit, unit) oidc_lib" where
  "ex_oidc_begin = ex_oidc\<lparr>Marshal := (\<lambda>st. if st = ex_begun then Inr ''{2}'' else Inl ''no''),
     Unmarshal := (\<lambda>b. if b = ''{2}'' then Inr ex_begun else Inl ''no''),
     AuthCodeURL := (\<lambda>_ _ _ s n _. if s = ''cw'' \<and> n = ''bg'' then ''https://idp/auth'' else []),
     VerifyIDToken := (\<lambda>_ _ raw. Inr \<lparr>tok_Subject = ''bob'', tok_Nonce = ''bg'',
       tok_Claims = Inr (\<lambda>c. if c = ''groups'' then Some ''[devs]'' else None)\<rparr>)\<rparr>"

definition ex_begin :: "auth_response \<times> unit provider_memo" where
  "ex_begin = oidcLoginHandler ex_oidc_begin ex_oidc_cfg (session ex_cfg) 0 (Inr ()) (\<lambda>_. Inr ''s'') (\<lambda>_. Inr ''n'')
     ''v'' (ex_callback\<lparr>state_cookie := None\<rparr>) memo_init"

definition ex_back :: "string \<Rightarrow> auth_request" where
  "ex_back v = ex_callback\<lparr>state_cookie := Some v,
     auth_query := (\<lambda>q. if q = ''state'' then ''cw'' else if q = ''code'' then ''c'' else [])\<rparr>"

lemma login_is_recognized_witness:
  "\<exists>v. cookies (fst ex_begin) = [setOIDCStateCookie (ex_callback\<lparr>state_cookie := None\<rparr>) v]
     \<and> answer (fst (oidcCallbackHandler ex_oidc_begin ex_login_jwt ex_oidc_cfg (session ex_cfg) ex_authz 0 (Inr ())
         (ex_back v) memo_init)) = Redirect (''/#token='' @ ''tok'')"
proof -
  have doc: "state_documented ex_oidc_begin"
    by (auto simp: state_documented_def ex_oidc_begin_def split: if_splits)
  have run: "oidcLoginHandler ex_oidc_begin ex_oidc_cfg (session ex_cfg) 0 (Inr ()) (\<lambda>_. Inr ''s'') (\<lambda>_. Inr ''n'')
      ''v'' (ex_callback\<lparr>state_cookie := None\<rparr>) memo_init = (fst ex_begin, snd ex_begin)"
    by (simp add: ex_begin_def)
  have url: "answer (fst ex_begin) = Redirect ''https://idp/auth''" by code_simp
  let ?ident = "\<lparr>Subject = ''bob'', Email = [], id_Name = [], PreferredUsername = []\<rparr>"
  let ?idt = "\<lparr>tok_Subject = ''bob'', tok_Nonce = ''bg'',
       tok_Claims = Inr (\<lambda>c. if c = ''groups'' then Some ''[devs]'' else None)\<rparr>"
  have lib: "Exchange ex_oidc_begin p oc u ''c'' ''v'' = Inr ()" "id_token_of ex_oidc_begin () = Some ''raw''"
    "VerifyIDToken ex_oidc_begin p i ''raw'' = Inr ?idt" for p oc u i
    by (simp_all add: ex_oidc_begin_def ex_oidc_def)
  have claims: "oidcClaimsFromIDToken ex_oidc_begin ex_oidc_cfg ?idt = (?ident, [''devs''])"
    by (simp add: oidcClaimsFromIDToken_def claimString_def claimGroups_def ex_oidc_begin_def ex_oidc_def ex_oidc_cfg_def)
  have mint: "mintSessionToken ex_login_jwt (session ex_cfg) ''oidc'' ?ident (resolvePermissions ex_authz [''devs''])
      (sessionTTL (session ex_cfg)) 0 = Inr ''tok''" by code_simp
  have prov: "fst (getOIDCProvider ex_oidc_cfg 0 (Inr ()) memo_init) = Inr ()" by code_simp
  have req: "state_cookie (ex_back v) = Some v" "auth_query (ex_back v) ''state'' = ''cw''"
    "auth_query (ex_back v) ''code'' = ''c''" "auth_query (ex_back v) ''error'' = []" for v
    by (simp_all add: ex_back_def)
  obtain provider state nonce v where v: "''https://idp/auth'' = AuthCodeURL ex_oidc_begin provider ex_oidc_cfg
      (oidcCallbackURL ex_oidc_cfg (ex_callback\<lparr>state_cookie := None\<rparr>)) state nonce ''v''"
    "cookies (fst ex_begin) = [setOIDCStateCookie (ex_callback\<lparr>state_cookie := None\<rparr>) v]"
    and all: "\<And>tok. answer (fst (oidcCallbackHandler ex_oidc_begin ex_login_jwt ex_oidc_cfg (session ex_cfg) ex_authz 0
         (Inr ()) (ex_back v) memo_init)) = Redirect (''/#token='' @ tok)
      \<longleftrightarrow> 0 \<le> (0 + oidcStateCookieTTL) div 10 ^ 9 * 10 ^ 9 \<and> auth_query (ex_back v) ''state'' = state
        \<and> auth_query (ex_back v) ''error'' = [] \<and> auth_query (ex_back v) ''code'' \<noteq> []
        \<and> (\<exists>token rawid idToken ident groups.
             Exchange ex_oidc_begin () ex_oidc_cfg (oidcCallbackURL ex_oidc_cfg (ex_back v))
               (auth_query (ex_back v) ''code'') ''v'' = Inr token
           \<and> id_token_of ex_oidc_begin token = Some rawid
           \<and> VerifyIDToken ex_oidc_begin () (oidcClientID ex_oidc_cfg) rawid = Inr idToken
           \<and> tok_Nonce idToken = nonce \<and> oidcClaimsFromIDToken ex_oidc_begin ex_oidc_cfg idToken = (ident, groups)
           \<and> mintSessionToken ex_login_jwt (session ex_cfg) ''oidc'' ident (resolvePermissions ex_authz groups)
               (sessionTTL (session ex_cfg)) 0 = Inr tok)"
    using login_is_recognized [OF doc run url] prov req(1) by fastforce
  have "state = ''cw'' \<and> nonce = ''bg''"
    using v(1) by (simp add: ex_oidc_begin_def split: if_splits)
  then have "answer (fst (oidcCallbackHandler ex_oidc_begin ex_login_jwt ex_oidc_cfg (session ex_cfg) ex_authz 0
         (Inr ()) (ex_back v) memo_init)) = Redirect (''/#token='' @ ''tok'')"
    unfolding all using req lib claims mint by (simp add: oidcStateCookieTTL_def)
  with v(2) show ?thesis by blast
qed

text \<open>
  C35. The provider is not hammered: over any sequence of logins, discovery is asked at instants at
  least \<open>oidcProviderRetryInterval\<close> apart.
\<close>

theorem discovery_is_spaced:
  "sorted_wrt (\<lambda>s t. s + oidcProviderRetryInterval \<le> t) (asked_at oc evs memo_init)"
  using asked_spaced by blast

section \<open>Permissions\<close>

text \<open>
  C34. A group membership means its roles and nothing else: the resolved permissions are, sorted and
  without repetition, the union over the caller's groups and the wildcard of the permissions of the
  roles bound to them.
\<close>

theorem groups_grant_their_roles:
  "set (resolvePermissions az groups)
     = (\<Union>grp \<in> insert wildcardGroup (set groups). \<Union>role \<in> set (map_index (groupRoles az) grp).
          set (map_index (roles az) role))
   \<and> sorted (resolvePermissions az groups) \<and> distinct (resolvePermissions az groups)"
  by (simp add: resolvePermissions_names permission_names_def finite_granted) (simp add: granted_def)

section \<open>Configuration\<close>

text \<open>
  C30. What a server that starts can rely on, whatever the environment says: positive page limits, a
  known store and restore mode, a replica that is read-only and over S3, a backup prefix, session keys
  of the minimum length, a signing key whenever OIDC is on, and only known permissions and roles in
  the authorization tables.
\<close>

theorem loaded_configuration_is_sound:
  assumes "load_config ps getenv = Inr c"
  shows "config_ok c"
  by (rule load_config_ok [OF assms])

lemma loaded_configuration_is_sound_witness: "config_ok ex_replica_conf"
proof -
  have "case ex_load ex_replica_env of Inr _ \<Rightarrow> True | _ \<Rightarrow> False" by code_simp
  then obtain c where "ex_load ex_replica_env = Inr c" by (auto split: sum.splits)
  moreover from this have "ex_replica_conf = c" by (simp add: ex_replica_conf_def)
  ultimately show ?thesis using loaded_configuration_is_sound unfolding ex_load_def by metis
qed

end
