(* ===== verification/Races.thy ===== *)
theory Races
  imports Examples
begin

text \<open>
  Schedules: three runs in which two requests meet show what the checks of the handlers, made in
  calls of their own, do not prevent.
\<close>

section \<open>Two requests at once\<close>

definition run_of :: "event list \<Rightarrow> fsys system" where
  "run_of es = the (play ex_cfg ex_pf es (ex_srv, []))"

definition finished :: "fsys system \<Rightarrow> nat \<Rightarrow> nat option" where
  "finished s i =
     (case snd s ! i of
        TUpload _ st \<Rightarrow> map_option status (upload_result st)
      | TDone resp \<Rightarrow> Some (status resp)
      | _ \<Rightarrow> None)"

text \<open>A caller who may only create files looks the name up before another upload takes it.\<close>

definition supersede_events :: "event list" where
  "supersede_events =
     [Arrive EpUpload (ex_plain [permFileCreate]), Run 0, Arrive EpUpload (ex_plain allPermissions)]
     @ replicate 9 (Run 1) @ replicate 8 (Run 0)"

text \<open>Two uploads of one name look it up and reserve before either is finished.\<close>

definition twice_events :: "event list" where
  "twice_events =
     [Arrive EpUpload (ex_plain [permFileCreate]), Arrive EpUpload ex_upload, Run 0, Run 0, Run 1, Run 1]
     @ replicate 7 (Run 0) @ replicate 7 (Run 1)"

text \<open>A tag is checked, the file is deleted, and then the tag is attached.\<close>

definition attach_events :: "event list" where
  "attach_events =
     Arrive EpUpload (ex_plain [permFileCreate]) # replicate 9 (Run 0)
     @ [Arrive (EpAddTags ''DDDDD'') (ex_plain allPermissions), Run 1,
        Arrive (EpDelete ''DDDDD'') (ex_plain allPermissions), Run 2, Run 2, Run 1]"

text \<open>
  C39. The permission to supersede is checked too early: there is a run in which an upload by a
  caller without \<open>file:delete\<close> answers 201 and has taken away a live file that another upload, also
  answered with 201, had stored under the same name in the meantime.
\<close>

theorem upload_supersedes_without_permission:
  "reachable ex_cfg ex_pf (ex_srv, []) (run_of supersede_events)
   \<and> \<not> hasPermission (ex_plain [permFileCreate]) permFileDelete
   \<and> finished (run_of supersede_events) 0 = Some 201 \<and> finished (run_of supersede_events) 1 = Some 201
   \<and> map Deleted (files (tables_of (fst (run_of supersede_events)))) = [True, False]"
proof -
  have "case play ex_cfg ex_pf supersede_events (ex_srv, []) of None \<Rightarrow> False | Some s \<Rightarrow>
      finished s 0 = Some 201 \<and> finished s 1 = Some 201 \<and> map Deleted (files (tables_of (fst s))) = [True, False]"
    by code_simp
  moreover have "\<not> hasPermission (ex_plain [permFileCreate]) permFileDelete" by code_simp
  ultimately show ?thesis unfolding run_of_def using play_outcome by fast
qed

text \<open>
  Two uploads of one name at the same time leave two live files of that name, though neither
  instance nor request is in append-only mode.
\<close>

lemma concurrent_uploads_leave_two_files:
  "reachable ex_cfg ex_pf (ex_srv, []) (run_of twice_events) \<and> \<not> appendOnly ex_cfg
   \<and> finished (run_of twice_events) 0 = Some 201 \<and> finished (run_of twice_events) 1 = Some 201
   \<and> map DisplayName (filter live (files (tables_of (fst (run_of twice_events))))) = [''a.txt'', ''a.txt'']"
proof -
  have "case play ex_cfg ex_pf twice_events (ex_srv, []) of None \<Rightarrow> False | Some s \<Rightarrow>
      finished s 0 = Some 201 \<and> finished s 1 = Some 201
      \<and> map DisplayName (filter live (files (tables_of (fst s)))) = [''a.txt'', ''a.txt'']"
    by code_simp
  moreover have "\<not> appendOnly ex_cfg" by (simp add: ex_cfg_def)
  ultimately show ?thesis unfolding run_of_def using play_outcome by fast
qed

text \<open>A tag can end up on a file that is already deleted.\<close>

lemma tag_attached_to_deleted_file:
  "finished (run_of attach_events) 1 = Some 200
   \<and> tag_owner (tables_of (fst (run_of attach_events))) (''x'', ''1'') = Some ''DDDDD''
   \<and> map live (files (tables_of (fst (run_of attach_events)))) = [False]"
proof -
  have "case play ex_cfg ex_pf attach_events (ex_srv, []) of None \<Rightarrow> False | Some s \<Rightarrow>
      finished s 1 = Some 200 \<and> tag_owner (tables_of (fst s)) (''x'', ''1'') = Some ''DDDDD''
      \<and> map live (files (tables_of (fst s))) = [False]"
    by code_simp
  then show ?thesis unfolding run_of_def using play_outcome(2) by fast
qed

end
