(* ===== verification/Finished.thy ===== *)
theory Finished
  imports Refinement
begin

text \<open>
  A record that has left the pending state never changes again, except to be deleted: no step of any
  thread finalizes a record other than the pending one it works on.
\<close>

definition finished_kept :: "tables \<Rightarrow> tables \<Rightarrow> bool" where
  "finished_kept d e \<longleftrightarrow> (\<forall>r \<in> set (files d). \<not> Pending r \<longrightarrow>
     (\<exists>x. r\<lparr>Deleted := x\<rparr> \<in> set (files e) \<and> (Deleted r \<longrightarrow> x)))"

definition same_or_deleted :: "FileRecord \<Rightarrow> tables \<Rightarrow> bool" where
  "same_or_deleted r e \<longleftrightarrow> (\<exists>x. r\<lparr>Deleted := x\<rparr> \<in> set (files e) \<and> (Deleted r \<longrightarrow> x))"

lemma same_or_deletedI: "r \<in> set (files e) \<or> r\<lparr>Deleted := True\<rparr> \<in> set (files e) \<Longrightarrow> same_or_deleted r e"
proof -
  have "r\<lparr>Deleted := Deleted r\<rparr> = r" by simp
  then show "r \<in> set (files e) \<or> r\<lparr>Deleted := True\<rparr> \<in> set (files e) \<Longrightarrow> same_or_deleted r e"
    unfolding same_or_deleted_def by metis
qed

lemma finished_keptD: "finished_kept d e \<Longrightarrow> r \<in> set (files d) \<Longrightarrow> \<not> Pending r \<Longrightarrow> same_or_deleted r e"
  by (simp add: finished_kept_def same_or_deleted_def)

lemma finished_keptI:
  "(\<And>r. r \<in> set (files d) \<Longrightarrow> \<not> Pending r \<Longrightarrow> same_or_deleted r e) \<Longrightarrow> finished_kept d e"
  by (simp add: finished_kept_def same_or_deleted_def)

lemma finished_refl: "finished_kept d d"
  by (rule finished_keptI) (simp add: same_or_deletedI)

lemma finished_trans:
  assumes "finished_kept d e" and "finished_kept e f"
  shows "finished_kept d f"
proof (rule finished_keptI)
  fix r assume r: "r \<in> set (files d)" "\<not> Pending r"
  obtain x where x: "r\<lparr>Deleted := x\<rparr> \<in> set (files e)" "Deleted r \<longrightarrow> x"
    using finished_keptD [OF assms(1) r] unfolding same_or_deleted_def by blast
  have "\<not> Pending (r\<lparr>Deleted := x\<rparr>)" using r(2) by simp
  from finished_keptD [OF assms(2) x(1) this] obtain y where
    "r\<lparr>Deleted := x, Deleted := y\<rparr> \<in> set (files f)" "Deleted (r\<lparr>Deleted := x\<rparr>) \<longrightarrow> y"
    unfolding same_or_deleted_def by blast
  with x(2) show "same_or_deleted r f" unfolding same_or_deleted_def by (intro exI [of _ y]) simp
qed

lemma same_or_deleted_update:
  assumes "same_or_deleted r e" and "\<not> Pending r"
    and "\<And>q. s = Slug r \<Longrightarrow> \<not> Pending q \<Longrightarrow> f q = q\<lparr>Deleted := True\<rparr>"
  shows "same_or_deleted r (update_file s f e)"
proof -
  obtain x where x: "r\<lparr>Deleted := x\<rparr> \<in> set (files e)" "Deleted r \<longrightarrow> x"
    using assms(1) unfolding same_or_deleted_def by blast
  define q where "q = r\<lparr>Deleted := x\<rparr>"
  have q: "Slug q = Slug r" "\<not> Pending q" "q\<lparr>Deleted := True\<rparr> = r\<lparr>Deleted := True\<rparr>"
    using assms(2) by (simp_all add: q_def)
  have "(if Slug q = s then f q else q) \<in> set (files (update_file s f e))"
    using x(1) unfolding set_files_update q_def by blast
  moreover have "f q = r\<lparr>Deleted := True\<rparr>" if "s = Slug r" using assms(3) [OF that q(2)] q(3) by simp
  ultimately show ?thesis
    using x(2) q(1) same_or_deletedI unfolding same_or_deleted_def q_def by (cases "Slug r = s") auto
qed

lemma same_or_deleted_more:
  "same_or_deleted r d \<Longrightarrow> set (files d) \<subseteq> set (files e) \<Longrightarrow> same_or_deleted r e"
  by (auto simp: same_or_deleted_def)

lemma same_or_deleted_write:
  assumes "same_or_deleted r e" and "\<not> Pending r" and "\<And>n m. w \<noteq> Finalize (Slug r) n m"
  shows "same_or_deleted r (apply_write w e)"
proof (cases w)
  case (InsertPending q)
  with assms(1) show ?thesis by (auto intro: same_or_deleted_more)
next
  case (Finalize s n m)
  with assms(3) have "s \<noteq> Slug r" by auto
  with Finalize assms(1,2) show ?thesis by (simp add: same_or_deleted_update)
next
  case (Retire s)
  with assms(1,2) show ?thesis by (simp add: same_or_deleted_update)
next
  case (Abort s)
  have "q\<lparr>Deleted := True, Pending := False\<rparr> = q\<lparr>Deleted := True\<rparr>" if "\<not> Pending q" for q :: FileRecord
    using that by (cases q) simp
  with Abort assms(1,2) show ?thesis by (simp add: same_or_deleted_update)
qed (use assms(1) in \<open>simp_all add: same_or_deleted_def\<close>)

lemma writes_finished:
  assumes "writes P d e" and "\<And>r n m. r \<in> set (files d) \<Longrightarrow> \<not> Pending r \<Longrightarrow> \<not> P (Finalize (Slug r) n m)"
  shows "finished_kept d e"
proof (rule finished_keptI)
  fix r assume r: "r \<in> set (files d)" "\<not> Pending r"
  show "same_or_deleted r e"
  proof (rule writes_invariant [OF assms(1)])
    show "same_or_deleted r d" using r(1) by (simp add: same_or_deletedI)
    show "same_or_deleted r (apply_write w d')" if "P w" "same_or_deleted r d'" for w d'
    proof (rule same_or_deleted_write [OF that(2) r(2)])
      show "w \<noteq> Finalize (Slug r) n m" for n m using assms(2) [OF r, of n m] that(1) by auto
    qed
  qed
qed

lemma thread_finished:
  assumes "thread_step cfg pf t srv = (t', srv1)" and "thread_ok (tables_of srv) b t" and "db_wf (tables_of srv)"
  shows "finished_kept (tables_of srv) (tables_of srv1)"
proof (rule writes_finished)
  show "writes (may_write cfg t) (tables_of srv) (tables_of srv1)"
  proof -
    have "\<And>r ep. t = TServe r ep \<Longrightarrow> reading ep \<or> (\<exists>slug raw. ep = EpRemoveTag slug raw)"
      using assms(2) by auto
    from thread_step_writes [OF assms(1) this] show ?thesis by (simp add: srv_writes_def)
  qed
  show "\<not> may_write cfg t (Finalize (Slug r) n m)" if "r \<in> set (files (tables_of srv))" "\<not> Pending r" for r n m
  proof
    assume may: "may_write cfg t (Finalize (Slug r) n m)"
    then have "\<exists>q st. t = TUpload q st"
    proof (cases t)
      case (TServe q ep)
      with may show ?thesis by (cases ep) simp_all
    qed simp_all
    then obtain q st where t: "t = TUpload q st" by blast
    with may obtain rec old k ts where "st = UFinalize rec old k ts" "Slug rec = Slug r"
      by (cases st) auto
    with t assms(2) have "pending_row (tables_of srv) (Slug r)" by (simp add: reserved_row_def)
    moreover have "settled (tables_of srv) (Slug r)" using that by (auto simp: settled_def)
    ultimately show False using pending_not_settled assms(3) by blast
  qed
qed

lemma sys_finished:
  assumes "sys_ok (tables_of srv) b ts" and "sys_step cfg pf (srv, ts) (srv1, ts1)"
  shows "finished_kept (tables_of srv) (tables_of srv1)"
  using assms(2)
proof (cases rule: sys_step.cases)
  case (arrive ep r)
  then show ?thesis by (simp add: finished_refl)
next
  case (run i t)
  with assms(1) thread_finished [of cfg pf "ts ! i" srv t srv1 b] show ?thesis by (simp add: sys_ok_def)
qed

end
