(* ===== verification/Writer.thy ===== *)
theory Writer
  imports ServedS3 Finished
begin

text \<open>
  The writer as one system: the requests in flight and the publisher share the database and, when the
  blobs are in S3 too, the bucket. \<open>server_of\<close> is the server the requests see, \<open>w_pub\<close> what the
  publisher sees; the bucket and the tables are the same in both. A step of the whole is a step of
  \<open>Interleaving\<close>, of \<open>PublisherRun\<close>, or of the surroundings, and projects to a step of each part.
\<close>

section \<open>The system\<close>

record 's writer =
  w_conn :: dbconn
  w_threads :: "thread list"
  w_pub :: "'s pub_sys"

abbreviation bucket_of :: "'s writer \<Rightarrow> 's" where
  "bucket_of w \<equiv> remote (ps_node (w_pub w))"

abbreviation data_of :: "'s writer \<Rightarrow> tables" where
  "data_of w \<equiv> db (w_conn w)"

definition server_of :: "'s writer \<Rightarrow> 's server" where
  "server_of w = \<lparr>conn = w_conn w, store = bucket_of w\<rparr>"

definition file_of :: "tables \<Rightarrow> dbfile" where
  "file_of t = \<lparr>tabs = Some t, user_version = schemaVersion\<rparr>"

text \<open>SQLite's counter of changed rows: it grows whenever the tables change.\<close>

definition counted :: "tables \<Rightarrow> tables \<Rightarrow> int \<Rightarrow> int \<Rightarrow> bool" where
  "counted d e n m \<longleftrightarrow> n \<le> m \<and> (e \<noteq> d \<longrightarrow> n < m)"

definition with_bucket :: "'s \<Rightarrow> 's pub_sys \<Rightarrow> 's pub_sys" where
  "with_bucket b p = p\<lparr>ps_node := (ps_node p)\<lparr>remote := b\<rparr>\<rparr>"

definition with_data :: "tables \<Rightarrow> int \<Rightarrow> 's pub_sys \<Rightarrow> 's pub_sys" where
  "with_data t n p = p\<lparr>ps_handle := (ps_handle p)\<lparr>h_db := Inr (file_of t), h_changes := n\<rparr>\<rparr>"

text \<open>Others may use the bucket and the disk, but not the snapshot object, the blobs or the staging file.\<close>

definition untouched ::
  "('s \<Rightarrow> string \<times> string \<Rightarrow> bytes option) \<Rightarrow> 's s3Storage \<Rightarrow> 's s3Storage \<Rightarrow> 's \<Rightarrow> 's \<Rightarrow> bool" where
  "untouched obj sst stb b b1 \<longleftrightarrow>
     s3_look obj sst b1 snapshotKey = s3_look obj sst b snapshotKey
   \<and> (\<forall>s. slug_shape s \<longrightarrow> s3_look obj stb b1 (storageKeyForSlug s) = s3_look obj stb b (storageKeyForSlug s))"

inductive writer_step ::
  "('s \<Rightarrow> string \<times> string \<Rightarrow> bytes option) \<Rightarrow> sqlite \<Rightarrow> config \<Rightarrow> 's platform \<Rightarrow> 's s3Storage \<Rightarrow> 's s3Storage \<Rightarrow>
     's writer \<Rightarrow> 's writer \<Rightarrow> bool"
  for obj sq cfg pf sst stb where
  served: "sys_step (serving cfg) pf (server_of w, w_threads w) (srv1, ts1) \<Longrightarrow>
    counted (data_of w) (tables_of srv1) (h_changes (ps_handle (w_pub w))) n \<Longrightarrow>
    writer_step obj sq cfg pf sst stb w
      \<lparr>w_conn = conn srv1, w_threads = ts1,
       w_pub = with_data (tables_of srv1) n (with_bucket (store srv1) (w_pub w))\<rparr>"
| publishing: "pub_act sq cfg sst (w_pub w) p \<Longrightarrow>
    writer_step obj sq cfg pf sst stb w (w\<lparr>w_pub := p\<rparr>)"
| elsewhere: "untouched obj sst stb (bucket_of w) (remote nd) \<Longrightarrow>
    file_at (disk nd) (p_path (ps_pub (w_pub w))) = file_at (disk (ps_node (w_pub w))) (p_path (ps_pub (w_pub w))) \<Longrightarrow>
    writer_step obj sq cfg pf sst stb w (w\<lparr>w_pub := (w_pub w)\<lparr>ps_node := nd\<rparr>\<rparr>)"

section \<open>Its parts\<close>

lemma server_of_parts [simp]:
  "conn (server_of w) = w_conn w" "store (server_of w) = bucket_of w"
  by (simp_all add: server_of_def)

lemma with_parts [simp]:
  "ps_node (with_data t n p) = ps_node p" "ps_pub (with_data t n p) = ps_pub p" "ps_pc (with_data t n p) = ps_pc p"
  "h_db (ps_handle (with_data t n p)) = Inr (file_of t)" "h_changes (ps_handle (with_data t n p)) = n"
  "remote (ps_node (with_bucket b p)) = b" "disk (ps_node (with_bucket b p)) = disk (ps_node p)"
  "ps_pub (with_bucket b p) = ps_pub p" "ps_pc (with_bucket b p) = ps_pc p" "ps_handle (with_bucket b p) = ps_handle p"
  by (simp_all add: with_data_def with_bucket_def)

definition writer_ok ::
  "('s \<Rightarrow> string \<times> string \<Rightarrow> bytes option) \<Rightarrow> 's s3Storage \<Rightarrow> 's writer \<Rightarrow> bool" where
  "writer_ok obj stb w \<longleftrightarrow> h_db (ps_handle (w_pub w)) = Inr (file_of (data_of w))
     \<and> sys_ok (data_of w) (s3_look obj stb (bucket_of w)) (w_threads w)"

text \<open>Older tables: well-formed ones from which the present ones have come.\<close>

definition older :: "tables \<Rightarrow> tables \<Rightarrow> bool" where
  "older d e \<longleftrightarrow> db_wf d \<and> history d e \<and> finished_kept d e"

lemma older_refl: "db_wf d \<Longrightarrow> older d d"
  by (simp add: older_def history_refl finished_refl)

lemma older_trans: "older d e \<Longrightarrow> older e f \<Longrightarrow> older d f"
  by (auto simp: older_def intro: history_trans finished_trans)

lemma pub_act_handle:
  assumes "pub_act sq cfg st s s'"
  shows "ps_handle s' = ps_handle s \<and> p_path (ps_pub s') = p_path (ps_pub s)"
  using assms
proof (cases rule: pub_act.cases)
  case (ticked h p nd due p' nd')
  then show ?thesis using tick_due_keeps [OF ticked(3)] by simp
next
  case (sent before p nd p' nd' x h)
  then have "p' = p\<lparr>published := before\<rparr>" using publish_send_keeps [OF sent(3)] by blast
  with sent show ?thesis by simp
qed simp_all

lemma same_blobs_ok:
  assumes "sys_ok d b ts" and "\<And>s. slug_shape s \<Longrightarrow> c (storageKeyForSlug s) = b (storageKeyForSlug s)"
  shows "sys_ok d c ts"
proof -
  have wf: "db_wf d" and ok: "\<And>t. t \<in> set ts \<Longrightarrow> thread_ok d b t" and live: "live_stored d b"
    and dist: "distinct (concat (map owned ts))" using assms(1) by (simp_all add: sys_ok_def)
  have p: "polite {} d b d c" by (rule polite_same_db [OF wf]) (simp_all add: assms(2))
  have "thread_ok d c t" if "t \<in> set ts" for t by (rule polite_thread [OF p wf ok [OF that]]) simp
  with wf dist polite_live [OF p wf live] show ?thesis by (simp add: sys_ok_def)
qed

lemma pub_act_blobs:
  assumes "s3_documented (client sst) obj" and "pub_act sq cfg sst s s'" and "slug_shape x"
  shows "s3_look obj stb (remote (ps_node s')) (storageKeyForSlug x)
    = s3_look obj stb (remote (ps_node s)) (storageKeyForSlug x)"
proof -
  have "(bucket stb, objectKey stb (storageKeyForSlug x)) \<noteq> (bucket sst, objectKey sst snapshotKey)"
    using snapshot_key_is_no_blob [OF assms(3), of stb sst] by auto
  from pub_act_others [OF assms(1,2) this] show ?thesis by (simp add: s3_look_def)
qed

lemma writer_ok_step:
  assumes "s3_documented (client sst) obj" and "s3_documented (client stb) obj"
    and "writer_step obj sq cfg (s3_platform k stb pf) sst stb w w1" and "writer_ok obj stb w"
  shows "writer_ok obj stb w1 \<and> older (data_of w) (data_of w1)"
  using assms(3)
proof (cases rule: writer_step.cases)
  case (served srv1 ts1 n)
  have ok: "sys_ok (tables_of (server_of w)) (s3_look obj stb (store (server_of w))) (w_threads w)"
    using assms(4) by (simp add: writer_ok_def)
  have "sys_ok (tables_of srv1) (s3_look obj stb (store srv1)) ts1"
    by (rule served_store.sys_ok_step [OF s3_served [OF assms(2)] ok served(2)])
  moreover have "older (data_of w) (tables_of srv1)"
    using served_store.history_step [OF s3_served [OF assms(2)] ok served(2)] sys_finished [OF ok served(2)] ok
    by (simp add: older_def sys_ok_def)
  ultimately show ?thesis using served(1) by (simp add: writer_ok_def)
next
  case (publishing p)
  have "sys_ok (data_of w) (s3_look obj stb (remote (ps_node p))) (w_threads w)"
    by (rule same_blobs_ok [of _ "s3_look obj stb (bucket_of w)"])
      (use assms(4) pub_act_blobs [OF assms(1) publishing(2)] in \<open>simp_all add: writer_ok_def\<close>)
  then show ?thesis
    using publishing assms(4) pub_act_handle [OF publishing(2)]
    by (simp add: writer_ok_def older_refl sys_ok_def)
next
  case (elsewhere nd)
  have "sys_ok (data_of w) (s3_look obj stb (remote nd)) (w_threads w)"
    by (rule same_blobs_ok [of _ "s3_look obj stb (bucket_of w)"])
      (use assms(4) elsewhere(2) in \<open>simp_all add: writer_ok_def untouched_def\<close>)
  then show ?thesis using elsewhere assms(4) by (simp add: writer_ok_def older_refl sys_ok_def)
qed

text \<open>The whole projects to its publisher: what is proved of \<open>pub_step\<close> holds for it.\<close>

lemma served_snapshot:
  assumes "s3_documented (client stb) obj" and "sys_ok (tables_of srv) b ts"
    and "sys_step scfg (s3_platform k stb pf) (srv, ts) (srv1, ts1)"
  shows "s3_look obj sst (store srv1) snapshotKey = s3_look obj sst (store srv) snapshotKey"
  using snapshot_kept.sys_frame [OF assms(2,3), of obj sst] assms(1) by (simp add: s3_look_def)

lemma writer_projects:
  assumes "s3_documented (client stb) obj"
    and "writer_step obj sq cfg (s3_platform k stb pf) sst stb w w1" and "writer_ok obj stb w"
  shows "pub_step obj sq cfg sst (w_pub w) (w_pub w1)"
  using assms(2)
proof (cases rule: writer_step.cases)
  case (served srv1 ts1 n)
  obtain nd h p pc where w: "w_pub w = \<lparr>ps_node = nd, ps_handle = h, ps_pub = p, ps_pc = pc\<rparr>"
    by (cases "w_pub w")
  have hdb: "h_db h = Inr (file_of (data_of w))"
    and ok: "sys_ok (tables_of (server_of w)) (s3_look obj stb (store (server_of w))) (w_threads w)"
    using assms(3) w by (simp_all add: writer_ok_def)
  have out: "outside obj sst (p_path p) nd (nd\<lparr>remote := store srv1\<rparr>)"
    using served_snapshot [OF assms(1) ok served(2), of sst] w by (simp add: outside_def)
  let ?h = "h\<lparr>h_db := Inr (file_of (tables_of srv1)), h_changes := n\<rparr>"
  have w1: "w_pub w1 = \<lparr>ps_node = nd\<lparr>remote := store srv1\<rparr>, ps_handle = ?h, ps_pub = p, ps_pc = pc\<rparr>"
    using served(1) w by (simp add: with_data_def with_bucket_def)
  show ?thesis
  proof (cases "h_changes h < n")
    case True
    then show ?thesis unfolding w w1 by (intro pub_step.changed out) simp_all
  next
    case False
    then have "n = h_changes h" "tables_of srv1 = data_of w"
      using served(3) w by (auto simp: counted_def)
    then have "?h = h" using hdb by (cases h) simp
    then show ?thesis unfolding w w1 by (simp add: pub_step.elsewhere [OF out])
  qed
next
  case (publishing p)
  then show ?thesis by (simp add: pub_step.act)
next
  case (elsewhere nd)
  obtain nd0 h p pc where w: "w_pub w = \<lparr>ps_node = nd0, ps_handle = h, ps_pub = p, ps_pc = pc\<rparr>"
    by (cases "w_pub w")
  have "outside obj sst (p_path p) nd0 nd"
    using elsewhere(2,3) w by (simp add: outside_def untouched_def)
  from pub_step.elsewhere [OF this] show ?thesis using elsewhere(1) w by simp
qed

end
