(* ===== verification/Deployment.thy ===== *)
theory Deployment
  imports Writer Startup
begin

text \<open>
  The whole deployment: one writer and any number of replicas over one bucket. The replicas know the
  writer only through the snapshot object, so what they serve is an earlier state of the writer.
\<close>

section \<open>What can have been published\<close>

text \<open>
  The tables the writer had at some point on the way from \<open>w0\<close> to \<open>w\<close>, and those in \<open>older0\<close>, which
  an earlier life of the writer may have left in the bucket.
\<close>

definition was :: "('s writer \<Rightarrow> 's writer \<Rightarrow> bool) \<Rightarrow> tables set \<Rightarrow> 's writer \<Rightarrow> 's writer \<Rightarrow> tables \<Rightarrow> bool" where
  "was step older0 w0 w t \<longleftrightarrow> t \<in> older0 \<or> (\<exists>w'. step\<^sup>*\<^sup>* w0 w' \<and> step\<^sup>*\<^sup>* w' w \<and> t = data_of w')"

lemma was_steps:
  assumes "was step older0 w0 w t" and "step\<^sup>*\<^sup>* w w1"
  shows "was step older0 w0 w1 t"
proof -
  have "step\<^sup>*\<^sup>* w' w1" if "step\<^sup>*\<^sup>* w' w" for w' using that assms(2) by (rule rtranclp_trans)
  with assms(1) show ?thesis unfolding was_def by blast
qed

lemma was_now: "step\<^sup>*\<^sup>* w0 w \<Longrightarrow> was step older0 w0 w (data_of w)"
  unfolding was_def by blast

definition image_of :: "sqlite \<Rightarrow> (tables \<Rightarrow> bool) \<Rightarrow> bytes \<Rightarrow> bool" where
  "image_of sq W x \<longleftrightarrow> (\<exists>t. W t \<and> x = vacuum_image sq (file_of t))"

text \<open>The object in the bucket, and a staging file about to be uploaded, are images of such tables.\<close>

definition published_ok ::
  "('s \<Rightarrow> string \<times> string \<Rightarrow> bytes option) \<Rightarrow> sqlite \<Rightarrow> 's s3Storage \<Rightarrow> (tables \<Rightarrow> bool) \<Rightarrow> 's pub_sys \<Rightarrow> bool" where
  "published_ok obj sq sst W p \<longleftrightarrow>
     (\<forall>x. s3_look obj sst (remote (ps_node p)) snapshotKey = Some x \<longrightarrow> image_of sq W x)
   \<and> (\<forall>b x. ps_pc p = Built b \<longrightarrow> file_at (disk (ps_node p)) (p_path (ps_pub p)) = Some x \<longrightarrow> image_of sq W x)"

lemma published_mono:
  "published_ok obj sq sst W p \<Longrightarrow> (\<And>t. W t \<Longrightarrow> V t) \<Longrightarrow> published_ok obj sq sst V p"
  unfolding published_ok_def image_of_def by blast

lemma published_ok_act:
  assumes "s3_documented (client sst) obj" and "s3_atomic (client sst) obj"
    and "pub_act sq cfg sst p p1" and "published_ok obj sq sst W p"
    and "h_db (ps_handle p) = Inr (file_of t)" and "W t"
  shows "published_ok obj sq sst W p1"
  using assms(3)
proof (cases rule: pub_act.cases)
  case (ticked h q nd due q' nd')
  then show ?thesis using tick_due_keeps [OF ticked(3)] assms(4) by (simp add: published_ok_def)
next
  case (flushed h nd changes nd' q)
  then show ?thesis using total_changes [OF flushed(3)] assms(4) by (simp add: published_ok_def)
next
  case (counted h nd before nd' q)
  then show ?thesis using total_changes [OF counted(3)] assms(4) by (simp add: published_ok_def)
next
  case (count_failed h nd e nd' x q now)
  then show ?thesis
    using h_query_keeps [OF count_failed(3) [unfolded dbTotalChanges_def]] assms(4) by (simp add: published_ok_def)
next
  case (checked h nd nd' q before)
  then show ?thesis
    using publish_check_keeps [OF checked(3), of obj] assms(1,4) by (simp add: published_ok_def s3_look_def)
next
  case (check_failed h nd e nd' x q before now)
  then show ?thesis
    using publish_check_keeps [OF check_failed(3), of obj] assms(1,4) by (simp add: published_ok_def s3_look_def)
next
  case (built h q nd nd' before)
  then have "file_at (disk nd') (p_path q) = Some (vacuum_image sq (file_of t))"
    using writeSnapshotTo_keeps [OF built(3)] assms(5) by auto
  then show ?thesis
    using built writeSnapshotTo_keeps [OF built(3)] assms(4,6) by (auto simp: published_ok_def image_of_def)
next
  case (build_failed h q nd e nd' x before now)
  then show ?thesis
    using writeSnapshotTo_keeps [OF build_failed(3)] assms(4) by (simp add: published_ok_def)
next
  case (sent before q nd q' nd' x h)
  then show ?thesis
    using publish_send_atomic [OF assms(2) sent(3)] assms(4) by (auto simp: published_ok_def)
next
  case (send_failed before q nd e nd' x h now)
  then show ?thesis
    using publish_send_atomic [OF assms(2) send_failed(3)] assms(4) by (auto simp: published_ok_def)
qed

lemma published_ok_step:
  assumes "s3_documented (client sst) obj" and "s3_atomic (client sst) obj" and "s3_documented (client stb) obj"
    and "writer_step obj sq cfg (s3_platform k stb pf) sst stb w w1" and "writer_ok obj stb w"
    and "published_ok obj sq sst W (w_pub w)" and "W (data_of w)"
  shows "published_ok obj sq sst W (w_pub w1)"
  using assms(4)
proof (cases rule: writer_step.cases)
  case (served srv1 ts1 n)
  have ok: "sys_ok (tables_of (server_of w)) (s3_look obj stb (store (server_of w))) (w_threads w)"
    using assms(5) by (simp add: writer_ok_def)
  from served_snapshot [OF assms(3) ok served(2), of sst] served(1) assms(6) show ?thesis
    by (simp add: published_ok_def)
next
  case (publishing p)
  have "h_db (ps_handle (w_pub w)) = Inr (file_of (data_of w))" using assms(5) by (simp add: writer_ok_def)
  from published_ok_act [OF assms(1,2) publishing(2) assms(6) this assms(7)] publishing(1) show ?thesis by simp
next
  case (elsewhere nd)
  with assms(6) show ?thesis by (simp add: published_ok_def untouched_def)
qed

section \<open>Crashes\<close>

text \<open>
  The writer may be stopped between any two of its steps and started again on the same volume. The
  requests in flight are gone, with whatever they had reserved or stored; the transactions of SQLite
  are atomic and durable, so the file, read with its log, holds the tables as the last one left them.
\<close>

inductive writer_life ::
  "('s \<Rightarrow> string \<times> string \<Rightarrow> bytes option) \<Rightarrow> sqlite \<Rightarrow> nat \<Rightarrow> config \<Rightarrow> 's platform \<Rightarrow> 's s3Storage \<Rightarrow>
     's s3Storage \<Rightarrow> 's writer \<Rightarrow> 's writer \<Rightarrow> bool"
  for obj sq k cfg pf sst stb where
  ran: "writer_step obj sq cfg pf sst stb w w1 \<Longrightarrow> writer_life obj sq k cfg pf sst stb w w1"
| restarted: "remote nd = bucket_of w \<Longrightarrow> on_disk (os_Stat (databasePath cfg)) nd = (None, nd0) \<Longrightarrow>
    file_at (disk nd) (databasePath cfg) = Some x \<Longrightarrow> parse_db sq x = Inr (file_of (data_of w)) \<Longrightarrow>
    bootDatabase sq k cfg (Some sst) nd = (Inr (h, r), nd1) \<Longrightarrow>
    runSnapshotPublisher cfg (Some sst) h nd1 = (Some p, nd2) \<Longrightarrow> db c = data_of w \<Longrightarrow>
    writer_life obj sq k cfg pf sst stb w
      \<lparr>w_conn = c, w_threads = [], w_pub = at_pc nd2 h p Idle\<rparr>"

lemma newSnapshotPublisher_remote:
  "newSnapshotPublisher cfg h nd = (Inr p, nd1) \<Longrightarrow> remote nd1 = remote nd"
  by (auto dest!: total_changes simp: newSnapshotPublisher_def on_disk_def Let_def
      split: prod.splits option.splits sum.splits remove_error.splits)

lemma restart_keeps:
  assumes "on_disk (os_Stat (databasePath cfg)) nd = (None, nd0)"
    and "file_at (disk nd) (databasePath cfg) = Some x" and "parse_db sq x = Inr (file_of t)"
    and "bootDatabase sq k cfg (Some sst) nd = (Inr (h, r), nd1)"
    and "runSnapshotPublisher cfg (Some sst) h nd1 = (Some p, nd2)"
  shows "h_db h = Inr (file_of t) \<and> remote nd2 = remote nd"
proof -
  have "h_db h = Inr (adopted (file_of t))" "remote nd1 = remote nd"
    using boot_keeps_local(1,4) [OF assms(1,2,4)] assms(3) by (auto simp: only_at_def)
  moreover have "newSnapshotPublisher cfg h nd1 = (Inr p, nd2)"
    using assms(5) by (auto simp: runSnapshotPublisher_def split: if_splits prod.splits sum.splits)
  ultimately show ?thesis
    using newSnapshotPublisher_remote [of cfg h nd1 p nd2] by (simp add: adopted_id [of _ t] file_of_def)
qed

lemma writer_life_ok:
  assumes "s3_documented (client sst) obj" and "s3_documented (client stb) obj"
    and "writer_life obj sq kd cfg (s3_platform k stb pf) sst stb w w1" and "writer_ok obj stb w"
  shows "writer_ok obj stb w1 \<and> older (data_of w) (data_of w1)"
  using assms(3)
proof (cases rule: writer_life.cases)
  case ran
  from writer_ok_step [OF assms(1,2) this assms(4)] show ?thesis .
next
  case (restarted nd nd0 x h r nd1 p nd2 c)
  have "db_wf (data_of w)" "live_stored (data_of w) (s3_look obj stb (bucket_of w))"
    using assms(4) by (simp_all add: writer_ok_def sys_ok_def)
  then show ?thesis
    using restarted restart_keeps [OF restarted(3,4,5,6,7)] by (simp add: writer_ok_def sys_ok_def older_refl)
qed

lemma published_ok_life:
  assumes "s3_documented (client sst) obj" and "s3_atomic (client sst) obj" and "s3_documented (client stb) obj"
    and "writer_life obj sq kd cfg (s3_platform k stb pf) sst stb w w1" and "writer_ok obj stb w"
    and "published_ok obj sq sst W (w_pub w)" and "W (data_of w)"
  shows "published_ok obj sq sst W (w_pub w1)"
  using assms(4)
proof (cases rule: writer_life.cases)
  case ran
  from published_ok_step [OF assms(1-3) this assms(5-7)] show ?thesis .
next
  case (restarted nd nd0 x h r nd1 p nd2 c)
  then show ?thesis
    using restart_keeps [OF restarted(3,4,5,6,7)] assms(6) by (simp add: published_ok_def)
qed

section \<open>Replicas and the bucket\<close>

lemma replica_act_bucket:
  assumes "s3_documented (client st) obj" and "replica_act sq k (Some st) s s'"
  shows "obj (remote (rs_node s')) = obj (remote (rs_node s))
    \<and> (rs_handle s' = rs_handle s
       \<or> s3_look obj st (remote (rs_node s)) snapshotKey = Some (h_bytes (rs_handle s'))
         \<and> h_db (rs_handle s') = parse_db sq (h_bytes (rs_handle s')))"
  using assms(2)
proof (cases rule: replica_act.cases)
  case (asked r nd f nd' h)
  obtain i nd5 where hd: "headSnapshot (Some st) nd = (i, nd5)" by (metis prod.collapse)
  then have "nd' = nd5" using asked(3) by (auto simp: replica_check_def split: sum.splits)
  with asked headSnapshot_look [OF assms(1) hd] show ?thesis by simp
next
  case (loaded info r h nd r' h' nd')
  obtain g nd3 where g: "downloadSnapshot sq k (Some st) (r_path r) nd = (g, nd3)" by (metis prod.collapse)
  obtain ho nd4 where o1: "openSQLite sq (r_path r) True nd3 = (ho, nd4)" by (metis prod.collapse)
  note facts = open_readonly [OF o1] download_remote [OF assms(1) g]
  from loaded(3) [unfolded replica_load_def g prod.case] facts loaded(1,2) o1 show ?thesis
    by (cases g; cases ho) (auto simp: clock_now_def)
qed

text \<open>The file a restart would find is the old one or the published object.\<close>

lemma replica_act_file:
  assumes "s3_documented (client st) obj" and "replica_act sq k (Some st) s s'"
  shows "r_path (rs_replica s') = r_path (rs_replica s)
    \<and> (file_at (disk (rs_node s')) (r_path (rs_replica s)) = file_at (disk (rs_node s)) (r_path (rs_replica s))
       \<or> (\<exists>b. file_at (disk (rs_node s')) (r_path (rs_replica s)) = Some b
            \<and> s3_look obj st (remote (rs_node s)) snapshotKey = Some b))"
  using assms(2)
proof (cases rule: replica_act.cases)
  case (asked r nd f nd' h)
  obtain i nd5 where hd: "headSnapshot (Some st) nd = (i, nd5)" by (metis prod.collapse)
  then have "nd' = nd5" using asked(3) by (auto simp: replica_check_def split: sum.splits)
  with asked headSnapshot_keeps [OF hd] show ?thesis by simp
next
  case (loaded info r h nd r' h' nd')
  obtain g nd3 where g: "downloadSnapshot sq k (Some st) (r_path r) nd = (g, nd3)" by (metis prod.collapse)
  obtain ho nd4 where o1: "openSQLite sq (r_path r) True nd3 = (ho, nd4)" by (metis prod.collapse)
  have after: "r_path r' = r_path r" "disk nd' = disk nd3"
    using loaded(3) open_readonly [OF o1] o1
    by (auto simp: replica_load_def g clock_now_def split: sum.splits)
  show ?thesis
  proof (cases g)
    case (Inl e)
    with download_keeps [OF g] after loaded(1,2) show ?thesis by simp
  next
    case (Inr i)
    with download_remote [OF assms(1) g] after loaded(1,2) show ?thesis by auto
  qed
qed

lemma boot_replica_bucket:
  assumes "s3_documented (client st) obj" and "bootDatabase sq k cfg (Some st) nd = (Inr (h, Some r), nd1)"
  shows "obj (remote nd1) = obj (remote nd) \<and> s3_look obj st (remote nd) snapshotKey = Some (h_bytes h)
    \<and> h_db h = parse_db sq (h_bytes h)"
proof -
  obtain p nd2 where p: "prepareDatabase sq k cfg (Some st) nd = (p, nd2)" by (metis prod.collapse)
  obtain a nd3 where a: "adoptDatabase sq cfg nd2 = (a, nd3)" by (metis prod.collapse)
  have pa: "p = Inr (Some r)" "a = Inr h" "nd1 = nd3"
    using assms(2) p a by (auto simp: bootDatabase_def split: sum.splits)
  obtain e nd4 where e: "on_disk (os_Stat (databasePath cfg)) nd = (e, nd4)" by (metis prod.collapse)
  obtain g nd5 where g: "downloadSnapshot sq k (Some st) (databasePath cfg) nd4 = (g, nd5)" by (metis prod.collapse)
  have ro: "readOnly (serving cfg)" and r: "\<exists>i. g = Inr i" "disk nd2 = disk nd5" "remote nd2 = remote nd5"
    using p pa e g
    by (auto simp: prepareDatabase_def clock_now_def Let_def split: if_splits sum.splits prod.splits option.splits)
  show ?thesis
    using stat_keeps [OF e] download_remote [OF assms(1) g] adopt_reader [OF a ro] pa r by (auto simp: s3_look_def)
qed

section \<open>The deployment\<close>

record 's deployment =
  d_writer :: "'s writer"
  d_replicas :: "'s replica_sys list"
  d_readers :: "handle list"

definition set_bucket :: "'s \<Rightarrow> 's writer \<Rightarrow> 's writer" where
  "set_bucket b w = w\<lparr>w_pub := with_bucket b (w_pub w)\<rparr>"

definition at_bucket :: "'s \<Rightarrow> 's replica_sys \<Rightarrow> 's replica_sys" where
  "at_bucket b \<rho> = \<rho>\<lparr>rs_node := (rs_node \<rho>)\<lparr>remote := b\<rparr>\<rparr>"

text \<open>
  A step of the writer's life or of a replica, which finds the bucket as the last step has left it; a
  new replica, which boots into following; a change of a replica's surroundings; or a replica that is
  started again on its own volume. Then \<open>bootDatabase\<close> takes the file it finds and sets up nothing to
  follow, so it becomes one of the \<open>d_readers\<close>, whose handle stays as it is.
\<close>

inductive deploy_step ::
  "('s \<Rightarrow> string \<times> string \<Rightarrow> bytes option) \<Rightarrow> sqlite \<Rightarrow> nat \<Rightarrow> config \<Rightarrow> 's platform \<Rightarrow> 's s3Storage \<Rightarrow>
     's s3Storage \<Rightarrow> 's deployment \<Rightarrow> 's deployment \<Rightarrow> bool"
  for obj sq k cfg pf sst stb where
  wrote: "writer_life obj sq k cfg pf sst stb (d_writer d) w \<Longrightarrow>
    deploy_step obj sq k cfg pf sst stb d (d\<lparr>d_writer := w\<rparr>)"
| booted: "bootDatabase sq k rcfg (Some sst) nd = (Inr (h, Some r), nd1) \<Longrightarrow> remote nd = bucket_of (d_writer d) \<Longrightarrow>
    deploy_step obj sq k cfg pf sst stb d
      (d\<lparr>d_writer := set_bucket (remote nd1) (d_writer d),
         d_replicas := d_replicas d @ [\<lparr>rs_node = nd1, rs_replica = r, rs_handle = h, rs_found = None\<rparr>]\<rparr>)"
| followed: "i < length (d_replicas d) \<Longrightarrow>
    replica_act sq k (Some sst) (at_bucket (bucket_of (d_writer d)) (d_replicas d ! i)) \<rho> \<Longrightarrow>
    deploy_step obj sq k cfg pf sst stb d
      (d\<lparr>d_writer := set_bucket (remote (rs_node \<rho>)) (d_writer d), d_replicas := (d_replicas d)[i := \<rho>]\<rparr>)"
| idled: "i < length (d_replicas d) \<Longrightarrow> \<rho> = d_replicas d ! i \<Longrightarrow>
    file_at (disk nd) (r_path (rs_replica \<rho>)) = file_at (disk (rs_node \<rho>)) (r_path (rs_replica \<rho>)) \<Longrightarrow>
    deploy_step obj sq k cfg pf sst stb d (d\<lparr>d_replicas := (d_replicas d)[i := \<rho>\<lparr>rs_node := nd\<rparr>]\<rparr>)"
| reopened: "i < length (d_replicas d) \<Longrightarrow> \<rho> = at_bucket (bucket_of (d_writer d)) (d_replicas d ! i) \<Longrightarrow>
    databasePath rcfg = r_path (rs_replica \<rho>) \<Longrightarrow> readOnly (serving rcfg) \<Longrightarrow>
    on_disk (os_Stat (databasePath rcfg)) (rs_node \<rho>) = (None, nd0) \<Longrightarrow>
    bootDatabase sq k rcfg (Some sst) (rs_node \<rho>) = (Inr (h, None), nd1) \<Longrightarrow>
    deploy_step obj sq k cfg pf sst stb d
      (d\<lparr>d_replicas := take i (d_replicas d) @ drop (Suc i) (d_replicas d), d_readers := d_readers d @ [h]\<rparr>)"

text \<open>The databases that are served besides the writer's.\<close>

definition served_by :: "'s deployment \<Rightarrow> handle list" where
  "served_by d = map rs_handle (d_replicas d) @ d_readers d"

text \<open>To the writer a step of another part is a step of its surroundings.\<close>

lemma set_bucket_step:
  assumes "obj b = obj (bucket_of w)"
  shows "writer_life obj sq k cfg pf sst stb w (set_bucket b w)"
proof -
  let ?nd = "(ps_node (w_pub w))\<lparr>remote := b\<rparr>"
  have "untouched obj sst stb (bucket_of w) (remote ?nd)"
    using assms by (simp add: untouched_def s3_look_def)
  from writer_life.ran [OF writer_step.elsewhere [OF this]] show ?thesis
    by (simp add: set_bucket_def with_bucket_def)
qed

lemma deploy_writer:
  assumes "s3_documented (client sst) obj" and "deploy_step obj sq k cfg pf sst stb d d1"
  shows "(writer_life obj sq k cfg pf sst stb)\<^sup>*\<^sup>* (d_writer d) (d_writer d1)"
  using assms(2)
proof (cases rule: deploy_step.cases)
  case (wrote w)
  then show ?thesis by auto
next
  case (booted rcfg nd h r nd1)
  have "obj (remote nd1) = obj (bucket_of (d_writer d))"
    using boot_replica_bucket [OF assms(1) booted(2)] booted(3) by simp
  from set_bucket_step [OF this] booted(1) show ?thesis by auto
next
  case (followed i \<rho>)
  have "obj (remote (rs_node \<rho>)) = obj (bucket_of (d_writer d))"
    using replica_act_bucket [OF assms(1) followed(3)] by (simp add: at_bucket_def)
  from set_bucket_step [OF this] followed(1) show ?thesis by auto
qed simp_all

section \<open>The writer's past\<close>

text \<open>What is assumed of the client and the engine, in one place.\<close>

definition services_documented ::
  "('s \<Rightarrow> string \<times> string \<Rightarrow> bytes option) \<Rightarrow> sqlite \<Rightarrow> 's s3Storage \<Rightarrow> 's s3Storage \<Rightarrow> bool" where
  "services_documented obj sq sst stb \<longleftrightarrow> s3_documented (client sst) obj \<and> s3_documented (client stb) obj
     \<and> s3_atomic (client sst) obj \<and> sqlite_documented sq"

lemma life_steps_ok:
  assumes "services_documented obj sq sst stb"
    and "(writer_life obj sq kd cfg (s3_platform k stb pf) sst stb)\<^sup>*\<^sup>* w w1" and "writer_ok obj stb w"
  shows "writer_ok obj stb w1 \<and> older (data_of w) (data_of w1)"
  using assms(2)
proof (induction rule: rtranclp_induct)
  case base
  with assms(3) show ?case by (simp add: older_refl writer_ok_def sys_ok_def)
next
  case (step y z)
  with writer_life_ok [OF _ _ step(2)] assms(1) show ?case
    by (auto simp: services_documented_def intro: older_trans)
qed

lemma steps_live:
  "(writer_step obj sq cfg pf sst stb)\<^sup>*\<^sup>* w w1 \<Longrightarrow> (writer_life obj sq k cfg pf sst stb)\<^sup>*\<^sup>* w w1"
  by (erule mono_rtranclp [rule_format, rotated]) (rule writer_life.ran)

lemmas writer_steps_ok = life_steps_ok [OF _ steps_live]

lemma writer_projects_steps:
  assumes "services_documented obj sq sst stb"
    and "(writer_step obj sq cfg (s3_platform k stb pf) sst stb)\<^sup>*\<^sup>* w w1" and "writer_ok obj stb w"
  shows "pub_steps obj sq cfg sst (w_pub w) (w_pub w1)"
  using assms(2)
proof (induction rule: rtranclp_induct)
  case (step y z)
  have "writer_ok obj stb y" using writer_steps_ok [OF assms(1) step(1) assms(3)] by simp
  from writer_projects [OF _ step(2) this] step(3) assms(1) show ?case
    by (auto simp: services_documented_def)
qed simp

lemma was_older:
  assumes "services_documented obj sq sst stb"
    and "was (writer_life obj sq kd cfg (s3_platform k stb pf) sst stb) older0 w0 w t"
    and "(writer_life obj sq kd cfg (s3_platform k stb pf) sst stb)\<^sup>*\<^sup>* w0 w" and "writer_ok obj stb w0"
    and "\<And>t. t \<in> older0 \<Longrightarrow> older t (data_of w0)"
  shows "older t (data_of w)"
proof (cases "t \<in> older0")
  case True
  with life_steps_ok [OF assms(1,3,4)] assms(5) show ?thesis by (blast intro: older_trans)
next
  case False
  with assms(2) obtain w' where w': "(writer_life obj sq kd cfg (s3_platform k stb pf) sst stb)\<^sup>*\<^sup>* w0 w'"
    "(writer_life obj sq kd cfg (s3_platform k stb pf) sst stb)\<^sup>*\<^sup>* w' w" "t = data_of w'" unfolding was_def by blast
  have "writer_ok obj stb w'" using life_steps_ok [OF assms(1) w'(1) assms(4)] by simp
  with life_steps_ok [OF assms(1) w'(2)] w'(3) show ?thesis by simp
qed

lemma writer_published:
  assumes "services_documented obj sq sst stb"
    and S: "S = writer_life obj sq kd cfg (s3_platform k stb pf) sst stb" and "S\<^sup>*\<^sup>* w0 w"
    and "writer_ok obj stb w0" and "published_ok obj sq sst (was S older0 w0 w0) (w_pub w0)"
  shows "published_ok obj sq sst (was S older0 w0 w) (w_pub w)"
  using assms(3)
proof (induction rule: rtranclp_induct)
  case base
  show ?case by (rule assms(5))
next
  case (step y z)
  have "writer_ok obj stb y" using life_steps_ok [OF assms(1) step(1) [unfolded S] assms(4)] by simp
  then have "published_ok obj sq sst (was S older0 w0 y) (w_pub z)"
    using published_ok_life [OF _ _ _ step(2) [unfolded S] _ step(3) was_now [OF step(1)]] assms(1)
    by (simp add: services_documented_def)
  moreover have "S\<^sup>*\<^sup>* y z" using step(2) by (rule r_into_rtranclp)
  ultimately show ?case by (blast intro: published_mono was_steps)
qed

section \<open>What the replicas serve\<close>

text \<open>What a replica serves, and what it would find on its disk, is of the writer's past.\<close>

definition serves_one :: "(tables \<Rightarrow> bool) \<Rightarrow> handle \<Rightarrow> bool" where
  "serves_one W h \<longleftrightarrow> (\<exists>t. W t \<and> h_db h = Inr (file_of t))"

definition replica_past :: "sqlite \<Rightarrow> (tables \<Rightarrow> bool) \<Rightarrow> 's replica_sys \<Rightarrow> bool" where
  "replica_past sq W \<rho> \<longleftrightarrow> serves_one W (rs_handle \<rho>)
     \<and> (\<exists>b. file_at (disk (rs_node \<rho>)) (r_path (rs_replica \<rho>)) = Some b \<and> image_of sq W b)"

definition serves_past :: "sqlite \<Rightarrow> (tables \<Rightarrow> bool) \<Rightarrow> 's deployment \<Rightarrow> bool" where
  "serves_past sq W d \<longleftrightarrow> (\<forall>\<rho> \<in> set (d_replicas d). replica_past sq W \<rho>) \<and> (\<forall>h \<in> set (d_readers d). serves_one W h)"

lemma serves_past_served: "serves_past sq W d \<Longrightarrow> h \<in> set (served_by d) \<Longrightarrow> serves_one W h"
  by (auto simp: serves_past_def replica_past_def served_by_def)

lemma serves_past_mono:
  assumes "serves_past sq W d" and "\<And>t. W t \<Longrightarrow> V t"
  shows "serves_past sq V d"
proof -
  have "serves_one W h \<Longrightarrow> serves_one V h" "image_of sq W b \<Longrightarrow> image_of sq V b" for h b
    using assms(2) unfolding serves_one_def image_of_def by blast+
  with assms(1) show ?thesis unfolding serves_past_def replica_past_def by blast
qed

lemma image_parses:
  "sqlite_documented sq \<Longrightarrow> image_of sq W b \<Longrightarrow> \<exists>t. W t \<and> parse_db sq b = Inr (file_of t)"
  by (auto simp: image_of_def sqlite_documented_def)

lemma image_served:
  "sqlite_documented sq \<Longrightarrow> image_of sq W b \<Longrightarrow> h_db h = parse_db sq b \<Longrightarrow> serves_one W h"
  using image_parses by (auto simp: serves_one_def)

lemma serves_past_step:
  assumes "services_documented obj sq sst stb" and "deploy_step obj sq k cfg pf sst stb d d1"
    and "serves_past sq W d" and "published_ok obj sq sst W (w_pub (d_writer d))"
  shows "serves_past sq W d1"
  using assms(2)
proof (cases rule: deploy_step.cases)
  case (wrote w)
  with assms(3) show ?thesis by (simp add: serves_past_def)
next
  case (booted rcfg nd h r nd1)
  have doc: "s3_documented (client sst) obj" "sqlite_documented sq" using assms(1) by (simp_all add: services_documented_def)
  have "s3_look obj sst (bucket_of (d_writer d)) snapshotKey = Some (h_bytes h)" "h_db h = parse_db sq (h_bytes h)"
    using boot_replica_bucket [OF doc(1) booted(2)] booted(3) by simp_all
  moreover from this have "image_of sq W (h_bytes h)" using assms(4) by (simp add: published_ok_def)
  moreover have "file_at (disk nd1) (r_path r) = Some (h_bytes h)" using boot_replica [OF booted(2)] by blast
  ultimately have "replica_past sq W \<lparr>rs_node = nd1, rs_replica = r, rs_handle = h, rs_found = None\<rparr>"
    using image_served [OF doc(2)] by (simp add: replica_past_def)
  with assms(3) booted(1) show ?thesis by (simp add: serves_past_def)
next
  case (followed i \<rho>)
  have doc: "s3_documented (client sst) obj" "sqlite_documented sq" using assms(1) by (simp_all add: services_documented_def)
  have old: "replica_past sq W (d_replicas d ! i)" using assms(3) followed(2) by (simp add: serves_past_def)
  have img: "image_of sq W b" if "s3_look obj sst (bucket_of (d_writer d)) snapshotKey = Some b" for b
    using that assms(4) by (simp add: published_ok_def)
  have "serves_one W (rs_handle \<rho>)"
    using replica_act_bucket [OF doc(1) followed(3)] old img image_served [OF doc(2)]
    by (auto simp: at_bucket_def replica_past_def)
  moreover have "\<exists>b. file_at (disk (rs_node \<rho>)) (r_path (rs_replica \<rho>)) = Some b \<and> image_of sq W b"
    using replica_act_file [OF doc(1) followed(3)] old img by (auto simp: at_bucket_def replica_past_def)
  ultimately have "replica_past sq W \<rho>" by (simp add: replica_past_def)
  with assms(3) followed(1) show ?thesis
    by (auto simp: serves_past_def dest!: set_update_subset_insert [THEN subsetD])
next
  case (idled i \<rho> nd)
  have "replica_past sq W \<rho>" using assms(3) idled(2,3) by (simp add: serves_past_def)
  then have "replica_past sq W (\<rho>\<lparr>rs_node := nd\<rparr>)" using idled(4) by (simp add: replica_past_def)
  with assms(3) idled(1) show ?thesis
    by (auto simp: serves_past_def dest!: set_update_subset_insert [THEN subsetD])
next
  case (reopened i \<rho> rcfg nd0 h nd1)
  have doc: "sqlite_documented sq" using assms(1) by (simp add: services_documented_def)
  have "replica_past sq W (d_replicas d ! i)" using assms(3) reopened(2) by (simp add: serves_past_def)
  then have "replica_past sq W \<rho>" using reopened(3) by (simp add: replica_past_def at_bucket_def)
  then obtain b t where b: "file_at (disk (rs_node \<rho>)) (databasePath rcfg) = Some b" "W t"
    "parse_db sq b = Inr (file_of t)"
    using image_parses [OF doc] reopened(4) unfolding replica_past_def by metis
  have "h_db h = Inr (adopted (file_of t))" using boot_keeps_local(4) [OF reopened(6) b(1) reopened(7)] b(3) by auto
  then have "serves_one W h" using b(2) by (auto simp: serves_one_def file_of_def adopted_id [of _ t])
  with assms(3) reopened(1) show ?thesis
    by (auto simp: serves_past_def dest: in_set_takeD in_set_dropD)
qed

lemma deploy_steps_serve:
  assumes "services_documented obj sq sst stb"
    and "(deploy_step obj sq kd cfg (s3_platform kb stb pf) sst stb)\<^sup>*\<^sup>* d0 d"
    and "writer_ok obj stb (d_writer d0)" and "d_replicas d0 = [] \<and> d_readers d0 = []"
    and "published_ok obj sq sst (was S older0 (d_writer d0) (d_writer d0)) (w_pub (d_writer d0))"
    and S: "S = writer_life obj sq kd cfg (s3_platform kb stb pf) sst stb"
  shows "S\<^sup>*\<^sup>* (d_writer d0) (d_writer d) \<and> serves_past sq (was S older0 (d_writer d0) (d_writer d)) d"
  using assms(2)
proof (induction rule: rtranclp_induct)
  case base
  show ?case by (simp add: assms(4) serves_past_def)
next
  case (step y z)
  let ?W = "was S older0 (d_writer d0)"
  have yz: "S\<^sup>*\<^sup>* (d_writer y) (d_writer z)"
    using deploy_writer [OF _ step(2)] assms(1) S by (simp add: services_documented_def)
  have reach: "S\<^sup>*\<^sup>* (d_writer d0) (d_writer y)" using step(3) by blast
  have "published_ok obj sq sst (?W (d_writer y)) (w_pub (d_writer y))"
    by (rule writer_published [OF assms(1) S reach assms(3,5)])
  with serves_past_step [OF assms(1) step(2)] step(3) have "serves_past sq (?W (d_writer y)) z" by blast
  then have "serves_past sq (?W (d_writer z)) z"
    using was_steps [OF _ yz] by (rule serves_past_mono)
  moreover have "S\<^sup>*\<^sup>* (d_writer d0) (d_writer z)" using reach yz by (rule rtranclp_trans)
  ultimately show ?case by blast
qed

section \<open>What becomes of a published file\<close>

text \<open>A file that was live in an earlier state is stored with the size stated there, unless it has been deleted since.\<close>

lemma past_file:
  assumes "writer_ok obj stb w" and "older t (data_of w)" and "r \<in> set (files t)" and "live r"
  shows "r\<lparr>Deleted := True\<rparr> \<in> set (files (data_of w))
    \<or> r \<in> set (files (data_of w)) \<and> has_blob (s3_look obj stb (bucket_of w)) (StorageKey r) (Size r)"
proof -
  have r: "\<not> Pending r" "\<not> Deleted r" using assms(4) by (simp_all add: live_def)
  obtain x where x: "r\<lparr>Deleted := x\<rparr> \<in> set (files (data_of w))"
    using assms(2,3) r(1) by (auto simp: older_def finished_kept_def)
  show ?thesis
  proof (cases x)
    case True
    with x show ?thesis by simp
  next
    case False
    with r(2) have "r\<lparr>Deleted := x\<rparr> = r" by (cases r) simp
    with x have "r \<in> set (files (data_of w))" by simp
    with assms(1,4) show ?thesis by (simp add: writer_ok_def sys_ok_def live_stored_def)
  qed
qed

end
