(* ===== verification/DeploymentExamples.thy ===== *)
theory DeploymentExamples
  imports Deployment ReplicationProperties StoreProperties
begin

text \<open>
  A run of the deployment: a writer with an empty database takes an upload, publishes, and a replica
  boots from what it finds in the bucket. Each part is a computation of the definitions it is made of.
\<close>

section \<open>Runs as steps\<close>

definition after :: "'s writer \<Rightarrow> int \<Rightarrow> 's system \<Rightarrow> 's writer" where
  "after w n s = \<lparr>w_conn = conn (fst s), w_threads = snd s,
     w_pub = with_data (tables_of (fst s)) n (with_bucket (store (fst s)) (w_pub w))\<rparr>"

lemma after_parts [simp]:
  "server_of (after w n s) = fst s" "w_threads (after w n s) = snd s"
  "h_db (ps_handle (w_pub (after w n s))) = Inr (file_of (tables_of (fst s)))"
  "h_changes (ps_handle (w_pub (after w n s))) = n" "data_of (after w n s) = tables_of (fst s)"
  "after (after w m s1) n s = after w n s"
  by (simp_all add: after_def server_of_def with_data_def with_bucket_def)

lemma after_nothing:
  assumes "h_db (ps_handle (w_pub w)) = Inr (file_of (data_of w))"
  shows "after w (h_changes (ps_handle (w_pub w))) (server_of w, w_threads w) = w"
proof -
  obtain c ts p where w: "w = \<lparr>w_conn = c, w_threads = ts, w_pub = p\<rparr>" by (cases w)
  obtain nd h q pc where p: "p = \<lparr>ps_node = nd, ps_handle = h, ps_pub = q, ps_pc = pc\<rparr>" by (cases p)
  have "h\<lparr>h_db := Inr (file_of (db c)), h_changes := h_changes h\<rparr> = h"
    using assms by (cases h) (simp add: w p)
  then show ?thesis by (simp add: after_def server_of_def with_data_def with_bucket_def w p)
qed

lemma play_writer:
  assumes "play (serving cfg) pf es (server_of w, w_threads w) = Some s"
    and "h_db (ps_handle (w_pub w)) = Inr (file_of (data_of w))"
  shows "(writer_step obj sq cfg pf sst stb)\<^sup>*\<^sup>* w (after w (h_changes (ps_handle (w_pub w)) + int (length es)) s)"
  using assms
proof (induction es arbitrary: w)
  case Nil
  then have "s = (server_of w, w_threads w)" by simp
  with after_nothing [OF Nil(2)] show ?case by simp
next
  case (Cons e es)
  obtain s1 where s1: "sys_step (serving cfg) pf (server_of w, w_threads w) s1" "play (serving cfg) pf es s1 = Some s"
  proof (cases e)
    case (Arrive ep r)
    with Cons.prems(1) that show ?thesis by (auto split: if_splits intro: sys_step.arrive)
  next
    case (Run i)
    obtain t srv1 where "thread_step (serving cfg) pf (w_threads w ! i) (server_of w) = (t, srv1)" by (metis prod.collapse)
    with Run Cons.prems(1) that show ?thesis by (auto split: if_splits intro: sys_step.run)
  qed
  let ?n = "h_changes (ps_handle (w_pub w))" and ?w1 = "after w (h_changes (ps_handle (w_pub w)) + 1) s1"
  have "writer_step obj sq cfg pf sst stb w ?w1"
    using writer_step.served [of cfg pf w "fst s1" "snd s1" "?n + 1"] s1(1) by (simp add: after_def counted_def)
  moreover have "(writer_step obj sq cfg pf sst stb)\<^sup>*\<^sup>* ?w1 (after ?w1 (?n + 1 + int (length es)) s)"
    using Cons.IH [of ?w1] s1(2) by simp
  ultimately show ?case by (simp add: add.assoc)
qed

lemma acts_writer:
  assumes "(pub_act sq cfg sst)\<^sup>*\<^sup>* (w_pub w) p"
  shows "(writer_step obj sq cfg pf sst stb)\<^sup>*\<^sup>* w (w\<lparr>w_pub := p\<rparr>)"
  using assms
proof (induction rule: rtranclp_induct)
  case (step y z)
  have "writer_step obj sq cfg pf sst stb (w\<lparr>w_pub := y\<rparr>) (w\<lparr>w_pub := y\<rparr>\<lparr>w_pub := z\<rparr>)"
    by (rule writer_step.publishing) (simp add: step(2))
  with step(3) show ?case by (simp add: rtranclp.rtrancl_into_rtrancl)
qed simp

lemma writer_deploys:
  assumes "(writer_step obj sq cfg pf sst stb)\<^sup>*\<^sup>* w w1"
  shows "(deploy_step obj sq k cfg pf sst stb)\<^sup>*\<^sup>* \<lparr>d_writer = w, d_replicas = rs, d_readers = gs\<rparr>
    \<lparr>d_writer = w1, d_replicas = rs, d_readers = gs\<rparr>"
  using assms
proof (induction rule: rtranclp_induct)
  case (step y z)
  let ?d = "\<lparr>d_writer = y, d_replicas = rs, d_readers = gs\<rparr>"
  have "writer_life obj sq k cfg pf sst stb (d_writer ?d) z" using writer_life.ran [OF step(2)] by simp
  from deploy_step.wrote [OF this] step(3) show ?case by (auto intro: rtranclp.rtrancl_into_rtrancl)
qed simp

section \<open>The writer\<close>

definition ex_wconf :: config where
  "ex_wconf = (ex_conf [])\<lparr>serving := ex_cfg\<rparr>"

definition ex_node0 :: "memory \<Rightarrow> memory node" where
  "ex_node0 mem = (ex_node mem)\<lparr>disk := \<lparr>entries = [(''/d/_backup'', FDir)], io_faults = [], fs_now = 0\<rparr>\<rparr>"

lemma ex_node0_start: "newSnapshotPublisher ex_wconf ex_fresh (ex_node []) = (Inr ex_pub, ex_node0 [])"
proof -
  let ?run = "newSnapshotPublisher ex_wconf ex_fresh (ex_node [])"
  have "\<not> isl (fst ?run) \<and> projr (fst ?run) = ex_pub \<and> disk (snd ?run) = disk (ex_node0 []) \<and> remote (snd ?run) = []
      \<and> sqlFaults (snd ?run) = []" by code_simp
  moreover have "ticks (snd ?run) = (\<lambda>i. int i * 10 ^ 12)" by (rule ext) code_simp
  ultimately have "fst ?run = Inr ex_pub \<and> disk (snd ?run) = disk (ex_node0 []) \<and> remote (snd ?run) = []
      \<and> sqlFaults (snd ?run) = [] \<and> ticks (snd ?run) = (\<lambda>i. int i * 10 ^ 12)"
    by (metis sum.collapse(2))
  moreover from this have "snd ?run = ex_node0 []"
    by (intro node.equality) (simp_all add: ex_node0_def ex_node_def)
  ultimately show ?thesis by (metis prod.collapse)
qed

definition ex_w0 :: "memory writer" where
  "ex_w0 = \<lparr>w_conn = conn ex_srv, w_threads = [], w_pub = at_pc (ex_node0 []) ex_fresh ex_pub Idle\<rparr>"

text \<open>After an upload without tags.\<close>

definition ex_w1_events :: "event list" where
  "ex_w1_events = Arrive EpUpload (ex_plain allPermissions) # replicate 9 (Run 0)"

definition ex_w1_sys :: "memory system" where
  "ex_w1_sys = the (play ex_cfg ex_s3_pf ex_w1_events (\<lparr>conn = conn ex_srv, store = []\<rparr>, []))"

definition ex_w1_tables :: tables where
  "ex_w1_tables = ex_tables\<lparr>tags := []\<rparr>"

definition ex_w1_bucket :: memory where
  "ex_w1_bucket = [((''b'', ''files/DD/DDD''), ''hi'')]"

lemma ex_w1_run:
  "play ex_cfg ex_s3_pf ex_w1_events (\<lparr>conn = conn ex_srv, store = []\<rparr>, []) = Some ex_w1_sys"
  "tables_of (fst ex_w1_sys) = ex_w1_tables" "store (fst ex_w1_sys) = ex_w1_bucket"
proof -
  let ?play = "play ex_cfg ex_s3_pf ex_w1_events (\<lparr>conn = conn ex_srv, store = []\<rparr>, [])"
  have run: "case ?play of None \<Rightarrow> False | Some s \<Rightarrow> tables_of (fst s) = ex_w1_tables \<and> store (fst s) = ex_w1_bucket"
    by code_simp
  then show "?play = Some ex_w1_sys" by (cases ?play) (simp_all add: ex_w1_sys_def)
  show "tables_of (fst ex_w1_sys) = ex_w1_tables" "store (fst ex_w1_sys) = ex_w1_bucket"
    using play_outcome(2) [OF run] by (simp_all add: ex_w1_sys_def)
qed

definition ex_w1 :: "memory writer" where
  "ex_w1 = after ex_w0 10 ex_w1_sys"

definition ex_w1_handle :: handle where
  "ex_w1_handle = ex_fresh\<lparr>h_db := Inr (file_of ex_w1_tables), h_changes := 10\<rparr>"

lemma ex_w1_pub: "w_pub ex_w1 = at_pc (ex_node0 ex_w1_bucket) ex_w1_handle ex_pub Idle"
  by (simp add: ex_w1_def after_def ex_w0_def with_data_def with_bucket_def ex_w1_run ex_w1_handle_def
      ex_node0_def ex_node_def)

lemma ex_w1_reached: "(writer_step obj sq ex_wconf ex_s3_pf sst stb)\<^sup>*\<^sup>* ex_w0 ex_w1"
proof -
  have "server_of ex_w0 = \<lparr>conn = conn ex_srv, store = []\<rparr>"
    by (simp add: server_of_def ex_w0_def ex_node0_def ex_node_def)
  then have "play (serving ex_wconf) ex_s3_pf ex_w1_events (server_of ex_w0, w_threads ex_w0) = Some ex_w1_sys"
    using ex_w1_run(1) by (simp add: ex_wconf_def ex_w0_def)
  moreover have "h_db (ps_handle (w_pub ex_w0)) = Inr (file_of (data_of ex_w0))"
    by (simp add: ex_w0_def ex_fresh_def adopted_def blank_db_def file_of_def ex_srv_def tables_init_def empty_tables_def)
  moreover have "h_changes (ps_handle (w_pub ex_w0)) + int (length ex_w1_events) = 10"
    by (simp add: ex_w0_def ex_fresh_def ex_w1_events_def)
  ultimately show ?thesis using play_writer unfolding ex_w1_def by metis
qed

text \<open>After a tick of the publisher.\<close>

definition ex_due :: "bool \<times> snapshotPublisher \<times> memory node" where
  "ex_due = tick_due ex_w1_handle ex_pub (ex_node0 ex_w1_bucket)"

definition ex_sent :: "(blob_error + snapshotPublisher) \<times> memory node" where
  "ex_sent = publish ex_sqlite ex_wconf ex_store ex_w1_handle (fst (snd ex_due)) (snd (snd ex_due))"

definition ex_w2 :: "memory writer" where
  "ex_w2 = ex_w1\<lparr>w_pub := at_pc (snd ex_sent) ex_w1_handle ((projr (fst ex_sent))\<lparr>dirtySince := None\<rparr>) Idle\<rparr>"

definition ex_w2_bucket :: memory where
  "ex_w2_bucket = ex_w1_bucket @ [((''b'', ''_backup/artifact.db''), ex_image (file_of ex_w1_tables))]"

lemma ex_w2_facts: "fst ex_due" "fst ex_sent = Inr (projr (fst ex_sent))"
  "published (projr (fst ex_sent)) = 10" "remote (snd ex_sent) = ex_w2_bucket"
proof -
  show "fst ex_due" by code_simp
  have run: "case ex_sent of (Inr p, nd) \<Rightarrow> published p = 10 \<and> remote nd = ex_w2_bucket | _ \<Rightarrow> False" by code_simp
  then obtain p nd where sent: "ex_sent = (Inr p, nd)" "published p = 10" "remote nd = ex_w2_bucket"
    by (auto split: prod.splits sum.splits)
  show "fst ex_sent = Inr (projr (fst ex_sent))" by (simp add: sent(1))
  show "published (projr (fst ex_sent)) = 10" by (simp add: sent)
  show "remote (snd ex_sent) = ex_w2_bucket" by (simp add: sent)
qed

lemma ex_w2_reached: "(writer_step obj ex_sqlite ex_wconf ex_s3_pf ex_store stb)\<^sup>*\<^sup>* ex_w0 ex_w2"
proof -
  let ?p = "fst (snd ex_due)" and ?nd = "snd (snd ex_due)" and ?act = "pub_act ex_sqlite ex_wconf ex_store"
  have "tick_due ex_w1_handle ex_pub (ex_node0 ex_w1_bucket) = (True, ?p, ?nd)"
    using ex_w2_facts(1) unfolding ex_due_def by (metis prod.collapse)
  from pub_act.ticked [OF this, of ex_sqlite ex_wconf ex_store]
  have "?act (w_pub ex_w1) (at_pc ?nd ex_w1_handle ?p Due)" by (simp add: ex_w1_pub)
  moreover have "publish ex_sqlite ex_wconf ex_store ex_w1_handle ?p ?nd = (Inr (projr (fst ex_sent)), snd ex_sent)"
    using ex_w2_facts(2) unfolding ex_sent_def by (metis prod.collapse)
  from publish_acts [OF this]
  have "?act\<^sup>*\<^sup>* (at_pc ?nd ex_w1_handle ?p Due) (w_pub ex_w2)" by (simp add: ex_w2_def)
  ultimately have "?act\<^sup>*\<^sup>* (w_pub ex_w1) (w_pub ex_w2)" by (rule act_then)
  from acts_writer [OF this] have "(writer_step obj ex_sqlite ex_wconf ex_s3_pf ex_store stb)\<^sup>*\<^sup>* ex_w1 ex_w2"
    by (simp add: ex_w2_def)
  with ex_w1_reached show ?thesis by (rule rtranclp_trans)
qed

lemma ex_look: "s3_look map_of ex_store mem snapshotKey = map_of mem (''b'', ''_backup/artifact.db'')"
proof -
  have "bucket ex_store = ''b'' \<and> objectKey ex_store snapshotKey = ''_backup/artifact.db''" by code_simp
  then show ?thesis by (simp add: s3_look_def)
qed

section \<open>The deployment\<close>

definition ex_d0 :: "memory deployment" where
  "ex_d0 = \<lparr>d_writer = ex_w0, d_replicas = [], d_readers = []\<rparr>"

lemma ex_client_atomic: "s3_atomic ex_client map_of"
  unfolding s3_atomic_def
proof (intro conjI, goal_cases)
  case 1
  show ?case by (auto simp: ex_client_def delete_conv')
next
  case 2
  show ?case
    by (auto simp: ex_client_def update_conv' split: prod.splits cap_end.splits)
qed

lemma ex_services: "services_documented map_of ex_sqlite ex_store ex_s3"
  using ex_client_atomic ex_store_client ex_store_documented ex_s3_documented ex_sqlite_documented
  by (simp add: services_documented_def)

lemma ex_w2_parts: "bucket_of ex_w2 = ex_w2_bucket" "data_of ex_w2 = ex_w1_tables"
  by (simp_all add: ex_w2_def ex_w2_facts(4) ex_w1_def after_def ex_w1_run(2))

lemma ex_w0_ok: "writer_ok map_of ex_s3 ex_w0"
  using db_wf_init
  by (simp add: writer_ok_def ex_w0_def ex_fresh_def adopted_def blank_db_def file_of_def ex_srv_def tables_init_def
      empty_tables_def sys_ok_def live_stored_def)

lemma ex_wrote: "(deploy_step map_of ex_sqlite k ex_wconf (s3_platform 31 ex_s3 ex_s3_pf) ex_store ex_s3)\<^sup>*\<^sup>* ex_d0
    \<lparr>d_writer = ex_w2, d_replicas = [], d_readers = []\<rparr>"
  unfolding ex_d0_def ex_s3_platform by (rule writer_deploys [OF ex_w2_reached])

text \<open>A replica boots from the bucket of the writer.\<close>

definition ex_join :: "(boot_error + handle \<times> snapshotReplica option) \<times> memory node" where
  "ex_join = bootDatabase ex_sqlite 63 ex_replica_conf (Some ex_store) (ex_node ex_w2_bucket)"

definition ex_joined :: "memory deployment" where
  "ex_joined = \<lparr>d_writer = set_bucket (remote (snd ex_join)) ex_w2,
     d_replicas = [\<lparr>rs_node = snd ex_join, rs_replica = the (snd (projr (fst ex_join))),
                    rs_handle = fst (projr (fst ex_join)), rs_found = None\<rparr>], d_readers = []\<rparr>"

lemma ex_joined_run:
  "\<exists>h r. ex_join = (Inr (h, Some r), snd ex_join) \<and> r_path r = databasePath ex_replica_conf"
proof -
  have "case ex_join of (Inr x, _) \<Rightarrow> (case snd x of None \<Rightarrow> False | Some r \<Rightarrow> r_path r = databasePath ex_replica_conf)
      | _ \<Rightarrow> False" by code_simp
  then obtain h r nd where "ex_join = (Inr (h, Some r), nd)" "r_path r = databasePath ex_replica_conf"
    by (auto split: prod.splits sum.splits option.splits)
  then show ?thesis by (metis snd_conv)
qed

lemma ex_joined_reached:
  "(deploy_step map_of ex_sqlite 63 ex_wconf (s3_platform 31 ex_s3 ex_s3_pf) ex_store ex_s3)\<^sup>*\<^sup>* ex_d0 ex_joined"
proof -
  let ?d = "\<lparr>d_writer = ex_w2, d_replicas = [], d_readers = []\<rparr>"
  obtain h r where join: "ex_join = (Inr (h, Some r), snd ex_join)" using ex_joined_run by blast
  have "remote (ex_node ex_w2_bucket) = bucket_of (d_writer ?d)" by (simp add: ex_w2_parts ex_node_def)
  from deploy_step.booted [OF join [unfolded ex_join_def] this]
  have "deploy_step map_of ex_sqlite 63 ex_wconf (s3_platform 31 ex_s3 ex_s3_pf) ex_store ex_s3 ?d ex_joined"
    using join by (simp add: ex_joined_def flip: ex_join_def) (metis fst_conv sum.sel(2) option.sel snd_conv)
  with ex_wrote show ?thesis by (rule rtranclp.rtrancl_into_rtrancl)
qed

text \<open>And it is started again on its volume.\<close>

definition ex_reopen :: "(boot_error + handle \<times> snapshotReplica option) \<times> memory node" where
  "ex_reopen = bootDatabase ex_sqlite 63 ex_replica_conf (Some ex_store) (snd ex_join)"

definition ex_reopened :: "memory deployment" where
  "ex_reopened = \<lparr>d_writer = set_bucket (remote (snd ex_join)) ex_w2, d_replicas = [],
     d_readers = [fst (projr (fst ex_reopen))]\<rparr>"

lemma ex_reopened_reached:
  "(deploy_step map_of ex_sqlite 63 ex_wconf (s3_platform 31 ex_s3 ex_s3_pf) ex_store ex_s3)\<^sup>*\<^sup>* ex_d0 ex_reopened"
proof -
  let ?stat = "on_disk (os_Stat (databasePath ex_replica_conf)) (snd ex_join)"
  have "case ex_reopen of (Inr x, _) \<Rightarrow> Option.is_none (snd x) | _ \<Rightarrow> False" by code_simp
  then obtain h nd where open0: "ex_reopen = (Inr (h, None), nd)"
    by (cases ex_reopen) (auto simp: Option.is_none_def split: sum.splits)
  have "Option.is_none (fst ?stat)" by code_simp
  then have stat: "?stat = (None, snd ?stat)" by (simp add: Option.is_none_def prod_eq_iff)
  have "readOnly (serving ex_replica_conf)" by code_simp
  obtain r where r: "snd (projr (fst ex_join)) = Some r" "r_path r = databasePath ex_replica_conf"
    using ex_joined_run by (metis fst_conv snd_conv sum.sel(2))
  define \<rho> where "\<rho> = at_bucket (bucket_of (d_writer ex_joined)) (d_replicas ex_joined ! 0)"
  have \<rho>: "rs_node \<rho> = snd ex_join" "databasePath ex_replica_conf = r_path (rs_replica \<rho>)"
    using r by (simp_all add: \<rho>_def at_bucket_def ex_joined_def set_bucket_def with_bucket_def)
  have len: "0 < length (d_replicas ex_joined)" by (simp add: ex_joined_def)
  have "deploy_step map_of ex_sqlite 63 ex_wconf (s3_platform 31 ex_s3 ex_s3_pf) ex_store ex_s3 ex_joined
      (ex_joined\<lparr>d_replicas := take 0 (d_replicas ex_joined) @ drop (Suc 0) (d_replicas ex_joined),
         d_readers := d_readers ex_joined @ [h]\<rparr>)"
    by (rule deploy_step.reopened [OF len \<rho>_def \<rho>(2) \<open>readOnly _\<close>])
      (use stat open0 in \<open>simp_all add: \<rho>(1) ex_reopen_def\<close>)
  then have "deploy_step map_of ex_sqlite 63 ex_wconf (s3_platform 31 ex_s3 ex_s3_pf) ex_store ex_s3 ex_joined ex_reopened"
    by (simp add: ex_reopened_def ex_joined_def open0)
  with ex_joined_reached show ?thesis by (rule rtranclp.rtrancl_into_rtrancl)
qed

text \<open>The writer is stopped after the publish and started again on its volume.\<close>

definition ex_volume :: "memory node" where
  "ex_volume = (ex_node ex_w2_bucket)\<lparr>disk :=
     \<lparr>entries = [(''/d'', FDir), (''/d/artifact.db'', FFile (ex_image (file_of ex_w1_tables)) 0)],
      io_faults = [], fs_now = 0\<rparr>\<rparr>"

definition ex_reboot :: "(boot_error + handle \<times> snapshotReplica option) \<times> memory node" where
  "ex_reboot = bootDatabase ex_sqlite 63 ex_wconf (Some ex_store) ex_volume"

definition ex_republish :: "snapshotPublisher option \<times> memory node" where
  "ex_republish = runSnapshotPublisher ex_wconf (Some ex_store) (fst (projr (fst ex_reboot))) (snd ex_reboot)"

definition ex_again :: "memory writer" where
  "ex_again = \<lparr>w_conn = (conn ex_srv)\<lparr>db := ex_w1_tables\<rparr>, w_threads = [],
     w_pub = at_pc (snd ex_republish) (fst (projr (fst ex_reboot))) (the (fst ex_republish)) Idle\<rparr>"

lemma ex_again_reached:
  "(deploy_step map_of ex_sqlite 63 ex_wconf (s3_platform 31 ex_s3 ex_s3_pf) ex_store ex_s3)\<^sup>*\<^sup>* ex_d0
     \<lparr>d_writer = ex_again, d_replicas = [], d_readers = []\<rparr>"
proof -
  let ?stat = "on_disk (os_Stat (databasePath ex_wconf)) ex_volume"
  have "case ex_reboot of (Inr x, _) \<Rightarrow> True | _ \<Rightarrow> False" by code_simp
  from runs_Inr [OF this] obtain h r nd where boot: "ex_reboot = (Inr (h, r), nd)" by (metis prod.collapse)
  have "\<not> Option.is_none (fst ex_republish)" by code_simp
  then obtain p nd2 where pub: "ex_republish = (Some p, nd2)" by (metis Option.is_none_simps(1) not_Some_eq prod.collapse)
  have at: "file_at (disk ex_volume) (databasePath ex_wconf) = Some (ex_image (file_of ex_w1_tables))" by code_simp
  have "Option.is_none (fst ?stat)" by code_simp
  then have stat: "?stat = (None, snd ?stat)" by (simp add: Option.is_none_def prod_eq_iff)
  have "writer_life map_of ex_sqlite 63 ex_wconf (s3_platform 31 ex_s3 ex_s3_pf) ex_store ex_s3 ex_w2
      \<lparr>w_conn = (conn ex_srv)\<lparr>db := ex_w1_tables\<rparr>, w_threads = [], w_pub = at_pc nd2 h p Idle\<rparr>"
  proof (rule writer_life.restarted [OF _ stat at _ boot [unfolded ex_reboot_def]])
    show "runSnapshotPublisher ex_wconf (Some ex_store) h nd = (Some p, nd2)"
      using pub by (simp add: ex_republish_def boot)
  qed (simp_all add: ex_volume_def ex_node_def ex_w2_parts ex_sqlite_def ex_parse_image)
  then have "writer_life map_of ex_sqlite 63 ex_wconf (s3_platform 31 ex_s3 ex_s3_pf) ex_store ex_s3 ex_w2 ex_again"
    by (simp add: ex_again_def boot pub)
  then have "writer_life map_of ex_sqlite 63 ex_wconf (s3_platform 31 ex_s3 ex_s3_pf) ex_store ex_s3
      (d_writer \<lparr>d_writer = ex_w2, d_replicas = [], d_readers = []\<rparr>) ex_again" by simp
  from deploy_step.wrote [OF this] ex_wrote show ?thesis by (auto intro: rtranclp.rtrancl_into_rtrancl)
qed

end
