(* ===== verification/DeploymentProperties.thy ===== *)
theory DeploymentProperties
  imports DeploymentExamples
begin

text \<open>
  The properties of the whole deployment: a writer that serves requests and publishes, and replicas
  that follow it, over one bucket. The run of the witnesses is computed part by part.
\<close>

section \<open>The past of the writer\<close>

text \<open>How a deployment begins: a writer at rest, and in the bucket at most what an earlier life of it left.\<close>

definition deployment_starts ::
  "('s \<Rightarrow> string \<times> string \<Rightarrow> bytes option) \<Rightarrow> sqlite \<Rightarrow> 's s3Storage \<Rightarrow> 's s3Storage \<Rightarrow> 's deployment \<Rightarrow> bool" where
  "deployment_starts obj sq sst stb d \<longleftrightarrow> d_replicas d = [] \<and> d_readers d = [] \<and> ps_pc (w_pub (d_writer d)) = Idle
     \<and> writer_ok obj stb (d_writer d)
     \<and> (\<forall>x. s3_look obj sst (bucket_of (d_writer d)) snapshotKey = Some x \<longrightarrow>
          image_of sq (\<lambda>t. older t (data_of (d_writer d))) x)"

definition past_of ::
  "('s writer \<Rightarrow> 's writer \<Rightarrow> bool) \<Rightarrow> 's writer \<Rightarrow> 's writer \<Rightarrow> tables \<Rightarrow> bool" where
  "past_of step w0 w t \<longleftrightarrow> was step {t. older t (data_of w0)} w0 w t"

lemma deployment_run:
  assumes "services_documented obj sq sst stb" and "deployment_starts obj sq sst stb d0"
    and "(deploy_step obj sq k cfg (s3_platform kb stb pf) sst stb)\<^sup>*\<^sup>* d0 d"
    and S: "S = writer_life obj sq k cfg (s3_platform kb stb pf) sst stb"
  shows "S\<^sup>*\<^sup>* (d_writer d0) (d_writer d) \<and> writer_ok obj stb (d_writer d)
    \<and> published_ok obj sq sst (past_of S (d_writer d0) (d_writer d)) (w_pub (d_writer d))
    \<and> serves_past sq (past_of S (d_writer d0) (d_writer d)) d
    \<and> (\<forall>t. past_of S (d_writer d0) (d_writer d) t \<longrightarrow> older t (data_of (d_writer d)))"
proof -
  let ?Z = "{t. older t (data_of (d_writer d0))}"
  have start: "writer_ok obj stb (d_writer d0)" "d_replicas d0 = [] \<and> d_readers d0 = []"
    using assms(2) by (simp_all add: deployment_starts_def)
  have pub: "published_ok obj sq sst (was S ?Z (d_writer d0) (d_writer d0)) (w_pub (d_writer d0))"
    using assms(2) by (auto simp: published_ok_def deployment_starts_def image_of_def was_def)
  note run = deploy_steps_serve [OF assms(1,3) start pub S]
  then have reach: "S\<^sup>*\<^sup>* (d_writer d0) (d_writer d)" by blast
  have "older t (data_of (d_writer d))" if "past_of S (d_writer d0) (d_writer d) t" for t
    using was_older [OF assms(1) that [unfolded past_of_def S] reach [unfolded S] start(1)] by simp
  moreover have "past_of S (d_writer d0) (d_writer d) = was S ?Z (d_writer d0) (d_writer d)"
    by (rule ext) (simp add: past_of_def)
  ultimately show ?thesis
    using run writer_published [OF assms(1) S reach start(1) pub] life_steps_ok [OF assms(1) reach [unfolded S] start(1)]
    by simp
qed

text \<open>
  C2. A replica serves the past of the writer. However requests, publishes and the rounds of the
  replicas interleave, wherever they fail, and whenever the writer or a replica is stopped and started
  again on its volume, the database a replica serves is one the writer had at an earlier moment,
  well-formed and with nothing in it that the writer has forgotten since.
\<close>

theorem replicas_serve_the_past:
  assumes "services_documented obj sq sst stb" and "deployment_starts obj sq sst stb d0"
    and "(deploy_step obj sq k cfg (s3_platform kb stb pf) sst stb)\<^sup>*\<^sup>* d0 d"
    and "h \<in> set (served_by d)"
  shows "\<exists>t. h_db h = Inr (file_of t) \<and> older t (data_of (d_writer d))
    \<and> past_of (writer_life obj sq k cfg (s3_platform kb stb pf) sst stb) (d_writer d0) (d_writer d) t"
  using deployment_run [OF assms(1-3) refl] serves_past_served [OF _ assms(4)] unfolding serves_one_def by blast

lemma ex_starts: "deployment_starts map_of ex_sqlite ex_store ex_s3 ex_d0"
  using ex_w0_ok by (simp add: deployment_starts_def ex_d0_def) (simp add: ex_w0_def ex_node0_def ex_node_def s3_look_def)

text \<open>A replica that has been started again.\<close>

lemma replicas_serve_the_past_witness:
  "\<exists>t. h_db (hd (d_readers ex_reopened)) = Inr (file_of t) \<and> older t ex_w1_tables"
proof -
  have "hd (d_readers ex_reopened) \<in> set (served_by ex_reopened)" by (simp add: served_by_def ex_reopened_def)
  from replicas_serve_the_past [OF ex_services ex_starts ex_reopened_reached this] show ?thesis
    by (auto simp: ex_reopened_def set_bucket_def ex_w2_parts)
qed

text \<open>
  C4. Every file the deployment offers is there. In each reachable state, also after crashes of the writer,
  every live record of the writer has an object of the recorded size under its key, although publisher
  and blobs share the bucket; and so has every live record of every replica, unless the writer has deleted it since.
\<close>

theorem offered_files_are_stored:
  assumes "services_documented obj sq sst stb" and "deployment_starts obj sq sst stb d0"
    and "(deploy_step obj sq k cfg (s3_platform kb stb pf) sst stb)\<^sup>*\<^sup>* d0 d"
  shows "(\<forall>r \<in> set (files (data_of (d_writer d))). live r \<longrightarrow>
      has_blob (s3_look obj stb (bucket_of (d_writer d))) (StorageKey r) (Size r))
    \<and> (\<forall>h \<in> set (served_by d). \<forall>t r. h_db h = Inr (file_of t) \<longrightarrow> r \<in> set (files t) \<longrightarrow> live r \<longrightarrow>
         r\<lparr>Deleted := True\<rparr> \<in> set (files (data_of (d_writer d)))
         \<or> has_blob (s3_look obj stb (bucket_of (d_writer d))) (StorageKey r) (Size r))"
proof -
  note run = deployment_run [OF assms refl]
  then have ok: "writer_ok obj stb (d_writer d)" by blast
  have "r\<lparr>Deleted := True\<rparr> \<in> set (files (data_of (d_writer d)))
      \<or> has_blob (s3_look obj stb (bucket_of (d_writer d))) (StorageKey r) (Size r)"
    if h: "h \<in> set (served_by d)" "h_db h = Inr (file_of t)" "r \<in> set (files t)" "live r" for h t r
  proof -
    obtain u where "h_db h = Inr (file_of u)" "older u (data_of (d_writer d))"
      using run serves_past_served [OF _ h(1)] unfolding serves_one_def by blast
    with h(2) have "older t (data_of (d_writer d))" by (simp add: file_of_def)
    from past_file [OF ok this h(3,4)] show ?thesis by blast
  qed
  moreover have "live_stored (data_of (d_writer d)) (s3_look obj stb (bucket_of (d_writer d)))"
    using ok by (simp add: writer_ok_def sys_ok_def)
  ultimately show ?thesis unfolding live_stored_def by blast
qed

lemma offered_files_are_stored_witness:
  "has_blob (s3_look map_of ex_s3 (bucket_of ex_again)) ''DD/DDD'' 2"
proof -
  have "hd (files ex_w1_tables) \<in> set (files ex_w1_tables)" "live (hd (files ex_w1_tables))"
    "StorageKey (hd (files ex_w1_tables)) = ''DD/DDD''" "Size (hd (files ex_w1_tables)) = 2"
    by (simp_all add: ex_w1_tables_def ex_tables_def live_def)
  with offered_files_are_stored [OF ex_services ex_starts ex_again_reached] show ?thesis
    by (auto simp: ex_again_def)
qed

text \<open>
  C9. A lost volume costs what was not published, and no more. A writer that starts without its
  database file on what the deployment has left in the bucket only does so with ART_DB_RESTORE=auto,
  and then serves a database the lost writer had at an earlier moment, all of whose live files are
  stored but for those deleted since.
\<close>

theorem lost_volume_returns_to_the_past:
  assumes "services_documented obj sq sst stb" and "deployment_starts obj sq sst stb d0"
    and "(deploy_step obj sq k cfg (s3_platform kb stb pf) sst stb)\<^sup>*\<^sup>* d0 d"
    and "s3_look obj sst (bucket_of (d_writer d)) snapshotKey = Some x" and "remote nd = bucket_of (d_writer d)"
    and "\<not> readOnly (serving cfg1)" and "dbRestoreMode cfg1 \<noteq> dbRestoreIgnore"
    and "file_at (disk nd) (databasePath cfg1) = None"
    and "\<forall>nd0. on_disk (os_Stat (databasePath cfg1)) nd \<noteq> (None, nd0)"
    and "bootDatabase sq k1 cfg1 (Some sst) nd = (Inr (h, replica), nd1)"
  shows "dbRestoreMode cfg1 = dbRestoreAuto
    \<and> (\<exists>t. h_db h = Inr (file_of t) \<and> older t (data_of (d_writer d))
        \<and> past_of (writer_life obj sq k cfg (s3_platform kb stb pf) sst stb) (d_writer d0) (d_writer d) t
        \<and> (\<forall>r \<in> set (files t). live r \<longrightarrow> r\<lparr>Deleted := True\<rparr> \<in> set (files (data_of (d_writer d)))
             \<or> has_blob (s3_look obj stb (bucket_of (d_writer d))) (StorageKey r) (Size r)))"
proof -
  let ?past = "past_of (writer_life obj sq k cfg (s3_platform kb stb pf) sst stb) (d_writer d0) (d_writer d)"
  note run = deployment_run [OF assms(1-3) refl]
  have doc: "s3_documented (client sst) obj" "sqlite_documented sq"
    using assms(1) by (simp_all add: services_documented_def)
  have "s3_look obj sst (remote nd) snapshotKey = Some x" using assms(4,5) by simp
  note boot = boot_lost_volume [OF doc(1) this assms(6-10)]
  have "image_of sq ?past x" using run assms(4) by (simp add: published_ok_def)
  then obtain t where t: "?past t" "parse_db sq x = Inr (file_of t)" using image_parses [OF doc(2)] by blast
  then have "older t (data_of (d_writer d))" using run by blast
  moreover have "writer_ok obj stb (d_writer d)" using run by blast
  ultimately have "\<forall>r \<in> set (files t). live r \<longrightarrow> r\<lparr>Deleted := True\<rparr> \<in> set (files (data_of (d_writer d)))
      \<or> has_blob (s3_look obj stb (bucket_of (d_writer d))) (StorageKey r) (Size r)"
    using past_file by blast
  moreover have "h_db h = Inr (file_of t)" using boot t(2) by simp
  ultimately show ?thesis using boot t(1) \<open>older t (data_of (d_writer d))\<close> by blast
qed

definition ex_lost :: "(boot_error + handle \<times> snapshotReplica option) \<times> memory node" where
  "ex_lost = bootDatabase ex_sqlite 63 (ex_conf ''auto'') (Some ex_store) (ex_node ex_w2_bucket)"

lemma lost_volume_returns_to_the_past_witness:
  "\<exists>h t. (\<exists>rep. fst ex_lost = Inr (h, rep)) \<and> h_db h = Inr (file_of t) \<and> older t ex_w1_tables"
proof -
  have "case ex_lost of (Inr x, _) \<Rightarrow> True | _ \<Rightarrow> False" by code_simp
  from runs_Inr [OF this] obtain h rep nd where lost: "ex_lost = (Inr (h, rep), nd)" by (metis prod.collapse)
  have "\<not> readOnly (serving (ex_conf ''auto'')) \<and> dbRestoreMode (ex_conf ''auto'') \<noteq> dbRestoreIgnore
      \<and> Option.is_none (file_at (disk (ex_node ex_w2_bucket)) (databasePath (ex_conf ''auto'')))
      \<and> fst (on_disk (os_Stat (databasePath (ex_conf ''auto''))) (ex_node ex_w2_bucket)) \<noteq> None" by code_simp
  then have "\<not> readOnly (serving (ex_conf ''auto''))" "dbRestoreMode (ex_conf ''auto'') \<noteq> dbRestoreIgnore"
    "file_at (disk (ex_node ex_w2_bucket)) (databasePath (ex_conf ''auto'')) = None"
    "\<forall>nd0. on_disk (os_Stat (databasePath (ex_conf ''auto''))) (ex_node ex_w2_bucket) \<noteq> (None, nd0)"
    by (auto simp: Option.is_none_def)
  note start = this
  have "s3_look map_of ex_store (bucket_of (d_writer \<lparr>d_writer = ex_w2, d_replicas = [], d_readers = []\<rparr>)) snapshotKey
      = Some (ex_image (file_of ex_w1_tables))"
    by (simp add: ex_w2_parts ex_look ex_w2_bucket_def ex_w1_bucket_def)
  from lost_volume_returns_to_the_past [OF ex_services ex_starts ex_wrote [of 63] this _ start lost [unfolded ex_lost_def]]
  have "\<exists>t. h_db h = Inr (file_of t) \<and> older t ex_w1_tables" by (auto simp: ex_w2_parts ex_node_def)
  moreover have "fst ex_lost = Inr (h, rep)" by (simp add: lost)
  ultimately show ?thesis by blast
qed

text \<open>
  C15. A replica can catch up. Once the publisher of a running writer has published and is clean, a
  round of a replica that switches to a new version serves exactly the tables the requests see.
\<close>

theorem refreshed_replica_is_current:
  assumes "services_documented obj sq sst stb"
    and "newSnapshotPublisher cfg h0 nd = (Inr p0, nd0)" and "w_pub w0 = at_pc nd0 h0 p0 Idle"
    and "writer_ok obj stb w0" and "(writer_step obj sq cfg (s3_platform kb stb pf) sst stb)\<^sup>*\<^sup>* w0 w"
    and "h_changes h0 < published (ps_pub (w_pub w))"
    and "published (ps_pub (w_pub w)) = h_changes (ps_handle (w_pub w))"
    and "remote rn = bucket_of w" and "refresh sq k (Some sst) r rh rn = (r1, h1, rn1)" and "(r1, h1) \<noteq> (r, rh)"
  shows "h_db h1 = Inr (file_of (data_of w))"
proof -
  have doc: "s3_documented (client sst) obj" "s3_documented (client stb) obj" "sqlite_documented sq"
    using assms(1) by (simp_all add: services_documented_def)
  note start = pub_inv_start [OF assms(2)]
  have "pub_inv obj sq sst (published p0) (w_pub w0)" unfolding assms(3) using start by blast
  from pub_inv_steps [OF doc(1) writer_projects_steps [OF assms(1,5,4)] this]
  have "s3_look obj sst (bucket_of w) snapshotKey = current_image sq (ps_handle (w_pub w))"
    using start assms(6,7) by (simp add: pub_inv_def Let_def)
  moreover have "h_db (ps_handle (w_pub w)) = Inr (file_of (data_of w))"
    using writer_steps_ok [OF assms(1,5,4)] by (simp add: writer_ok_def)
  ultimately have "s3_look obj sst (remote rn) snapshotKey = Some (vacuum_image sq (file_of (data_of w)))"
    using assms(8) by (simp add: current_image_def)
  moreover have "s3_look obj sst (remote rn) snapshotKey = Some (h_bytes h1)"
    by (rule refresh_published [OF doc(1) assms(9,10)])
  moreover have "h_db h1 = parse_db sq (h_bytes h1)" using refresh_outcome [OF assms(9)] assms(10) by auto
  ultimately show ?thesis using doc(3) by (simp add: sqlite_documented_def)
qed

text \<open>The replica of \<open>ReplicationProperties\<close> meets the bucket of this writer.\<close>

definition ex_catch_up :: "snapshotReplica \<times> handle \<times> memory node" where
  "ex_catch_up =
     (case ex_replica_boot of
        (Inr (h, Some r), nd1) \<Rightarrow> refresh ex_sqlite 63 (Some ex_store) r h (nd1\<lparr>remote := ex_w2_bucket\<rparr>)
      | (_, nd1) \<Rightarrow> undefined)"

lemma refreshed_replica_is_current_witness:
  "h_db (fst (snd ex_catch_up)) = Inr (file_of ex_w1_tables)"
proof -
  obtain h r nd1 where boot: "ex_replica_boot = (Inr (h, Some r), nd1)" using ex_replica_booted by blast
  obtain r1 h1 rn1 where run: "ex_catch_up = (r1, h1, rn1)" by (metis prod.collapse)
  then have ref: "refresh ex_sqlite 63 (Some ex_store) r h (nd1\<lparr>remote := ex_w2_bucket\<rparr>) = (r1, h1, rn1)"
    unfolding ex_catch_up_def boot by simp
  have "generations (fst ex_catch_up) \<noteq> 0" by code_simp
  moreover have "generations r = 0" using boot_replica [OF boot [unfolded ex_replica_boot_def]] by blast
  ultimately have new: "(r1, h1) \<noteq> (r, h)" unfolding run by auto
  have pub: "w_pub ex_w0 = at_pc (ex_node0 []) ex_fresh ex_pub Idle" by (simp add: ex_w0_def)
  have "h_changes ex_fresh < published (ps_pub (w_pub ex_w2))"
    "published (ps_pub (w_pub ex_w2)) = h_changes (ps_handle (w_pub ex_w2))"
    by (simp_all add: ex_w2_def ex_w2_facts(3) ex_w1_handle_def ex_fresh_def)
  moreover have "(writer_step map_of ex_sqlite ex_wconf (s3_platform 31 ex_s3 ex_s3_pf) ex_store ex_s3)\<^sup>*\<^sup>* ex_w0 ex_w2"
    unfolding ex_s3_platform by (rule ex_w2_reached)
  ultimately
  show ?thesis
    using refreshed_replica_is_current [OF ex_services ex_node0_start pub ex_w0_ok _ _ _ _ ref new]
    by (simp add: run ex_w2_parts)
qed

end
