(* ===== verification/Shutdown.thy ===== *)
theory Shutdown
  imports Deployment Faults
begin

text \<open>
  The end of \<open>main\<close> in a writer that publishes: the listener, the goroutine that waits for the signal
  and drains the server, the publisher's \<open>Run\<close> loop with its final flush, and the main thread, which
  joins them and closes the database. They run at the same time. When the drain has timed out, requests
  are still in flight after that; they go on, on a database that is closed. The fatal exit after a
  listener that fails is left out.
\<close>

section \<open>The goroutines\<close>

text \<open>\<open>Serving\<close>: in \<open>ListenAndServe\<close>; \<open>Stopping\<close>: in \<open>background.Wait\<close>; \<open>Joining\<close>: at \<open><-shutdown\<close>.\<close>

datatype main_pc = Serving | Stopping | Joining | Closed

text \<open>\<open>Drained True\<close>: \<open>server.Shutdown\<close> has returned without an error.\<close>

datatype drain_pc = AwaitingSignal | Draining | Drained bool

text \<open>\<open>Run\<close>: in its loop, in its final flush, or returned.\<close>

datatype loop_pc = Looping | Flushing | Ended

record 's process =
  pr_writer :: "'s writer"
  pr_main :: main_pc
  pr_drain :: drain_pc
  pr_loop :: loop_pc

fun answered :: "thread \<Rightarrow> bool" where
  "answered (TDone resp) \<longleftrightarrow> True"
| "answered (TUpload r st) \<longleftrightarrow> upload_result st \<noteq> None"
| "answered t \<longleftrightarrow> False"

abbreviation pub_of :: "'s process \<Rightarrow> 's pub_sys" where
  "pub_of p \<equiv> w_pub (pr_writer p)"

abbreviation with_pub :: "'s pub_sys \<Rightarrow> 's process \<Rightarrow> 's process" where
  "with_pub q p \<equiv> p\<lparr>pr_writer := (pr_writer p)\<lparr>w_pub := q\<rparr>\<rparr>"

text \<open>
  \<open>server.Shutdown\<close> closes the listener at once, returns when no request is in flight and gives up
  after \<open>shutdownTimeout\<close>. \<open>ListenAndServe\<close> does not wait for it. Once \<open>closeDatabase\<close> has run, a
  request that is still in flight goes on: a statement on the handle it holds fails, and where it asks
  for the handle it finds none and panics, which the HTTP server recovers; when \<open>main\<close> returns it ends
  with the process.
\<close>

inductive process_act ::
  "sqlite \<Rightarrow> config \<Rightarrow> 's platform \<Rightarrow> 's s3Storage \<Rightarrow> 's process \<Rightarrow> 's process \<Rightarrow> bool"
  for sq cfg pf sst where
  requested: "pr_main p \<noteq> Closed \<Longrightarrow>
    sys_step (serving cfg) pf (server_of (pr_writer p), w_threads (pr_writer p)) (srv1, ts1) \<Longrightarrow>
    length ts1 = length (w_threads (pr_writer p)) \<or> pr_drain p = AwaitingSignal \<Longrightarrow>
    counted (data_of (pr_writer p)) (tables_of srv1) (h_changes (ps_handle (pub_of p))) n \<Longrightarrow>
    process_act sq cfg pf sst p
      (p\<lparr>pr_writer := \<lparr>w_conn = conn srv1, w_threads = ts1,
         w_pub = with_data (tables_of srv1) n (with_bucket (store srv1) (pub_of p))\<rparr>\<rparr>)"
| outlived: "pr_main p = Closed \<Longrightarrow> failing (w_conn (pr_writer p)\<lparr>faults := es\<rparr>) \<Longrightarrow>
    sys_step (serving cfg) pf
      (\<lparr>conn = w_conn (pr_writer p)\<lparr>faults := es\<rparr>, store = bucket_of (pr_writer p)\<rparr>, w_threads (pr_writer p))
      (srv1, ts1) \<Longrightarrow>
    length ts1 = length (w_threads (pr_writer p)) \<Longrightarrow> faults (conn srv1) \<noteq> [] \<Longrightarrow>
    process_act sq cfg pf sst p
      (p\<lparr>pr_writer := \<lparr>w_conn = conn srv1, w_threads = ts1, w_pub = with_bucket (store srv1) (pub_of p)\<rparr>\<rparr>)"
| abandoned: "pr_main p = Closed \<Longrightarrow> i < length (w_threads (pr_writer p)) \<Longrightarrow>
    process_act sq cfg pf sst p
      (p\<lparr>pr_writer := (pr_writer p)\<lparr>w_threads :=
         take i (w_threads (pr_writer p)) @ drop (Suc i) (w_threads (pr_writer p))\<rparr>\<rparr>)"
| ticked: "pr_loop p = Looping \<Longrightarrow> ps_pc (pub_of p) = Idle \<Longrightarrow>
    tick_due (ps_handle (pub_of p)) (ps_pub (pub_of p)) (ps_node (pub_of p)) = (due, q, nd) \<Longrightarrow>
    process_act sq cfg pf sst p
      (with_pub (at_pc nd (ps_handle (pub_of p)) q (if due then Due else Idle)) p)"
| published: "pr_loop p \<noteq> Ended \<Longrightarrow> ps_pc (pub_of p) \<noteq> Idle \<Longrightarrow> pub_act sq cfg sst (pub_of p) q \<Longrightarrow>
    process_act sq cfg pf sst p (with_pub q p)"
| signalled: "pr_drain p = AwaitingSignal \<Longrightarrow>
    process_act sq cfg pf sst p (p\<lparr>pr_drain := Draining\<rparr>)"
| drained: "pr_drain p = Draining \<Longrightarrow> \<forall>t \<in> set (w_threads (pr_writer p)). answered t \<Longrightarrow>
    process_act sq cfg pf sst p (p\<lparr>pr_drain := Drained True\<rparr>)"
| drain_timeout: "pr_drain p = Draining \<Longrightarrow>
    process_act sq cfg pf sst p (p\<lparr>pr_drain := Drained False\<rparr>)"
| stopped: "pr_main p = Serving \<Longrightarrow> pr_drain p \<noteq> AwaitingSignal \<Longrightarrow>
    process_act sq cfg pf sst p (p\<lparr>pr_main := Stopping\<rparr>)"
| flush_started: "pr_main p \<noteq> Serving \<Longrightarrow> pr_loop p = Looping \<Longrightarrow> ps_pc (pub_of p) = Idle \<Longrightarrow>
    dbTotalChanges (ps_handle (pub_of p)) (ps_node (pub_of p)) = (Inr c, nd) \<Longrightarrow> c \<noteq> published (ps_pub (pub_of p)) \<Longrightarrow>
    process_act sq cfg pf sst p
      (with_pub (at_pc nd (ps_handle (pub_of p)) (ps_pub (pub_of p)) Due) (p\<lparr>pr_loop := Flushing\<rparr>))"
| flush_skipped: "pr_main p \<noteq> Serving \<Longrightarrow> pr_loop p = Looping \<Longrightarrow> ps_pc (pub_of p) = Idle \<Longrightarrow>
    dbTotalChanges (ps_handle (pub_of p)) (ps_node (pub_of p)) = (c, nd) \<Longrightarrow>
    c = Inr (published (ps_pub (pub_of p))) \<or> isl c \<Longrightarrow>
    process_act sq cfg pf sst p (with_pub ((pub_of p)\<lparr>ps_node := nd\<rparr>) (p\<lparr>pr_loop := Ended\<rparr>))"
| flushed: "pr_loop p = Flushing \<Longrightarrow> ps_pc (pub_of p) = Idle \<Longrightarrow>
    process_act sq cfg pf sst p (p\<lparr>pr_loop := Ended\<rparr>)"
| joined: "pr_main p = Stopping \<Longrightarrow> pr_loop p = Ended \<Longrightarrow>
    process_act sq cfg pf sst p (p\<lparr>pr_main := Joining\<rparr>)"
| closed: "pr_main p = Joining \<Longrightarrow> pr_drain p = Drained ok \<Longrightarrow>
    process_act sq cfg pf sst p (p\<lparr>pr_main := Closed\<rparr>)"

text \<open>A step of the process, or a change of its surroundings.\<close>

inductive process_step ::
  "('s \<Rightarrow> string \<times> string \<Rightarrow> bytes option) \<Rightarrow> sqlite \<Rightarrow> config \<Rightarrow> 's platform \<Rightarrow> 's s3Storage \<Rightarrow> 's s3Storage \<Rightarrow>
     's process \<Rightarrow> 's process \<Rightarrow> bool"
  for obj sq cfg pf sst stb where
  acted: "process_act sq cfg pf sst p p1 \<Longrightarrow> process_step obj sq cfg pf sst stb p p1"
| surroundings: "untouched obj sst stb (bucket_of (pr_writer p)) (remote nd) \<Longrightarrow>
    file_at (disk nd) (p_path (ps_pub (pub_of p))) = file_at (disk (ps_node (pub_of p))) (p_path (ps_pub (pub_of p))) \<Longrightarrow>
    process_step obj sq cfg pf sst stb p (with_pub ((pub_of p)\<lparr>ps_node := nd\<rparr>) p)"

definition process_start :: "'s writer \<Rightarrow> 's process" where
  "process_start w = \<lparr>pr_writer = w, pr_main = Serving, pr_drain = AwaitingSignal, pr_loop = Looping\<rparr>"

section \<open>Its writer is the writer\<close>

text \<open>Until the database is closed, what the process does is a run of its writer.\<close>

lemma process_act_writer:
  assumes "process_act sq cfg pf sst p p1" and "pr_main p1 \<noteq> Closed"
  shows "(writer_step obj sq cfg pf sst stb)\<^sup>*\<^sup>* (pr_writer p) (pr_writer p1)"
  using assms(1)
proof (cases rule: process_act.cases)
  case (requested srv1 ts1 n)
  with writer_step.served [OF requested(3) requested(5)] show ?thesis by auto
next
  case (ticked due q nd)
  have "pub_of p = at_pc (ps_node (pub_of p)) (ps_handle (pub_of p)) (ps_pub (pub_of p)) Idle"
    using ticked(3) by (cases "pub_of p") simp
  with pub_act.ticked [OF ticked(4)]
  have "pub_act sq cfg sst (pub_of p) (at_pc nd (ps_handle (pub_of p)) q (if due then Due else Idle))" by metis
  from writer_step.publishing [OF this] ticked(1) show ?thesis by auto
next
  case (published q)
  with writer_step.publishing [OF published(4)] show ?thesis by auto
next
  case (flush_started c nd)
  have "pub_of p = at_pc (ps_node (pub_of p)) (ps_handle (pub_of p)) (ps_pub (pub_of p)) Idle"
    using flush_started(4) by (cases "pub_of p") simp
  with pub_act.flushed [OF flush_started(5,6)]
  have "pub_act sq cfg sst (pub_of p) (at_pc nd (ps_handle (pub_of p)) (ps_pub (pub_of p)) Due)" by metis
  from writer_step.publishing [OF this] flush_started(1) show ?thesis by auto
next
  case (flush_skipped c nd)
  have "disk nd = disk (ps_node (pub_of p)) \<and> remote nd = bucket_of (pr_writer p)"
    using h_query_keeps [OF flush_skipped(5) [unfolded dbTotalChanges_def]] by simp
  then have "untouched obj sst stb (bucket_of (pr_writer p)) (remote nd)"
    "file_at (disk nd) (p_path (ps_pub (pub_of p))) = file_at (disk (ps_node (pub_of p))) (p_path (ps_pub (pub_of p)))"
    by (simp_all add: untouched_def)
  from writer_step.elsewhere [OF this] flush_skipped(1) show ?thesis by auto
qed (use assms(2) in simp_all)

lemma process_writer:
  assumes "process_step obj sq cfg pf sst stb p p1" and "pr_main p1 \<noteq> Closed"
  shows "(writer_step obj sq cfg pf sst stb)\<^sup>*\<^sup>* (pr_writer p) (pr_writer p1)"
  using assms(1)
proof (cases rule: process_step.cases)
  case acted
  then show ?thesis using assms(2) by (rule process_act_writer)
next
  case (surroundings nd)
  with writer_step.elsewhere [OF surroundings(2,3)] show ?thesis by auto
qed

lemma stays_closed:
  assumes "process_step obj sq cfg pf sst stb p p1" and "pr_main p = Closed"
  shows "pr_main p1 = Closed"
  using assms by (auto elim!: process_step.cases process_act.cases)

lemma process_writer_steps:
  assumes "(process_step obj sq cfg pf sst stb)\<^sup>*\<^sup>* p p1" and "pr_main p1 \<noteq> Closed"
  shows "(writer_step obj sq cfg pf sst stb)\<^sup>*\<^sup>* (pr_writer p) (pr_writer p1)"
  using assms
proof (induction rule: rtranclp_induct)
  case (step y z)
  then have "pr_main y \<noteq> Closed" using stays_closed by blast
  with step process_writer [OF step(2,4)] show ?case by (meson rtranclp_trans)
qed simp

section \<open>The order of the shutdown\<close>

definition shutdown_ok :: "'s process \<Rightarrow> bool" where
  "shutdown_ok p \<longleftrightarrow>
     (pr_main p \<noteq> Serving \<longrightarrow> pr_drain p \<noteq> AwaitingSignal)
   \<and> (pr_loop p \<noteq> Looping \<longrightarrow> pr_main p \<noteq> Serving)
   \<and> (pr_main p \<in> {Joining, Closed} \<longrightarrow> pr_loop p = Ended)
   \<and> (pr_loop p = Ended \<longrightarrow> ps_pc (pub_of p) = Idle)
   \<and> (pr_main p = Closed \<longrightarrow> (\<exists>ok. pr_drain p = Drained ok))
   \<and> (pr_drain p = Drained True \<longrightarrow> (\<forall>t \<in> set (w_threads (pr_writer p)). answered t))"

lemma answered_step:
  assumes "answered t" and "thread_step cfg pf t srv = (t', srv1)"
  shows "t' = t \<and> srv1 = srv"
proof (cases t)
  case (TUpload r st)
  with assms show ?thesis by (cases st) (auto simp: thread_step_def)
qed (use assms in \<open>auto simp: thread_step_def\<close>)

lemma answered_sys:
  assumes "\<forall>t \<in> set ts. answered t" and "sys_step cfg pf (srv, ts) (srv1, ts1)" and "length ts1 = length ts"
  shows "ts1 = ts \<and> srv1 = srv"
  using assms(2)
proof (cases rule: sys_step.cases)
  case (arrive ep r)
  with assms(3) show ?thesis by simp
next
  case (run i t)
  with assms(1) answered_step [of "ts ! i" cfg pf srv t srv1] show ?thesis by simp
qed

lemma shutdown_ok_act:
  assumes "process_act sq cfg pf sst p p1" and "shutdown_ok p"
  shows "shutdown_ok p1"
  using assms(1)
proof (cases rule: process_act.cases)
  case (requested srv1 ts1 n)
  have "\<forall>t \<in> set ts1. answered t" if d: "pr_drain p = Drained True"
  proof -
    have "\<forall>t \<in> set (w_threads (pr_writer p)). answered t" using assms(2) d by (simp add: shutdown_ok_def)
    moreover have "length ts1 = length (w_threads (pr_writer p))" using requested(4) d by simp
    ultimately show ?thesis using answered_sys [OF _ requested(3)] by blast
  qed
  with requested(1) assms(2) show ?thesis by (simp add: shutdown_ok_def)
next
  case (outlived es srv1 ts1)
  have "\<forall>t \<in> set ts1. answered t" if d: "pr_drain p = Drained True"
  proof -
    have "\<forall>t \<in> set (w_threads (pr_writer p)). answered t" using assms(2) d by (simp add: shutdown_ok_def)
    then show ?thesis using answered_sys [OF _ outlived(4,5)] by blast
  qed
  with outlived(1) assms(2) show ?thesis by (simp add: shutdown_ok_def)
next
  case (abandoned i)
  with assms(2) show ?thesis by (auto simp: shutdown_ok_def dest: in_set_takeD in_set_dropD)
qed (use assms(2) in \<open>auto simp: shutdown_ok_def\<close>)

lemma shutdown_ok_step:
  assumes "process_step obj sq cfg pf sst stb p p1" and "shutdown_ok p"
  shows "shutdown_ok p1"
  using assms(1)
proof (cases rule: process_step.cases)
  case acted
  then show ?thesis using assms(2) by (rule shutdown_ok_act)
qed (use assms(2) in \<open>auto simp: shutdown_ok_def\<close>)

lemma shutdown_ok_steps:
  assumes "(process_step obj sq cfg pf sst stb)\<^sup>*\<^sup>* (process_start w) p"
  shows "shutdown_ok p"
  using assms
proof (induction rule: rtranclp_induct)
  case base
  show ?case by (simp add: shutdown_ok_def process_start_def)
next
  case (step y z)
  then show ?case using shutdown_ok_step by blast
qed

section \<open>After the end\<close>

text \<open>The requests that outlive the database change no table, and the publisher does not run again.\<close>

lemma closed_step:
  assumes "process_step obj sq cfg pf sst stb p p1" and "shutdown_ok p" and "pr_main p = Closed"
  shows "data_of (pr_writer p1) = data_of (pr_writer p)"
proof -
  have ended: "pr_loop p = Ended" using assms(2,3) by (simp add: shutdown_ok_def)
  show ?thesis
    using assms(1)
  proof (cases rule: process_step.cases)
    case acted
    then show ?thesis
    proof (cases rule: process_act.cases)
      case (outlived es srv1 ts1)
      have "tables_of srv1 = data_of (pr_writer p)"
        using calm_sys [OF outlived(4)] outlived(3,6) by (simp add: calm_conn_def calm_def)
      with outlived(1) show ?thesis by simp
    qed (use assms(3) ended in simp_all)
  qed simp
qed

lemma closed_steps:
  assumes "(process_step obj sq cfg pf sst stb)\<^sup>*\<^sup>* p p1" and "shutdown_ok p" and "pr_main p = Closed"
  shows "shutdown_ok p1 \<and> pr_main p1 = Closed \<and> data_of (pr_writer p1) = data_of (pr_writer p)"
  using assms
proof (induction rule: rtranclp_induct)
  case (step y z)
  with shutdown_ok_step [OF step(2)] stays_closed [OF step(2)] closed_step [OF step(2)] show ?case by simp
qed simp

end
