(* ===== verification/ShutdownProperties.thy ===== *)
theory ShutdownProperties
  imports Shutdown DeploymentExamples
begin

text \<open>
  What the shutdown guarantees and what it does not: the order in which its goroutines end, and a run
  in which the last publish comes before the last request.
\<close>

section \<open>Order\<close>

text \<open>
  C21. The database is closed last. Whatever the goroutines do and in whatever order, when \<open>main\<close>
  closes the database the publisher has returned and is in no publish, and every request has been
  answered unless the drain timed out. The requests that outlive a drain that timed out go on, but
  whatever they do then, the publisher does not run again and the tables stay as they were.
\<close>

theorem database_is_closed_last:
  assumes "(process_step obj sq cfg pf sst stb)\<^sup>*\<^sup>* (process_start w) p" and "pr_main p = Closed"
  shows "pr_loop p = Ended \<and> ps_pc (pub_of p) = Idle
    \<and> ((\<forall>t \<in> set (w_threads (pr_writer p)). answered t) \<or> pr_drain p = Drained False)
    \<and> (\<forall>p1. (process_step obj sq cfg pf sst stb)\<^sup>*\<^sup>* p p1 \<longrightarrow> pr_main p1 = Closed
         \<and> pr_loop p1 = Ended \<and> ps_pc (pub_of p1) = Idle \<and> data_of (pr_writer p1) = data_of (pr_writer p))"
proof -
  note ok = shutdown_ok_steps [OF assms(1)]
  then have "\<exists>b. pr_drain p = Drained b" using assms(2) by (simp add: shutdown_ok_def)
  then have "(\<forall>t \<in> set (w_threads (pr_writer p)). answered t) \<or> pr_drain p = Drained False"
    using ok by (auto simp: shutdown_ok_def)
  moreover have "pr_main p1 = Closed \<and> pr_loop p1 = Ended \<and> ps_pc (pub_of p1) = Idle
      \<and> data_of (pr_writer p1) = data_of (pr_writer p)"
    if later: "(process_step obj sq cfg pf sst stb)\<^sup>*\<^sup>* p p1" for p1
  proof -
    have c: "shutdown_ok p1" "pr_main p1 = Closed" "data_of (pr_writer p1) = data_of (pr_writer p)"
      using closed_steps [OF later ok assms(2)] by blast+
    from c(1) c(2) have "pr_loop p1 = Ended" "pr_loop p1 = Ended \<longrightarrow> ps_pc (pub_of p1) = Idle"
      unfolding shutdown_ok_def by blast+
    with c show ?thesis by blast
  qed
  moreover have "pr_loop p = Ended \<and> ps_pc (pub_of p) = Idle" using ok assms(2) by (simp add: shutdown_ok_def)
  ultimately show ?thesis by blast
qed

section \<open>A run\<close>

lemma play_process:
  assumes "play (serving cfg) pf es (server_of (pr_writer p), w_threads (pr_writer p)) = Some s"
    and "h_db (ps_handle (pub_of p)) = Inr (file_of (data_of (pr_writer p)))"
    and "pr_main p \<noteq> Closed" and "\<forall>e \<in> set es. \<exists>i. e = Run i"
  shows "(process_act sq cfg pf sst)\<^sup>*\<^sup>* p
    (p\<lparr>pr_writer := after (pr_writer p) (h_changes (ps_handle (pub_of p)) + int (length es)) s\<rparr>)"
  using assms
proof (induction es arbitrary: p)
  case Nil
  then have "s = (server_of (pr_writer p), w_threads (pr_writer p))" by simp
  with after_nothing [OF Nil(2)] show ?case by simp
next
  case (Cons e es)
  let ?w = "pr_writer p" and ?n = "h_changes (ps_handle (pub_of p))"
  obtain i where e: "e = Run i" using Cons.prems(4) by auto
  obtain t srv1 where st: "thread_step (serving cfg) pf (w_threads ?w ! i) (server_of ?w) = (t, srv1)" by (metis prod.collapse)
  have i: "i < length (w_threads ?w)" using Cons.prems(1) e by (auto split: if_splits)
  let ?ts = "(w_threads ?w)[i := t]"
  let ?p1 = "p\<lparr>pr_writer := after ?w (?n + 1) (srv1, ?ts)\<rparr>"
  have "process_act sq cfg pf sst p ?p1"
    using process_act.requested [OF Cons.prems(3) sys_step.run [OF i st], of "?n + 1"] by (simp add: after_def counted_def)
  moreover have "(process_act sq cfg pf sst)\<^sup>*\<^sup>* ?p1
      (?p1\<lparr>pr_writer := after (pr_writer ?p1) (?n + 1 + int (length es)) s\<rparr>)"
    using Cons.IH [of ?p1] Cons.prems e i st by simp
  ultimately show ?case by (simp add: add.assoc)
qed

text \<open>A request arrives at the writer that has just published; then the signal comes.\<close>

definition ex_late :: request where
  "ex_late = ex_request ''POST'' ''Bearer tok'' [ex_part ''file'' ''b.txt'' ''yo''] allPermissions"

definition ex_accepted :: "memory system" where
  "ex_accepted = (\<lparr>conn = conn (fst ex_w1_sys), store = ex_w2_bucket\<rparr>,
     snd ex_w1_sys @ [start_thread ex_cfg ex_s3_pf EpUpload ex_late])"

definition ex_final :: "memory system" where
  "ex_final = the (play ex_cfg ex_s3_pf (replicate 9 (Run 1)) ex_accepted)"

fun created :: "string \<Rightarrow> thread \<Rightarrow> bool" where
  "created name (TUpload q (UDone resp)) \<longleftrightarrow>
     status resp = 201 \<and> (case body resp of JUpload m info b \<Rightarrow> fi_Name info = name | _ \<Rightarrow> False)"
| "created name t \<longleftrightarrow> False"

lemma ex_final_run:
  "play ex_cfg ex_s3_pf (replicate 9 (Run 1)) ex_accepted = Some ex_final"
  "\<forall>t \<in> set (snd ex_final). answered t"
  "\<exists>t \<in> set (snd ex_final). created ''b.txt'' t"
  "\<exists>x \<in> set (files (tables_of (fst ex_final))). live x \<and> DisplayName x = ''b.txt''"
  "s3_look map_of ex_store (store (fst ex_final)) snapshotKey = Some (ex_image (file_of ex_w1_tables))"
proof -
  let ?play = "play ex_cfg ex_s3_pf (replicate 9 (Run 1)) ex_accepted"
  have run: "case ?play of None \<Rightarrow> False | Some s \<Rightarrow> list_all answered (snd s) \<and> list_ex (created ''b.txt'') (snd s)
      \<and> list_ex (\<lambda>x. live x \<and> DisplayName x = ''b.txt'') (files (tables_of (fst s)))
      \<and> store (fst s) = ex_w1_bucket @ [((''b'', ''_backup/artifact.db''), ex_image (file_of ex_w1_tables)),
          ((''b'', ''files/EE/EEE''), ''yo'')]" by code_simp
  then show "?play = Some ex_final" by (cases ?play) (simp_all add: ex_final_def)
  note facts = play_outcome(2) [OF run, folded ex_final_def]
  then show "\<forall>t \<in> set (snd ex_final). answered t" "\<exists>t \<in> set (snd ex_final). created ''b.txt'' t"
    "\<exists>x \<in> set (files (tables_of (fst ex_final))). live x \<and> DisplayName x = ''b.txt''"
    by (simp_all add: list_all_iff list_ex_iff)
  show "s3_look map_of ex_store (store (fst ex_final)) snapshotKey = Some (ex_image (file_of ex_w1_tables))"
    using facts by (simp add: ex_look ex_w1_bucket_def)
qed

lemma ex_w2_more: "server_of ex_w2 = \<lparr>conn = conn (fst ex_w1_sys), store = ex_w2_bucket\<rparr>" "w_threads ex_w2 = snd ex_w1_sys"
  "ps_pc (w_pub ex_w2) = Idle" "h_changes (ps_handle (w_pub ex_w2)) = 10" "published (ps_pub (w_pub ex_w2)) = 10"
  by (simp_all add: server_of_def ex_w2_def ex_w2_facts(3,4) ex_w1_def after_def ex_w1_handle_def)

text \<open>Accepted, signalled, stopped, and the flush finds the counter where it was.\<close>

definition ex_flushed :: "memory process" where
  "ex_flushed = \<lparr>pr_writer = (after ex_w2 10 ex_accepted)\<lparr>w_pub := (w_pub (after ex_w2 10 ex_accepted))
       \<lparr>ps_node := snd (dbTotalChanges (ps_handle (w_pub (after ex_w2 10 ex_accepted))) (ps_node (w_pub (after ex_w2 10 ex_accepted))))\<rparr>\<rparr>,
     pr_main = Stopping, pr_drain = Draining, pr_loop = Ended\<rparr>"

lemma ex_flushed_reached: "(process_act sq ex_wconf ex_s3_pf sst)\<^sup>*\<^sup>* (process_start ex_w2) ex_flushed"
proof -
  let ?st = "process_act sq ex_wconf ex_s3_pf sst" and ?w = "after ex_w2 10 ex_accepted"
  have "admitted ex_cfg EpUpload ex_late" by code_simp
  from sys_step.arrive [OF this]
  have "sys_step (serving ex_wconf) ex_s3_pf (server_of ex_w2, w_threads ex_w2) (fst ex_accepted, snd ex_accepted)"
    by (simp add: ex_accepted_def ex_w2_more ex_wconf_def)
  then have "?st (process_start ex_w2) ((process_start ex_w2)\<lparr>pr_writer := ?w\<rparr>)"
    using process_act.requested [of "process_start ex_w2" ex_wconf ex_s3_pf "fst ex_accepted" "snd ex_accepted" 10 sq sst]
    by (simp add: after_def process_start_def counted_def ex_w2_more ex_accepted_def ex_w2_parts ex_w1_run)
  moreover have "?st ((process_start ex_w2)\<lparr>pr_writer := ?w\<rparr>) ((process_start ex_w2)\<lparr>pr_writer := ?w, pr_drain := Draining\<rparr>)"
    by (rule process_act.signalled) (simp add: process_start_def)
  moreover have "?st ((process_start ex_w2)\<lparr>pr_writer := ?w, pr_drain := Draining\<rparr>)
      ((process_start ex_w2)\<lparr>pr_writer := ?w, pr_drain := Draining, pr_main := Stopping\<rparr>)"
    by (rule process_act.stopped) (simp_all add: process_start_def)
  moreover have "?st ((process_start ex_w2)\<lparr>pr_writer := ?w, pr_drain := Draining, pr_main := Stopping\<rparr>) ex_flushed"
  proof -
    let ?p = "(process_start ex_w2)\<lparr>pr_writer := ?w, pr_drain := Draining, pr_main := Stopping\<rparr>"
    obtain c nd where tc: "dbTotalChanges (ps_handle (w_pub ?w)) (ps_node (w_pub ?w)) = (c, nd)" by (metis prod.collapse)
    have "c = Inr (published (ps_pub (w_pub ?w))) \<or> isl c"
      using total_changes [of "ps_handle (w_pub ?w)"] tc by (cases c) (auto simp: after_def ex_w2_more)
    then have "?st ?p (with_pub ((pub_of ?p)\<lparr>ps_node := nd\<rparr>) (?p\<lparr>pr_loop := Ended\<rparr>))"
      by (intro process_act.flush_skipped [where c = c]) (use tc in \<open>simp_all add: process_start_def after_def ex_w2_more\<close>)
    then show ?thesis using tc by (simp add: ex_flushed_def process_start_def)
  qed
  ultimately show ?thesis by (meson converse_rtranclp_into_rtranclp r_into_rtranclp)
qed

definition ex_stopped :: "memory process" where
  "ex_stopped = ex_flushed\<lparr>pr_writer := after (pr_writer ex_flushed) 19 ex_final, pr_main := Closed, pr_drain := Drained True\<rparr>"

lemma ex_stopped_reached: "(process_act sq ex_wconf ex_s3_pf sst)\<^sup>*\<^sup>* ex_flushed ex_stopped"
proof -
  let ?st = "process_act sq ex_wconf ex_s3_pf sst" and ?w = "after ex_w2 10 ex_accepted"
  let ?p = "ex_flushed\<lparr>pr_writer := after (pr_writer ex_flushed) 19 ex_final\<rparr>"
  have rem: "remote (snd (dbTotalChanges h nd)) = remote nd" for h and nd :: "memory node"
    using h_query_keeps [of "\<lambda>_. Inr (h_changes h)" h nd] unfolding dbTotalChanges_def by (metis prod.collapse)
  have fl: "server_of (pr_writer ex_flushed) = fst ex_accepted" "w_threads (pr_writer ex_flushed) = snd ex_accepted"
    "h_db (ps_handle (pub_of ex_flushed)) = Inr (file_of (data_of (pr_writer ex_flushed)))"
    "h_changes (ps_handle (pub_of ex_flushed)) = 10" "pr_main ex_flushed \<noteq> Closed"
    by (simp_all add: ex_flushed_def after_def server_of_def rem)
  have "play (serving ex_wconf) ex_s3_pf (replicate 9 (Run 1))
      (server_of (pr_writer ex_flushed), w_threads (pr_writer ex_flushed)) = Some ex_final"
    using ex_final_run(1) fl by (simp add: ex_wconf_def)
  from play_process [OF this fl(3,5), of sq sst] have run: "?st\<^sup>*\<^sup>* ex_flushed ?p" using fl(4) by simp
  have "?st ?p (?p\<lparr>pr_drain := Drained True\<rparr>)"
    by (rule process_act.drained) (use ex_final_run(2) in \<open>simp_all add: ex_flushed_def\<close>)
  moreover have "?st (?p\<lparr>pr_drain := Drained True\<rparr>) (?p\<lparr>pr_drain := Drained True, pr_main := Joining\<rparr>)"
    by (rule process_act.joined) (simp_all add: ex_flushed_def)
  moreover have "?st (?p\<lparr>pr_drain := Drained True, pr_main := Joining\<rparr>) (?p\<lparr>pr_drain := Drained True, pr_main := Joining, pr_main := Closed\<rparr>)"
    by (rule process_act.closed) (simp_all add: ex_flushed_def)
  then have "?st (?p\<lparr>pr_drain := Drained True, pr_main := Joining\<rparr>) ex_stopped"
    by (simp add: ex_stopped_def ex_flushed_def)
  ultimately have "?st\<^sup>*\<^sup>* ?p ex_stopped" by (meson converse_rtranclp_into_rtranclp r_into_rtranclp)
  with run show ?thesis by (meson rtranclp_trans)
qed

lemma ex_stopped_facts: "pr_main ex_stopped = Closed" "pr_drain ex_stopped = Drained True"
  "w_threads (pr_writer ex_stopped) = snd ex_final" "data_of (pr_writer ex_stopped) = tables_of (fst ex_final)"
  "bucket_of (pr_writer ex_stopped) = store (fst ex_final)"
  by (simp_all add: ex_stopped_def after_def)

lemma acted_steps:
  "(process_act sq cfg pf sst)\<^sup>*\<^sup>* p p1 \<Longrightarrow> (process_step obj sq cfg pf sst stb)\<^sup>*\<^sup>* p p1"
  by (erule mono_rtranclp [rule_format, rotated]) (rule process_step.acted)

lemma ex_stopped_steps: "(process_step obj sq ex_wconf ex_s3_pf sst stb)\<^sup>*\<^sup>* (process_start ex_w2) ex_stopped"
  using acted_steps [OF rtranclp_trans [OF ex_flushed_reached ex_stopped_reached]] .

lemma ex_flushed_facts:
  "pr_main ex_flushed = Stopping" "pr_loop ex_flushed = Ended" "pr_drain ex_flushed = Draining"
  "published (ps_pub (pub_of ex_flushed)) = h_changes (ps_handle (pub_of ex_flushed))"
  "w_threads (pr_writer ex_flushed) = snd ex_w1_sys @ [start_thread ex_cfg ex_s3_pf EpUpload ex_late]"
  by (simp_all add: ex_flushed_def after_def ex_w2_more ex_accepted_def)

lemma database_is_closed_last_witness:
  "pr_loop ex_stopped = Ended \<and> list_all answered (snd ex_final)"
  using database_is_closed_last [OF ex_stopped_steps [of map_of ex_sqlite ex_store ex_s3] ex_stopped_facts(1)]
  by (simp add: ex_stopped_facts list_all_iff)

lemma ex_w2_quiet:
  "faults (w_conn ex_w2) = []" "sqlFaults (ps_node (w_pub ex_w2)) = []" "io_faults (disk (ps_node (w_pub ex_w2))) = []"
proof -
  have "case play ex_cfg ex_s3_pf ex_w1_events (\<lparr>conn = conn ex_srv, store = []\<rparr>, []) of None \<Rightarrow> False
      | Some s \<Rightarrow> faults (conn (fst s)) = []" by code_simp
  then have "faults (conn (fst ex_w1_sys)) = []" by (simp add: ex_w1_run(1))
  then show "faults (w_conn ex_w2) = []" by (simp add: ex_w2_def ex_w1_def after_def)
  have "case ex_sent of (_, nd) \<Rightarrow> sqlFaults nd = [] \<and> io_faults (disk nd) = []" by code_simp
  then show "sqlFaults (ps_node (w_pub ex_w2)) = []" "io_faults (disk (ps_node (w_pub ex_w2))) = []"
    by (simp_all add: ex_w2_def case_prod_beta)
qed

text \<open>
  C40. The final publish can come too early, though nothing fails. There is a run of a documented
  deployment, with no failure to come in any statement, random read or system call and no step but
  those of the process itself, in which the final flush finds nothing to do and the publisher ends
  while an upload is in flight; after that the upload is answered 201 before the database is closed
  and the drain ends cleanly, yet the published snapshot does not hold the file:
  \<open>background.Wait\<close> does not wait for the requests, only \<open><-shutdown\<close> after it does.
\<close>

theorem shutdown_can_miss_an_upload:
  "faults (w_conn ex_w2) = [] \<and> sqlFaults (ps_node (w_pub ex_w2)) = [] \<and> io_faults (disk (ps_node (w_pub ex_w2))) = []
   \<and> (\<exists>q p. (process_act ex_sqlite ex_wconf ex_s3_pf ex_store)\<^sup>*\<^sup>* (process_start ex_w2) q
        \<and> pr_loop q = Ended \<and> published (ps_pub (pub_of q)) = h_changes (ps_handle (pub_of q))
        \<and> (\<exists>t \<in> set (w_threads (pr_writer q)). \<not> answered t)
        \<and> (process_act ex_sqlite ex_wconf ex_s3_pf ex_store)\<^sup>*\<^sup>* q p
        \<and> pr_main p = Closed \<and> pr_drain p = Drained True
        \<and> (\<exists>t \<in> set (w_threads (pr_writer p)). created ''b.txt'' t)
        \<and> (\<exists>x \<in> set (files (data_of (pr_writer p))). live x \<and> DisplayName x = ''b.txt'')
        \<and> (\<exists>d. s3_look map_of ex_store (bucket_of (pr_writer p)) snapshotKey = Some (vacuum_image ex_sqlite (file_of d))
             \<and> ''b.txt'' \<notin> DisplayName ` set (files d)))"
proof -
  have "\<not> answered (start_thread ex_cfg ex_s3_pf EpUpload ex_late)" by code_simp
  then have "\<exists>t \<in> set (w_threads (pr_writer ex_flushed)). \<not> answered t" by (simp add: ex_flushed_facts)
  moreover have "\<exists>d. s3_look map_of ex_store (bucket_of (pr_writer ex_stopped)) snapshotKey = Some (vacuum_image ex_sqlite (file_of d))
      \<and> ''b.txt'' \<notin> DisplayName ` set (files d)"
    using ex_final_run(5)
    by (intro exI [of _ ex_w1_tables]) (simp add: ex_stopped_facts ex_sqlite_def ex_w1_tables_def ex_tables_def)
  ultimately show ?thesis
    using ex_flushed_reached ex_stopped_reached ex_flushed_facts ex_final_run(3,4) ex_w2_quiet
    by (intro conjI exI [of _ ex_flushed] exI [of _ ex_stopped]) (simp_all add: ex_stopped_facts)
qed

end
