(* ===== verification/HandleSwap.thy ===== *)
theory HandleSwap
  imports Snapshot
begin

text \<open>
  The live database handle of \<open>server/db.go\<close>. A query asks \<open>db\<close> for it and may start later; a replica
  replaces it with every new snapshot, and a timer closes the old one after a grace period. \<open>dbRef\<close> is
  an atomic pointer and \<open>sql.DB.Close\<close> lets the queries that have started finish, so the order of the
  calls is all there is to their interleaving. Handles are values of any type.
\<close>

section \<open>Operations\<close>

definition dbSwapGracePeriod :: int where
  "dbSwapGracePeriod = 60 * 10 ^ 9"

text \<open>\<open>timers\<close>: the calls \<open>time.AfterFunc\<close> has still to make; \<open>shut\<close>: the handles that are closed.\<close>

record 'h pool =
  dbRef :: "'h option"
  timers :: "('h \<times> int) list"
  shut :: "'h list"

definition replaceDatabase :: "'h \<Rightarrow> int \<Rightarrow> 'h pool \<Rightarrow> 'h pool" where
  "replaceDatabase nxt now p =
     (case dbRef p of
        None \<Rightarrow> p\<lparr>dbRef := Some nxt\<rparr>
      | Some old \<Rightarrow> p\<lparr>dbRef := Some nxt, timers := timers p @ [(old, now + dbSwapGracePeriod)]\<rparr>)"

definition closeDatabase :: "'h pool \<Rightarrow> 'h pool" where
  "closeDatabase p =
     (case dbRef p of
        None \<Rightarrow> p
      | Some h \<Rightarrow> p\<lparr>dbRef := None, shut := h # shut p\<rparr>)"

text \<open>A timer that is due: \<open>old.Close()\<close>.\<close>

definition fire :: "nat \<Rightarrow> 'h pool \<Rightarrow> 'h pool" where
  "fire i p = p\<lparr>timers := take i (timers p) @ drop (Suc i) (timers p), shut := fst (timers p ! i) # shut p\<rparr>"

text \<open>What a statement gets that starts on \<open>h\<close>.\<close>

definition begin_query :: "'h \<Rightarrow> 'h pool \<Rightarrow> unit result" where
  "begin_query h p = (if h \<in> set (shut p) then Inl ''sql: database is closed'' else Inr ())"

section \<open>Any order of calls\<close>

text \<open>
  \<open>handed\<close>: the handles that callers hold, with the moment they asked. The replica's loop has ended
  when the database is closed for good, so a swap finds a live handle.
\<close>

record 'h pool_sys =
  sy_pool :: "'h pool"
  handed :: "('h \<times> int) list"
  sy_now :: int

definition known :: "'h pool_sys \<Rightarrow> 'h list" where
  "known s = (case dbRef (sy_pool s) of None \<Rightarrow> [] | Some h \<Rightarrow> [h])
     @ map fst (timers (sy_pool s)) @ shut (sy_pool s) @ map fst (handed s)"

inductive pool_step :: "'h pool_sys \<Rightarrow> 'h pool_sys \<Rightarrow> bool" where
  later: "sy_now s \<le> t \<Longrightarrow> pool_step s (s\<lparr>sy_now := t\<rparr>)"
| asked: "dbRef (sy_pool s) = Some h \<Longrightarrow> pool_step s (s\<lparr>handed := (h, sy_now s) # handed s\<rparr>)"
| swapped: "dbRef (sy_pool s) \<noteq> None \<Longrightarrow> h \<notin> set (known s) \<Longrightarrow> pool_step s (s\<lparr>sy_pool := replaceDatabase h (sy_now s) (sy_pool s)\<rparr>)"
| fired: "i < length (timers (sy_pool s)) \<Longrightarrow> snd (timers (sy_pool s) ! i) \<le> sy_now s \<Longrightarrow>
    pool_step s (s\<lparr>sy_pool := fire i (sy_pool s)\<rparr>)"
| ended: "pool_step s (s\<lparr>sy_pool := closeDatabase (sy_pool s)\<rparr>)"

definition pool_start :: "'h \<Rightarrow> int \<Rightarrow> 'h pool_sys" where
  "pool_start h now = \<lparr>sy_pool = \<lparr>dbRef = Some h, timers = [], shut = []\<rparr>, handed = [], sy_now = now\<rparr>"

section \<open>No handle is closed under a query that is about to start\<close>

text \<open>
  A handle that was handed out at \<open>t\<close> is live, has a timer no earlier than \<open>t\<close> plus the grace period,
  or the grace period is over, as long as the process has not closed the database for good.
\<close>

definition held_ok :: "'h pool_sys \<Rightarrow> 'h \<Rightarrow> int \<Rightarrow> bool" where
  "held_ok s h t \<longleftrightarrow> t \<le> sy_now s
     \<and> (\<forall>d. (h, d) \<in> set (timers (sy_pool s)) \<longrightarrow> t + dbSwapGracePeriod \<le> d)
     \<and> (h \<in> set (shut (sy_pool s)) \<longrightarrow> t + dbSwapGracePeriod \<le> sy_now s)"

definition live_ok :: "'h pool_sys \<Rightarrow> bool" where
  "live_ok s \<longleftrightarrow> (\<forall>l. dbRef (sy_pool s) = Some l \<longrightarrow>
     l \<notin> set (shut (sy_pool s)) \<and> l \<notin> fst ` set (timers (sy_pool s)))"

definition pool_ok :: "'h pool_sys \<Rightarrow> bool" where
  "pool_ok s \<longleftrightarrow> dbRef (sy_pool s) = None \<or> live_ok s \<and> (\<forall>(h, t) \<in> set (handed s). held_ok s h t)"

lemma pool_okI: "live_ok s \<Longrightarrow> (\<And>h t. (h, t) \<in> set (handed s) \<Longrightarrow> held_ok s h t) \<Longrightarrow> pool_ok s"
  by (auto simp: pool_ok_def)

lemma pool_ok_step:
  assumes "pool_step s s1" and "pool_ok s"
  shows "pool_ok s1"
  using assms(1)
proof (cases rule: pool_step.cases)
  case (later t)
  have "held_ok s h u \<Longrightarrow> held_ok s1 h u" for h u using later by (auto simp: held_ok_def)
  with later assms(2) show ?thesis by (auto simp: pool_ok_def live_ok_def)
next
  case (asked h)
  then have ok: "live_ok s" "\<And>k t. (k, t) \<in> set (handed s) \<Longrightarrow> held_ok s k t"
    using assms(2) by (auto simp: pool_ok_def)
  have same: "held_ok s1 k t = held_ok s k t" for k t using asked by (simp add: held_ok_def)
  have "held_ok s h (sy_now s)" using ok(1) asked(2) by (force simp: held_ok_def live_ok_def)
  with asked ok same show ?thesis by (intro pool_okI) (auto simp: live_ok_def)
next
  case (swapped h)
  then obtain old where old: "dbRef (sy_pool s) = Some old" by blast
  then have ok: "live_ok s" "\<And>k t. (k, t) \<in> set (handed s) \<Longrightarrow> held_ok s k t"
    using assms(2) by (auto simp: pool_ok_def)
  have s1: "sy_pool s1 = (sy_pool s)\<lparr>dbRef := Some h, timers := timers (sy_pool s) @ [(old, sy_now s + dbSwapGracePeriod)]\<rparr>"
    "handed s1 = handed s" "sy_now s1 = sy_now s"
    using swapped old by (simp_all add: replaceDatabase_def)
  have "live_ok s1" using swapped(3) old by (auto simp: live_ok_def s1 known_def)
  moreover have "held_ok s1 k t" if "(k, t) \<in> set (handed s1)" for k t
    using ok(2) [of k t] that by (auto simp: held_ok_def s1)
  ultimately show ?thesis by (rule pool_okI)
next
  case (fired i)
  obtain h d where hd: "timers (sy_pool s) ! i = (h, d)" by (cases "timers (sy_pool s) ! i")
  then have timer: "(h, d) \<in> set (timers (sy_pool s))" using fired(2) by (metis nth_mem)
  have s1: "set (timers (sy_pool s1)) \<subseteq> set (timers (sy_pool s))" "shut (sy_pool s1) = h # shut (sy_pool s)"
    "dbRef (sy_pool s1) = dbRef (sy_pool s)" "handed s1 = handed s" "sy_now s1 = sy_now s"
    using fired(1) hd by (auto simp: fire_def dest: in_set_takeD in_set_dropD)
  have due: "d \<le> sy_now s" using fired(3) hd by simp
  have "held_ok s k t \<Longrightarrow> held_ok s1 k t" for k t
    using timer due s1 by (auto simp: held_ok_def)
  moreover have "live_ok s \<Longrightarrow> live_ok s1" using timer s1 by (force simp: live_ok_def)
  ultimately show ?thesis using assms(2) s1(3,4) by (auto simp: pool_ok_def)
next
  case ended
  then show ?thesis by (simp add: pool_ok_def closeDatabase_def split: option.splits)
qed

lemma pool_ok_steps:
  assumes "pool_step\<^sup>*\<^sup>* (pool_start h now) s"
  shows "pool_ok s"
  using assms
proof (induction rule: rtranclp_induct)
  case base
  show ?case by (simp add: pool_ok_def live_ok_def pool_start_def)
next
  case (step y z)
  then show ?case using pool_ok_step by blast
qed

section \<open>The grace period\<close>

text \<open>
  C22. A query is never cut off by a new snapshot. However often the handle is replaced, a caller that
  got its handle less than \<open>dbSwapGracePeriod\<close> ago can start its query on it, unless the process has
  closed the database for good; and the live handle itself is always open.
\<close>

theorem swapped_handle_stays_usable:
  assumes "pool_step\<^sup>*\<^sup>* (pool_start h0 now0) s" and "dbRef (sy_pool s) \<noteq> None"
    and "(h, t) \<in> set (handed s)" and "sy_now s < t + dbSwapGracePeriod"
  shows "begin_query h (sy_pool s) = Inr () \<and> (\<forall>l. dbRef (sy_pool s) = Some l \<longrightarrow> begin_query l (sy_pool s) = Inr ())"
proof -
  have "live_ok s" "held_ok s h t" using pool_ok_steps [OF assms(1)] assms(2,3) by (auto simp: pool_ok_def)
  with assms(4) show ?thesis by (auto simp: held_ok_def live_ok_def begin_query_def)
qed

text \<open>Handle 0 is handed out at 5, replaced at 6, and used at 7; at a minute past 6 it is closed.\<close>

definition ex_swapped :: "nat pool_sys" where
  "ex_swapped =
     \<lparr>sy_pool = replaceDatabase 1 6 \<lparr>dbRef = Some 0, timers = [], shut = []\<rparr>, handed = [(0, 5)], sy_now = 7\<rparr>"

lemma ex_swapped_reached: "pool_step\<^sup>*\<^sup>* (pool_start 0 5) ex_swapped"
proof -
  let ?s = "pool_start (0::nat) 5"
  have "pool_step ?s (?s\<lparr>handed := [(0, 5)]\<rparr>)"
    using pool_step.asked [of ?s 0] by (simp add: pool_start_def)
  moreover have "pool_step (?s\<lparr>handed := [(0, 5)]\<rparr>) (?s\<lparr>handed := [(0, 5)], sy_now := 6\<rparr>)"
    using pool_step.later [of "?s\<lparr>handed := [(0, 5)]\<rparr>" 6] by (simp add: pool_start_def)
  moreover have "pool_step (?s\<lparr>handed := [(0, 5)], sy_now := 6\<rparr>) (ex_swapped\<lparr>sy_now := 6\<rparr>)"
    using pool_step.swapped [of "?s\<lparr>handed := [(0, 5)], sy_now := 6\<rparr>" 1]
    by (simp add: pool_start_def known_def ex_swapped_def)
  moreover have "pool_step (ex_swapped\<lparr>sy_now := 6\<rparr>) ex_swapped"
    using pool_step.later [of "ex_swapped\<lparr>sy_now := 6\<rparr>" 7] by (simp add: ex_swapped_def)
  ultimately show ?thesis by (meson converse_rtranclp_into_rtranclp r_into_rtranclp)
qed

lemma swapped_handle_stays_usable_witness:
  "begin_query 0 (sy_pool ex_swapped) = Inr () \<and> begin_query 0 (fire 0 (sy_pool ex_swapped)) \<noteq> Inr ()"
proof
  show "begin_query 0 (sy_pool ex_swapped) = Inr ()"
    using swapped_handle_stays_usable [OF ex_swapped_reached, of 0 5]
    by (simp add: ex_swapped_def replaceDatabase_def dbSwapGracePeriod_def)
  show "begin_query 0 (fire 0 (sy_pool ex_swapped)) \<noteq> Inr ()" by code_simp
qed

end
