(* ===== verification/Spec2Isabelle.thy ===== *)
theory Spec2Isabelle
  imports Refinement UploadRun Downloads Cleanup Examples Search StorageS3 Login Startup SnapshotProperties
    ReplicationProperties StoreProperties ServingProperties AccessProperties Races
    DeploymentProperties ShutdownProperties HandleSwap
begin

text \<open>
  A verification development for the file server under \<open>src/server\<close>: an HTTP service that stores
  uploaded files in a directory or an S3 bucket, keeps one record per file in an SQLite database,
  and publishes that database through the bucket to read-only replicas.

  \<^bold>\<open>The program.\<close> An upload reserves a record with a fresh slug, streams the bytes into the
  blob store under a key derived from the slug, finalizes the record and points the requested tags
  at it, retiring the live record of the same name (\<open>upload_file.go\<close>, \<open>shortlink.go\<close>, \<open>tag.go\<close>).
  Downloads find a record by slug, name or tag and serve its blob (\<open>serve_file.go\<close>, \<open>serve_tag.go\<close>).
  Every mutating route is guarded by a credential, a permission and the read-only switch (\<open>token.go\<close>,
  \<open>readonly.go\<close>, \<open>session.go\<close>, \<open>roles.go\<close>); sessions come from the command line (\<open>mint.go\<close>) or from an
  OIDC login (\<open>oidc.go\<close>, \<open>auth_handlers.go\<close>). At start-up the configuration is read (\<open>main.go\<close>),
  the database is opened, restored or refused (\<open>db.go\<close>, \<open>restore_db.go\<close>), and a writer starts to
  publish (\<open>db_publisher.go\<close>) or a replica to follow (\<open>db_replica.go\<close>). Writer, publisher and
  replicas share one bucket, which is all that connects them.

  \<^bold>\<open>Values and failures.\<close> Strings are lists of bytes. A call that returns a value and an error is a
  sum, a fatal exit an error value. Every access to the outside takes its failure from a script in
  the state: \<open>faults\<close> for SQL statements and random reads of the handlers, \<open>io_faults\<close> for system
  calls, \<open>sqlFaults\<close> for the statements of start-up and publishing. The theorems hold for all
  scripts, hence for a failure at any call. Times, random bytes and clocks are fields of the state
  or arguments. \<open>int64\<close> wraps where the code computes on 64-bit integers; the generation of a
  replica is a word.

  \<^bold>\<open>Theories, in the order of the code.\<close>
  \<^item> \<open>Prelude\<close>, \<open>GoText\<close>, \<open>GoPath\<close>, \<open>Base64\<close>: Go's strings, paths and encodings. \<open>Strconv\<close>:
    \<open>parse_size.go\<close>. \<open>Effects\<close>: the locale \<open>effect\<close>, by which a relation is followed through
    state-passing code.
  \<^item> \<open>TagName\<close> and \<open>TagRows\<close>: \<open>tag.go\<close>. \<open>ShortLink\<close>: \<open>shortlink.go\<close> over the tables and transactions
    of \<open>Database\<close>. \<open>Writes\<close> is the abstract machine of the permitted writes to the tables with its
    invariants; \<open>RecordLaws\<close> shows that the record operations refine it. \<open>Search\<close>: the meaning of the
    search pattern and of paging.
  \<^item> \<open>Storage\<close>: the interface of \<open>storage.go\<close> with its capped reader, and the locale \<open>blob_store\<close> of its
    laws. \<open>StorageFs\<close> and \<open>StorageS3\<close>: the two backends, each proved to keep these laws.
  \<^item> \<open>Permissions\<close>, \<open>Roles\<close>, \<open>Session\<close>, \<open>Http\<close>, \<open>Auth\<close>: who may do what. \<open>Oidc\<close>, \<open>Login\<close>: the login.
  \<^item> \<open>Handlers\<close>, \<open>Serve\<close>, \<open>Upload\<close>, \<open>Router\<close>: one definition per handler, and the routes with their
    middlewares. A handler that calls more than once into the shared state is a machine whose
    states are the points between the calls, \<open>upload_step\<close> for the upload.
  \<^item> \<open>Interleaving\<close>: threads over the shared state, scheduled in any order, and the reachable states.
    \<open>Availability\<close> states the invariant that ties the tables to the blobs for any \<open>served_store\<close>, the
    locale that extends \<open>blob_store\<close> to a platform, and \<open>ServedSystem\<close>, \<open>SystemInvariant\<close> prove it.
    \<open>Reading\<close> (locale \<open>reading_frame\<close>) and \<open>StoreFrame\<close> (locale \<open>store_frame\<close>) say what the reading
    routes and whole steps leave alone, \<open>Finished\<close> that a finished record stays or is deleted.
    \<open>Refinement\<close>: every step of every handler refines the machine of \<open>Writes\<close>. \<open>UploadSpec\<close>,
    \<open>UploadRun\<close>: the abstract contract of one upload. \<open>Faults\<close>: what a script without failures, and
    one with nothing else, makes of every operation and handler. \<open>Downloads\<close>: the three download routes
    when nothing fails; \<open>Cleanup\<close> (locale \<open>tidy_store\<close>): what a failed upload then leaves behind.
    \<open>ServedS3\<close>: the same system over a bucket.
  \<^item> \<open>Config\<close>: the start of \<open>main\<close>. \<open>Snapshot\<close>, \<open>SnapshotLaws\<close>: database files, snapshots and their
    download; what a writer's start-up statements change, the change of the journal mode included, goes
    to the file of its handle (\<open>h_write\<close>). \<open>Boot\<close>, \<open>BootLaws\<close>: the boot decision, the restore command, the refresh. \<open>Publisher\<close>,
    \<open>PublisherRun\<close>: publishing beside a database that goes on changing; \<open>pub_act\<close> are the publisher's
    own steps. \<open>Startup\<close>: the start of the server and the life of a replica, with its own steps
    \<open>replica_act\<close>. \<open>HandleSwap\<close>: the live handle of \<open>db.go\<close> and the timers that close replaced ones.
  \<^item> \<open>Writer\<close>: the requests of \<open>Interleaving\<close> and the publisher over one database and one bucket.
    \<open>Deployment\<close>: a writer and any number of replicas, any of which may be stopped and started again on
    its volume (\<open>writer_life\<close>, \<open>reopened\<close>); its invariant says that the snapshot in the
    bucket, and with it what every replica serves, is the writer's database at some earlier moment.
    \<open>Shutdown\<close>: the goroutines at the end of \<open>main\<close>, with the order in which they are joined, and the
    requests that outlive a drain that timed out; \<open>process_act\<close> are the process's own steps.
  \<^item> \<open>Examples\<close>, \<open>SnapshotExamples\<close>, \<open>DeploymentExamples\<close>: a small deployment that runs, for the
    witnesses.

  \<^bold>\<open>Properties.\<close> They stand here, for the served system as a whole, and in \<open>ServingProperties\<close>,
  \<open>StoreProperties\<close>, \<open>AccessProperties\<close>, \<open>SnapshotProperties\<close>, \<open>ReplicationProperties\<close>,
  \<open>DeploymentProperties\<close>, \<open>ShutdownProperties\<close>, \<open>HandleSwap\<close> and \<open>Races\<close>. Each follows from the lemmas
  of its components. The races are runs of the model in which the checks of a handler, made in calls
  of their own, do not prevent what they look for; and in \<open>ShutdownProperties\<close> one run shows that the
  final publish can come before the last request.

  \<^bold>\<open>Parameters.\<close> Code that is not part of the repository is an argument: the JWT library
  (\<open>jwt_lib\<close>), the OIDC, OAuth2 and JSON libraries (\<open>oidc_lib\<close>), the S3 client and its transfer
  manager (\<open>s3_client\<close>), SQLite's files and how statements rewrite them (\<open>sqlite\<close>), and inside \<open>platform\<close> the MIME tables, case
  folding beyond ASCII and quoting. Where a property needs more than a type, the hypothesis
  \<open>jwt_documented\<close>, \<open>state_documented\<close>, \<open>s3_documented\<close>, \<open>s3_atomic\<close> (an object is written at once or
  not at all) or \<open>sqlite_documented\<close> says what the documentation promises, and the examples give an
  instance that keeps it; \<open>services_documented\<close> collects those of a deployment.

  \<^bold>\<open>Bounds.\<close> No definition runs on fuel. Loops are structural or come with a measure: copying from a
  reader shrinks what is left to read, an upload has a rank of at most eleven. The copying buffers
  have size \<open>Suc k\<close> for an arbitrary \<open>k\<close>; the examples use small ones.

  \<^bold>\<open>Grain.\<close> A transaction is atomic, as SQLite makes it. Beyond that a few sequences of calls are one
  step: the queries of \<open>uploadTagPermissions\<close>, the update and the lookup of \<open>finalizeUpload\<close>, the two
  statements of \<open>abortUpload\<close>, the lookups of \<open>add_tags_check\<close>, each query of a reading route with the
  blob it opens, the copy of one blob, and the HEAD and the GETs of one download of a snapshot against
  the writer's publish. Requests run in any order between these steps, not inside them. The two scripts of \<open>CREATE\<close>
  statements count as one statement.

  \<^bold>\<open>Not modelled.\<close> The web portal, a separate application that is served as static files; log lines
  and usage texts; the parsing of requests and the matching of paths by the router library, and of
  the HTTP server itself all but the life \<open>Shutdown\<close> gives it; byte ranges and preconditions, which
  \<open>http.ServeContent\<close> applies to the content; patterns of \<open>LIKE\<close> beyond SQLite's length limit, and names
  with a NUL byte or invalid UTF-8 in them; the length of the polling interval and its jitter, so a
  round of a replica may come at any time; the deadlines of contexts, which appear as failures of the
  calls they bound. A writer of a \<open>Deployment\<close> starts again with the configuration it had, and what
  SQLite recovers after a crash is the hypothesis of \<open>writer_life\<close>.
\<close>

section \<open>A run to look at\<close>

text \<open>One upload, scheduled to its end.\<close>

definition ex_schedule :: "event list" where
  "ex_schedule = Arrive EpUpload ex_upload # replicate 9 (Run 0)"

definition ex_state :: "fsys system" where
  "ex_state = the (play ex_cfg ex_pf ex_schedule (ex_srv, []))"

definition ex_file :: FileRecord where
  "ex_file = hd (files (tables_of (fst ex_state)))"

lemma ex_state_facts:
  "reachable ex_cfg ex_pf (ex_srv, []) ex_state"
  "ex_file \<in> set (files (tables_of (fst ex_state)))" "live ex_file"
proof -
  have "case play ex_cfg ex_pf ex_schedule (ex_srv, []) of None \<Rightarrow> False | Some s \<Rightarrow>
      files (tables_of (fst s)) \<noteq> [] \<and> live (hd (files (tables_of (fst s))))" by code_simp
  note run = play_outcome [OF this, folded ex_state_def]
  then show "reachable ex_cfg ex_pf (ex_srv, []) ex_state"
    "ex_file \<in> set (files (tables_of (fst ex_state)))" "live ex_file"
    by (simp_all add: ex_file_def)
qed

lemma ex_srv_wf:
  "db_wf (tables_of ex_srv)" "live_stored (tables_of ex_srv) b"
  "fs_look d (store ex_srv) k = None"
  using db_wf_init
  by (simp_all add: ex_srv_def fs_look_def file_at_def live_stored_def tables_init_def)

section \<open>Reachable states\<close>

text \<open>
  C1. The bytes of every live file can be read. Whatever requests arrive, however their steps
  interleave and wherever the database or the file system fails, each live record of a reachable
  state has a blob under its key, of the size the record says.
\<close>

theorem live_files_are_stored:
  assumes "reachable cfg (fs_platform dir pf) (srv, []) (srv1, ts)"
    and "db_wf (tables_of srv)" and "live_stored (tables_of srv) (fs_look dir (store srv))"
    and "x \<in> set (files (tables_of srv1))" and "live x"
  shows "\<exists>b. fs_look dir (store srv1) (StorageKey x) = Some b \<and> int (length b) = Size x"
  using served_fs.sys_ok_reachable [OF assms(1-3)] assms(4,5)
  by (auto simp: sys_ok_def live_stored_def has_blob_def)

lemma live_files_are_stored_witness:
  "\<exists>b. fs_look ''/d'' (store (fst ex_state)) (StorageKey ex_file) = Some b \<and> int (length b) = Size ex_file"
  by (rule live_files_are_stored [of ex_cfg "''/d''" ex_pf ex_srv "fst ex_state" "snd ex_state"])
    (simp_all add: ex_used_facts(2) ex_state_facts ex_srv_wf)

text \<open>
  C5. The history of the record table, over any store: between two states of a run no row is lost,
  none changes its slug, name or key, no tombstone is lifted and no finished record is pending again;
  slugs and tag names stay unique and every tag points to a row.
\<close>

theorem records_are_permanent:
  assumes "reachable cfg pf (srv, []) s1" and "reachable cfg pf s1 s2" and "db_wf (tables_of srv)"
  shows "db_wf (tables_of (fst s2)) \<and> history (tables_of (fst s1)) (tables_of (fst s2))"
proof -
  have "writes (\<lambda>_. True) (tables_of srv) (tables_of (fst s1))"
    using reachable_ran [OF assms(1)] by (simp add: sys_ran_def)
  moreover have "writes (\<lambda>_. True) (tables_of (fst s1)) (tables_of (fst s2))"
    using reachable_between [OF assms(1,2)] .
  ultimately show ?thesis using assms(3) writes_wf writes_history by blast
qed

lemma records_are_permanent_witness:
  "db_wf (tables_of (fst ex_state)) \<and> history (tables_of ex_srv) (tables_of (fst ex_state))"
  using records_are_permanent [OF reachable.start ex_state_facts(1) ex_srv_wf(1)] by simp

section \<open>Uploads\<close>

text \<open>
  C3. What a 201 means. One upload that runs alone and answers 201 has added one live record with a
  slug never used before and the name of the file part, has stored its bytes, within the limit, has
  retired exactly the record it supersedes (none in append-only mode), has pointed exactly the
  requested tags at the new file, and has touched no other blob; the response describes that record.
\<close>

theorem upload_creates_the_file:
  assumes "uploadFileHandler cfg (fs_platform dir pf) r srv = (resp, srv1)"
    and "db_wf (tables_of srv)" and "status resp = 201"
  shows "\<exists>job. upload_start cfg (fs_platform dir pf) r = (if appendOnly cfg then UReserve job else UCheck job)
    \<and> upload_succeeded \<lparr>e_cfg = cfg, e_req = r, e_job = job, e_tables = tables_of srv,
         e_blobs = fs_look dir (store srv)\<rparr> resp (tables_of srv1) (fs_look dir (store srv1))"
  using served_fs.uploadFileHandler_ends [OF assms(1,2)] assms(3) by auto

lemma ex_upload_ends:
  "uploadFileHandler ex_cfg (fs_platform ''/d'' ex_pf) ex_upload ex_srv =
     (fst (uploadFileHandler ex_cfg ex_pf ex_upload ex_srv), ex_used)"
  by (simp add: ex_used_def ex_used_facts(2))

lemma upload_creates_the_file_witness:
  "\<exists>job. upload_start ex_cfg ex_pf ex_upload = UCheck job
    \<and> upload_succeeded \<lparr>e_cfg = ex_cfg, e_req = ex_upload, e_job = job, e_tables = tables_of ex_srv,
         e_blobs = fs_look ''/d'' (store ex_srv)\<rparr>
         (fst (uploadFileHandler ex_cfg ex_pf ex_upload ex_srv)) (tables_of ex_used)
         (fs_look ''/d'' (store ex_used))"
proof -
  have "status (fst (uploadFileHandler ex_cfg ex_pf ex_upload ex_srv)) = 201" by code_simp
  from upload_creates_the_file [OF ex_upload_ends ex_srv_wf(1) this]
  show ?thesis by (simp add: ex_used_facts(2) ex_cfg_def)
qed

text \<open>
  C18. A refused upload is harmless: after a 400, 403 or 413 the live records, the tags and the blobs
  of every file there was are what they were.
\<close>

theorem refused_upload_is_harmless:
  assumes "uploadFileHandler cfg (fs_platform dir pf) r srv = (resp, srv1)"
    and "db_wf (tables_of srv)" and "status resp \<in> {400, 403, 413}"
  shows "filter live (files (tables_of srv1)) = filter live (files (tables_of srv))
    \<and> tags (tables_of srv1) = tags (tables_of srv)
    \<and> (\<forall>x \<in> set (files (tables_of srv)).
         fs_look dir (store srv1) (StorageKey x) = fs_look dir (store srv) (StorageKey x))"
  using served_fs.uploadFileHandler_ends [OF assms(1,2)] assms(2,3) slug_in
  by (auto simp: unharmed_def db_wf_def)

text \<open>The same upload by a caller with another set of permissions, when the name is taken.\<close>

definition ex_again :: "string list \<Rightarrow> response \<times> fsys server" where
  "ex_again perms = uploadFileHandler ex_cfg ex_pf (ex_plain perms) ex_used"

lemma ex_again_run:
  "uploadFileHandler ex_cfg (fs_platform ''/d'' ex_pf) (ex_plain ps) ex_used = (fst (ex_again ps), snd (ex_again ps))"
  by (simp add: ex_again_def ex_used_facts(2))

lemma refused_upload_is_harmless_witness:
  "filter live (files (tables_of (snd (ex_again [permFileCreate])))) = filter live (files (tables_of ex_used))"
proof -
  have "status (fst (ex_again [permFileCreate])) = 403" by code_simp
  then show ?thesis
    using refused_upload_is_harmless [OF ex_again_run ex_used_sound(1)] by simp
qed

text \<open>
  C20. A failed upload leaves nothing. On a server where no call fails, an upload that runs alone and
  is not answered 201, because it is refused, too large, or its body breaks off, leaves the tables and
  the blobs as it found them, or adds one row: a tombstone under a slug nobody had, no longer
  pending and without a blob; every other blob, record and tag is what it was.
\<close>

theorem failed_upload_leaves_nothing:
  assumes "uploadFileHandler cfg (fs_platform dir pf) r srv = (resp, srv1)" and "db_wf (tables_of srv)"
    and "status resp \<noteq> 201" and "healthy srv"
  shows "tables_of srv1 = tables_of srv \<and> fs_look dir (store srv1) = fs_look dir (store srv)
    \<or> (\<exists>x. Slug x \<notin> set (slugs (tables_of srv)) \<and> Deleted x \<and> \<not> Pending x
         \<and> tables_of srv1 = (tables_of srv)\<lparr>files := files (tables_of srv) @ [x]\<rparr>
         \<and> StorageKey x = storageKeyForSlug (Slug x) \<and> fs_look dir (store srv1) (StorageKey x) = None
         \<and> (\<forall>s. slug_shape s \<longrightarrow> s \<noteq> Slug x \<longrightarrow>
              fs_look dir (store srv1) (storageKeyForSlug s) = fs_look dir (store srv) (storageKeyForSlug s)))"
proof -
  obtain job where "left_clean \<lparr>e_cfg = cfg, e_req = r, e_job = job, e_tables = tables_of srv,
      e_blobs = fs_look dir (store srv)\<rparr> (tables_of srv1) (fs_look dir (store srv1))"
    using tidy_fs.uploadFileHandler_clean [OF assms(1-3)] assms(4) unfolding healthy_def by blast
  then show ?thesis
  proof (cases rule: left_clean_cases)
    case (2 rec)
    then show ?thesis
      by (intro disjI2 exI [of _ "rec\<lparr>Deleted := True, Pending := False\<rparr>"])
        (simp add: fresh_def slug_record_def with_file_def blobs_besides_def)
  qed simp
qed

lemma failed_upload_leaves_nothing_witness:
  "\<exists>x. Deleted x \<and> \<not> Pending x
     \<and> tables_of (snd (ex_again [permFileCreate, permFileDelete])) = (tables_of ex_used)\<lparr>files := files (tables_of ex_used) @ [x]\<rparr>
     \<and> fs_look ''/d'' (store (snd (ex_again [permFileCreate, permFileDelete]))) (StorageKey x) = None"
proof -
  let ?s = "snd (ex_again [permFileCreate, permFileDelete])"
  have "status (fst (ex_again [permFileCreate, permFileDelete])) \<noteq> 201
      \<and> length (files (tables_of ?s)) = Suc (length (files (tables_of ex_used)))" by code_simp
  then have end1: "status (fst (ex_again [permFileCreate, permFileDelete])) \<noteq> 201" "tables_of ?s \<noteq> tables_of ex_used"
    by (blast, metis n_not_Suc_n)
  from failed_upload_leaves_nothing [OF ex_again_run ex_used_sound(1) end1(1) ex_used_facts(1)] end1(2)
  show ?thesis by blast
qed

text \<open>
  C16. Without \<open>file:delete\<close> an upload that runs alone takes no live record away, whatever fails in
  it and however it ends. (Among other requests it can: the permission is checked in a call before the
  one that reserves, and \<open>Races\<close> has the run.)
\<close>

theorem upload_needs_delete_permission:
  assumes "uploadFileHandler cfg (fs_platform dir pf) r srv = (resp, srv1)"
    and "db_wf (tables_of srv)" and "\<not> hasPermission r permFileDelete"
    and "x \<in> set (files (tables_of srv))" and "live x"
  shows "x \<in> set (files (tables_of srv1))"
  using served_fs.upload_spares [OF assms(1,2)] assms(3-5) by (auto simp: spared_def)

lemma ex_permissions:
  "\<not> hasPermission (ex_plain [permFileCreate]) permFileDelete"
  "\<not> hasPermission (ex_plain [permFileCreate, permFileDelete]) permTagRemove"
  by code_simp+

lemma upload_needs_delete_permission_witness:
  "hd (files (tables_of ex_used)) \<in> set (files (tables_of (snd (ex_again [permFileCreate]))))"
proof -
  have "files (tables_of ex_used) \<noteq> []" "live (hd (files (tables_of ex_used)))" by code_simp+
  then show ?thesis
    by (intro upload_needs_delete_permission [OF ex_again_run ex_used_sound(1) ex_permissions(1)]) simp_all
qed

text \<open>
  C17. Without \<open>tag:remove\<close> an upload that runs alone takes no tag from the file it points to,
  whatever fails in it and however it ends. (The check and \<open>applyUploadTags\<close> are calls of their own, so
  a tag that another request attaches between them is not covered.)
\<close>

theorem upload_needs_tag_permission:
  assumes "uploadFileHandler cfg (fs_platform dir pf) r srv = (resp, srv1)"
    and "db_wf (tables_of srv)" and "\<not> hasPermission r permTagRemove"
    and "tag_owner (tables_of srv) key = Some slug"
  shows "tag_owner (tables_of srv1) key = Some slug"
  using served_fs.upload_spares [OF assms(1,2)] assms(3,4) by (cases key) (auto simp: spared_def)

lemma upload_needs_tag_permission_witness:
  "tag_owner (tables_of (snd (ex_again [permFileCreate, permFileDelete]))) (''x'', ''1'') = Some ''DDDDD''"
proof -
  have "tag_owner (tables_of ex_used) (''x'', ''1'') = Some ''DDDDD''" by code_simp
  then show ?thesis
    by (rule upload_needs_tag_permission [OF ex_again_run ex_used_sound(1) ex_permissions(2)])
qed

section \<open>Access\<close>

text \<open>
  C8. Only an authorized writer changes data. If a request to any route leaves other tables or other
  blobs than it found, the route asks for a permission, the presented credential carries it, the
  instance is not read-only and the request is not a preflight.
\<close>

theorem data_changes_only_with_permission:
  assumes "serve cfg (fs_platform dir pf) csp ep r srv = (resp, srv1)" and "db_wf (tables_of srv)"
    and "tables_of srv1 \<noteq> tables_of srv \<or> fs_look dir (store srv1) \<noteq> fs_look dir (store srv)"
  shows "\<exists>perm. route_permission ep = Some perm \<and> authorized cfg (fs_platform dir pf) r perm
    \<and> \<not> readOnly cfg \<and> req_method r \<noteq> ''OPTIONS''"
proof -
  have changed: "\<not> same_data (fs_look dir) srv srv1" using assms(3) by (auto simp: same_data_def)
  then have "srv1 \<noteq> srv" by (auto simp: same_data_def)
  with serve_cases [OF assms(1)] obtain resp0
    where run: "route cfg (fs_platform dir pf) ep r srv = (resp0, srv1)" by auto
  have meth: "req_method r \<noteq> ''OPTIONS''"
    using assms(1) \<open>srv1 \<noteq> srv\<close> by (auto simp: serve_def corsMiddleware_def)
  have "\<not> reading ep"
    using served_fs.rd.route_reads [where ep = ep and cfg = cfg and r = r and pf = pf and dir = dir, OF _ assms(2)]
      run changed by auto
  then obtain perm where perm: "route_permission ep = Some perm" using not_reading by blast
  moreover from this obtain h where "guarded cfg (fs_platform dir pf) perm h r srv = (resp0, srv1)"
    using run route_guarded_by by metis
  ultimately show ?thesis using \<open>srv1 \<noteq> srv\<close> meth
    by (auto simp: guarded_spec authorized_def split: option.splits if_splits)
qed

lemma data_changes_only_with_permission_witness:
  "\<exists>perm. route_permission EpUpload = Some perm \<and> authorized ex_cfg ex_pf ex_upload perm
    \<and> \<not> readOnly ex_cfg \<and> req_method ex_upload \<noteq> ''OPTIONS''"
proof -
  let ?run = "serve ex_cfg ex_pf [] EpUpload ex_upload ex_srv"
  have "serve ex_cfg (fs_platform ''/d'' ex_pf) [] EpUpload ex_upload ex_srv = (fst ?run, snd ?run)"
    by (simp add: ex_used_facts(2))
  moreover have "length (files (tables_of (snd ?run))) \<noteq> length (files (tables_of ex_srv))" by code_simp
  then have "tables_of (snd ?run) \<noteq> tables_of ex_srv" by auto
  ultimately show ?thesis
    using data_changes_only_with_permission [OF _ ex_srv_wf(1)] ex_used_facts(2) by metis
qed

text \<open>
  C31. What a refused caller sees. On a route that asks for a permission, a caller without a valid
  credential gets 401 and one whose credential lacks the permission gets 403; nothing else happens.
\<close>

theorem unauthorized_is_refused:
  assumes "route_permission ep = Some perm" and "\<not> authorized cfg pf r perm"
  shows "\<exists>message. route cfg pf ep r srv =
    (if resolveAuth cfg pf r = None then writeUnauthorized message else writeForbidden message, srv)"
proof -
  obtain h where "route cfg pf ep = guarded cfg pf perm h" using assms(1) route_guarded_by by blast
  then show ?thesis using assms(2) by (auto simp: guarded_spec authorized_def split: option.splits)
qed

lemma unauthorized_is_refused_witness:
  "\<exists>message. route ex_cfg ex_pf (EpDelete ''DDDDD'') (ex_plain []) ex_used
     = (writeForbidden message, ex_used)"
proof -
  have "\<not> authorized ex_cfg ex_pf (ex_plain []) permFileDelete" by code_simp
  moreover have "\<not> Option.is_none (resolveAuth ex_cfg ex_pf (ex_plain []))" by code_simp
  then have "resolveAuth ex_cfg ex_pf (ex_plain []) \<noteq> None" by (simp add: Option.is_none_def)
  ultimately show ?thesis
    using unauthorized_is_refused [OF route_permission.simps(2), of ex_cfg ex_pf "ex_plain []"]
    by presburger
qed

section \<open>Modes and refinement\<close>

text \<open>C19. In append-only mode no live record is ever lost, under any interleaving of requests.\<close>

theorem append_only_never_loses:
  assumes "reachable cfg (fs_platform dir pf) (srv, []) (srv1, ts)" and "appendOnly cfg"
    and "db_wf (tables_of srv)" and "live_stored (tables_of srv) (fs_look dir (store srv))"
    and "x \<in> set (files (tables_of srv))" and "live x"
  shows "x \<in> set (files (tables_of srv1))"
  using served_fs.append_only_keeps [OF assms] by simp

definition ex_append :: settings where
  "ex_append = ex_cfg\<lparr>appendOnly := True\<rparr>"

lemma ex_append_mode: "appendOnly ex_append"
  by (simp add: ex_append_def)

definition ex_append_state :: "fsys system" where
  "ex_append_state = the (play ex_append ex_pf ex_schedule (ex_used, []))"

lemma ex_append_reachable: "reachable ex_append ex_pf (ex_used, []) ex_append_state"
proof -
  have "case play ex_append ex_pf ex_schedule (ex_used, []) of None \<Rightarrow> False | Some s \<Rightarrow> True" by code_simp
  from play_outcome(1) [OF this] show ?thesis unfolding ex_append_state_def .
qed

lemma append_only_never_loses_witness:
  "hd (files (tables_of ex_used)) \<in> set (files (tables_of (fst ex_append_state)))"
  by (rule append_only_never_loses [of ex_append "''/d''" ex_pf ex_used _ "snd ex_append_state"])
    (simp_all add: ex_used_facts(2) ex_append_reachable ex_append_mode ex_used_sound(1) ex_used_sound(2) ex_used_facts(3,4))

end
